(* ===== verification/Prelude.thy ===== *)
theory Prelude
  imports
    Main
    "HOL-Library.Word"
    "HOL-Library.Char_ord"
    "HOL-Library.List_Lexorder"
    "HOL-Library.Sublist"
begin

text \<open>
  What every component of the model shares: instants and durations, bytes and
  hexadecimal text, the part of Rust's text handling the program relies on
  (\<open>str::trim\<close>), the ordered map \<open>BTreeMap\<close>, JSON values, the result-and-state
  computations in which the handlers are written, and the rules
  (\<open>wp\<close>, \<open>run\<close>, \<open>pres\<close>) with which their proofs are run.
\<close>

unbundle bit_operations_syntax

named_theorems wp \<open>equations that resolve a computation that returned a given result\<close>
named_theorems run \<open>equations that compute what a computation has to establish\<close>
named_theorems pres \<open>introduction rules for preservation of a predicate by a computation\<close>

section \<open>Instants, durations and bytes\<close>

text \<open>Instants (\<open>OffsetDateTime\<close>) and durations are integers, in nanoseconds since the
  Unix epoch.\<close>

type_synonym instant = int
type_synonym duration = int

definition seconds :: "int \<Rightarrow> duration" where "seconds n = n * 1000000000"
definition minutes :: "int \<Rightarrow> duration" where "minutes n = seconds (n * 60)"
definition hours :: "int \<Rightarrow> duration" where "hours n = minutes (n * 60)"
definition days :: "int \<Rightarrow> duration" where "days n = hours (n * 24)"

lemmas duration_simps = seconds_def minutes_def hours_def days_def

abbreviation (input) unix_epoch :: instant where "unix_epoch \<equiv> 0"

type_synonym byte = "8 word"
type_synonym bytes = "byte list"

subsection \<open>Integers as bytes\<close>

text \<open>\<open>to_be_bytes\<close> and \<open>from_be_bytes\<close> on \<open>n\<close> bytes.\<close>

definition be_bytes :: "nat \<Rightarrow> nat \<Rightarrow> bytes" where
  "be_bytes n v = map (\<lambda>i. word_of_nat (v div 256 ^ i)) (rev [0..<n])"

definition of_be_bytes :: "bytes \<Rightarrow> nat" where
  "of_be_bytes bs = foldl (\<lambda>n b. n * 256 + unat b) 0 bs"

lemma of_be_snoc: "of_be_bytes (bs @ [b]) = of_be_bytes bs * 256 + unat b"
  by (simp add: of_be_bytes_def)

lemma be_bytes_Suc: "be_bytes (Suc n) v = be_bytes n (v div 256) @ [word_of_nat v]"
proof -
  have "rev [0..<Suc n] = map Suc (rev [0..<n]) @ [0]"
    by (simp add: upt_conv_Cons rev_map map_Suc_upt del: upt_Suc)
      (simp only: rev_map [symmetric] map_Suc_upt)
  then show ?thesis by (simp add: be_bytes_def div_mult2_eq del: upt_Suc)
qed

lemma length_be_bytes [simp]: "length (be_bytes n v) = n"
  by (simp add: be_bytes_def)

lemma of_be_be: "of_be_bytes (be_bytes n v) = v mod 256 ^ n"
proof (induction n arbitrary: v)
  case (Suc n)
  then show ?case
    by (simp add: be_bytes_Suc of_be_snoc unat_of_nat mod_mult2_eq)
qed (simp add: be_bytes_def of_be_bytes_def)

text \<open>Zeros in front change nothing; without them, the length bounds the value.\<close>

lemma of_be_start: "foldl (\<lambda>n b. n * 256 + unat (b :: byte)) a bs = a * 256 ^ length bs + of_be_bytes bs"
proof (induction bs rule: rev_induct)
  case (snoc b bs)
  then show ?case by (simp add: of_be_snoc algebra_simps)
qed (simp add: of_be_bytes_def)

lemma of_be_Cons: "of_be_bytes (b # bs) = unat b * 256 ^ length bs + of_be_bytes bs"
  using of_be_start [of "unat b" bs] by (simp add: of_be_bytes_def)

lemma of_be_Nil [simp]: "of_be_bytes [] = 0"
  by (simp add: of_be_bytes_def)

lemma of_be_less: "of_be_bytes bs < 256 ^ length bs"
proof (induction bs rule: rev_induct)
  case (snoc b bs)
  have "unat b < 256" using unsigned_less [of b] by simp
  with snoc show ?case by (simp add: of_be_snoc)
qed simp

lemma of_be_strip [simp]: "of_be_bytes (dropWhile (\<lambda>b. b = 0) bs) = of_be_bytes bs"
  by (induction bs) (simp_all add: of_be_Cons)

lemma of_be_bound: "bs \<noteq> [] \<Longrightarrow> hd bs \<noteq> 0 \<Longrightarrow> 256 ^ (length bs - 1) \<le> of_be_bytes bs"
  by (cases bs) (auto simp: of_be_Cons Suc_le_eq word_gt_0_no [symmetric] unat_gt_0 intro!: trans_le_add1)

subsection \<open>Hexadecimal text\<close>

definition hex_digit :: "nat \<Rightarrow> char" where
  "hex_digit n = ''0123456789abcdef'' ! n"

definition hex_byte :: "byte \<Rightarrow> string" where
  "hex_byte b = [hex_digit (unat b div 16), hex_digit (unat b mod 16)]"

definition hex_encode :: "bytes \<Rightarrow> string" where
  "hex_encode bs = concat (map hex_byte bs)"

definition hex_value :: "char \<Rightarrow> nat option" where
  "hex_value c =
     (let n = (of_char c :: nat) in
      if 48 \<le> n \<and> n \<le> 57 then Some (n - 48)
      else if 97 \<le> n \<and> n \<le> 102 then Some (n - 87)
      else if 65 \<le> n \<and> n \<le> 70 then Some (n - 55)
      else None)"

text \<open>\<open>hex::decode\<close>: both cases are read, an odd length or another character is refused.\<close>

fun hex_decode :: "string \<Rightarrow> bytes option" where
  "hex_decode [] = Some []"
| "hex_decode [c] = None"
| "hex_decode (c # d # cs) =
     (case (hex_value c, hex_value d, hex_decode cs) of
        (Some h, Some l, Some bs) \<Rightarrow> Some (word_of_nat (h * 16 + l) # bs)
      | _ \<Rightarrow> None)"

lemma hex_encode_simps [simp]:
  "hex_encode [] = []"
  "hex_encode (b # bs) = hex_byte b @ hex_encode bs"
  by (simp_all add: hex_encode_def)

lemma all_below_16: "(\<And>k. k \<in> set [0..<16] \<Longrightarrow> P k) \<Longrightarrow> n < (16::nat) \<Longrightarrow> P n"
  by simp

lemma hex_value_digit: "n < 16 \<Longrightarrow> hex_value (hex_digit n) = Some n"
proof -
  assume n: "n < 16"
  have "list_all (\<lambda>k. hex_value (hex_digit k) = Some k) [0..<16]"
    by code_simp
  then show ?thesis using n by (simp add: list_all_iff)
qed

lemma unat_byte_parts:
  fixes b :: byte
  shows "unat b div 16 < 16" and "word_of_nat (unat b div 16 * 16 + unat b mod 16) = b"
proof -
  have "unat b < 256" using unsigned_less [of b] by simp
  then show "unat b div 16 < 16" by simp
  have "unat b div 16 * 16 + unat b mod 16 = unat b" by (rule div_mult_mod_eq)
  then show "word_of_nat (unat b div 16 * 16 + unat b mod 16) = b" by simp
qed

lemma hex_roundtrip [simp]: "hex_decode (hex_encode bs) = Some bs"
  by (induction bs) (simp_all add: hex_byte_def hex_value_digit unat_byte_parts)

lemma hex_encode_inj: "hex_encode xs = hex_encode ys \<longleftrightarrow> xs = ys"
  by (metis hex_roundtrip option.inject)

lemma length_hex_encode [simp]: "length (hex_encode bs) = 2 * length bs"
  by (induction bs) (simp_all add: hex_byte_def)

section \<open>Text\<close>

text \<open>A Rust string is modelled by its UTF-8 bytes. The sequences of Unicode's
  \<open>White_Space\<close> property, which \<open>str::trim\<close> removes at both ends:\<close>

definition white_space :: "string list" where
  "white_space =
     map (\<lambda>c. [c]) [CHR 0x09, CHR 0x0A, CHR 0x0B, CHR 0x0C, CHR 0x0D, CHR 0x20]
     @ [[CHR 0xC2, CHR 0x85], [CHR 0xC2, CHR 0xA0], [CHR 0xE1, CHR 0x9A, CHR 0x80]]
     @ map (\<lambda>c. [CHR 0xE2, CHR 0x80, c])
         [CHR 0x80, CHR 0x81, CHR 0x82, CHR 0x83, CHR 0x84, CHR 0x85, CHR 0x86, CHR 0x87,
          CHR 0x88, CHR 0x89, CHR 0x8A, CHR 0xA8, CHR 0xA9, CHR 0xAF]
     @ [[CHR 0xE2, CHR 0x81, CHR 0x9F], [CHR 0xE3, CHR 0x80, CHR 0x80]]"

fun strip_prefix_of :: "string list \<Rightarrow> string \<Rightarrow> string option" where
  "strip_prefix_of [] s = None"
| "strip_prefix_of (w # ws) s =
     (if w \<noteq> [] \<and> take (length w) s = w then Some (drop (length w) s)
      else strip_prefix_of ws s)"

lemma strip_prefix_of_shorter: "strip_prefix_of ws s = Some t \<Longrightarrow> length t < length s"
  by (induction ws) (cases s; auto split: if_splits)+

function strip_all :: "string list \<Rightarrow> string \<Rightarrow> string" where
  "strip_all ws s = (case strip_prefix_of ws s of None \<Rightarrow> s | Some t \<Rightarrow> strip_all ws t)"
  by pat_completeness auto
termination
  by (relation "measure (\<lambda>(ws, s). length s)") (auto dest: strip_prefix_of_shorter)

declare strip_all.simps [simp del]

definition trim :: "string \<Rightarrow> string" where
  "trim s = rev (strip_all (map rev white_space) (rev (strip_all white_space s)))"

lemma strip_all_idle: "strip_prefix_of ws s = None \<Longrightarrow> strip_all ws s = s"
  by (subst strip_all.simps) simp

lemma trim_Nil [simp]: "trim [] = []"
proof -
  have "strip_prefix_of ws [] = None" for ws :: "string list"
    by (induction ws) auto
  then show ?thesis by (simp add: trim_def strip_all_idle)
qed

text \<open>\<open>split(char)\<close> (one piece more than separators), \<open>join\<close>, \<open>lines\<close> (a last empty piece is
  no line, a trailing carriage return is dropped), \<open>split_whitespace\<close>, \<open>u32::from_str\<close>.\<close>

fun split_on :: "char \<Rightarrow> string \<Rightarrow> string list" where
  "split_on c [] = [[]]"
| "split_on c (x # xs) =
     (if x = c then [] # split_on c xs
      else case split_on c xs of [] \<Rightarrow> [[x]] | p # ps \<Rightarrow> (x # p) # ps)"

fun join :: "string \<Rightarrow> string list \<Rightarrow> string" where
  "join sep [] = []"
| "join sep [p] = p"
| "join sep (p # ps) = p @ sep @ join sep ps"

definition drop_cr :: "string \<Rightarrow> string" where
  "drop_cr l = (if l \<noteq> [] \<and> last l = CHR 0x0D then butlast l else l)"

definition lines :: "string \<Rightarrow> string list" where
  "lines s = (let ps = split_on CHR 0x0A s in map drop_cr (if last ps = [] then butlast ps else ps))"

function split_ws :: "string \<Rightarrow> string \<Rightarrow> string list" where
  "split_ws acc s = (case strip_prefix_of white_space s of
     Some t \<Rightarrow> (if acc = [] then split_ws [] t else acc # split_ws [] t)
   | None \<Rightarrow> (case s of [] \<Rightarrow> (if acc = [] then [] else [acc])
             | c # cs \<Rightarrow> split_ws (acc @ [c]) cs))"
  by pat_completeness auto
termination
  by (relation "measure (\<lambda>(acc, s). length s)") (auto dest: strip_prefix_of_shorter)

declare split_ws.simps [simp del]

definition split_whitespace :: "string \<Rightarrow> string list" where
  "split_whitespace s = split_ws [] s"

definition is_digit :: "char \<Rightarrow> bool" where
  "is_digit c \<longleftrightarrow> 48 \<le> (of_char c :: nat) \<and> (of_char c :: nat) \<le> 57"

definition is_lower :: "char \<Rightarrow> bool" where
  "is_lower c \<longleftrightarrow> 97 \<le> (of_char c :: nat) \<and> (of_char c :: nat) \<le> 122"

definition digits_value :: "string \<Rightarrow> nat" where
  "digits_value s = foldl (\<lambda>n c. n * 10 + ((of_char c :: nat) - 48)) 0 s"

definition parse_unsigned :: "nat \<Rightarrow> string \<Rightarrow> nat option" where
  "parse_unsigned bound s =
     (let ds = (case s of [] \<Rightarrow> [] | c # cs \<Rightarrow> if c = CHR ''+'' then cs else s) in
      if ds \<noteq> [] \<and> list_all is_digit ds \<and> digits_value ds \<le> bound then Some (digits_value ds)
      else None)"

definition parse_u32 :: "string \<Rightarrow> nat option" where
  "parse_u32 = parse_unsigned 4294967295"

definition strip_prefix :: "string \<Rightarrow> string \<Rightarrow> string option" where
  "strip_prefix p s = (if take (length p) s = p then Some (drop (length p) s) else None)"

text \<open>\<open>find_map\<close>\<close>

fun find_map :: "('a \<Rightarrow> 'b option) \<Rightarrow> 'a list \<Rightarrow> 'b option" where
  "find_map f [] = None"
| "find_map f (x # xs) = (case f x of Some y \<Rightarrow> Some y | None \<Rightarrow> find_map f xs)"

lemma split_on_ne [simp]: "split_on c s \<noteq> []"
  by (induction s) (auto split: list.splits)

lemma join_Cons: "ps \<noteq> [] \<Longrightarrow> join sep (p # ps) = p @ sep @ join sep ps"
  by (cases ps) auto

lemma join_split: "join [c] (split_on c s) = s"
proof (induction s)
  case (Cons x s)
  then show ?case
    by (cases "split_on c s"; cases "tl (split_on c s)") (auto simp: join_Cons)
qed simp

section \<open>The ordered map\<close>

text \<open>\<open>BTreeMap\<close>: an association list in increasing key order, so that iteration
  is in key order, as in the source.\<close>

type_synonym ('k, 'v) btree = "('k \<times> 'v) list"

fun bt_get :: "('k, 'v) btree \<Rightarrow> 'k \<Rightarrow> 'v option" where
  "bt_get [] k = None"
| "bt_get ((k', v) # m) k = (if k' = k then Some v else bt_get m k)"

fun bt_insert :: "('k::linorder) \<Rightarrow> 'v \<Rightarrow> ('k, 'v) btree \<Rightarrow> ('k, 'v) btree" where
  "bt_insert k v [] = [(k, v)]"
| "bt_insert k v ((k', v') # m) =
     (if k < k' then (k, v) # (k', v') # m
      else if k = k' then (k, v) # m
      else (k', v') # bt_insert k v m)"

abbreviation bt_values :: "('k, 'v) btree \<Rightarrow> 'v list" where "bt_values m \<equiv> map snd m"

definition bt_ok :: "('k::linorder, 'v) btree \<Rightarrow> bool" where
  "bt_ok m \<longleftrightarrow> sorted_wrt (<) (map fst m)"

lemma bt_get_insert [simp]: "bt_get (bt_insert k v m) k' = (if k' = k then Some v else bt_get m k')"
  by (induction m) auto

lemma bt_keys_insert [simp]: "fst ` set (bt_insert k v m) = insert k (fst ` set m)"
proof (induction m)
  case (Cons p m)
  then show ?case by (cases p) auto
qed simp

lemma bt_ok_Nil [simp]: "bt_ok []"
  by (simp add: bt_ok_def)

lemma bt_ok_insert [simp, intro]: "bt_ok m \<Longrightarrow> bt_ok (bt_insert k v m)"
proof (induction m)
  case Nil
  then show ?case by (simp add: bt_ok_def)
next
  case (Cons p m)
  obtain k' v' where p: "p = (k', v')" by (cases p)
  from Cons have "bt_ok (bt_insert k v m)" by (simp add: bt_ok_def)
  moreover have "fst ` set (bt_insert k v m) = insert k (fst ` set m)"
    by simp
  ultimately show ?case
    using Cons.prems by (fastforce simp: bt_ok_def p dest: order_less_trans)
qed

lemma bt_get_SomeD: "bt_get m k = Some v \<Longrightarrow> (k, v) \<in> set m"
  by (induction m) (auto split: if_splits)

lemma bt_get_iff: "bt_ok m \<Longrightarrow> bt_get m k = Some v \<longleftrightarrow> (k, v) \<in> set m"
proof (induction m)
  case (Cons p m)
  then have "bt_ok m" and "\<forall>x \<in> set m. fst p < fst x" by (simp_all add: bt_ok_def)
  with Cons.IH show ?case by (cases p) force
qed simp

lemma bt_get_None: "bt_get m k = None \<longleftrightarrow> k \<notin> fst ` set m"
proof (induction m)
  case (Cons p m)
  then show ?case by (cases p) auto
qed simp

lemma bt_ok_distinct: "bt_ok m \<Longrightarrow> distinct (map fst m)"
  by (simp add: bt_ok_def strict_sorted_iff)

text \<open>Every value is filed under its own key.\<close>

definition bt_keyed :: "('v \<Rightarrow> 'k) \<Rightarrow> ('k, 'v) btree \<Rightarrow> bool" where
  "bt_keyed f m \<longleftrightarrow> (\<forall>(k, v) \<in> set m. f v = k)"

lemma bt_keyed_Nil [simp]: "bt_keyed f []"
  by (simp add: bt_keyed_def)

lemma bt_keyed_insert [simp]: "bt_keyed f m \<Longrightarrow> f v = k \<Longrightarrow> bt_keyed f (bt_insert k v m)"
proof (induction m)
  case (Cons p m)
  then show ?case by (cases p) (auto simp: bt_keyed_def)
qed (simp add: bt_keyed_def)

lemma bt_keyedD: "bt_keyed f m \<Longrightarrow> bt_get m k = Some v \<Longrightarrow> f v = k"
  by (auto simp: bt_keyed_def dest: bt_get_SomeD)

lemma bt_keyed_values:
  "bt_ok m \<Longrightarrow> bt_keyed f m \<Longrightarrow> v \<in> snd ` set m \<longleftrightarrow> bt_get m (f v) = Some v"
  by (force simp: bt_keyed_def bt_get_iff)

lemma bt_keyed_distinct:
  assumes "bt_ok m" and "bt_keyed f m"
  shows "distinct (map f (bt_values m))"
proof -
  have "map f (bt_values m) = map fst m"
    using assms(2) by (auto simp: bt_keyed_def)
  then show ?thesis using assms(1) by (simp only: bt_ok_distinct)
qed

section \<open>JSON\<close>

datatype json =
    JNull
  | JBool bool
  | JNum int
  | JStr string
  | JArr "json list"
  | JObj "(string \<times> json) list"

text \<open>\<open>Value::get\<close> on an object, and \<open>Value::as_str\<close>.\<close>

fun j_get :: "json \<Rightarrow> string \<Rightarrow> json option" where
  "j_get (JObj fs) k = map_of fs k"
| "j_get _ k = None"

fun j_str :: "json \<Rightarrow> string option" where
  "j_str (JStr s) = Some s"
| "j_str _ = None"

text \<open>\<open>map.insert\<close>: the value of an existing key is replaced.\<close>

fun j_insert :: "string \<Rightarrow> json \<Rightarrow> (string \<times> json) list \<Rightarrow> (string \<times> json) list" where
  "j_insert k v [] = [(k, v)]"
| "j_insert k v ((k', v') # fs) = (if k' = k then (k, v) # fs else (k', v') # j_insert k v fs)"

lemma map_of_j_insert [simp]: "map_of (j_insert k v fs) = (map_of fs)(k \<mapsto> v)"
  by (induction fs) (auto simp: fun_eq_iff)

section \<open>Results\<close>

text \<open>\<open>Result\<close> with \<open>?\<close>: the error goes out, the value goes on. \<open>require\<close> is a guard
  with an early return, \<open>ok_or\<close> and \<open>or_else_err\<close> are \<open>ok_or_else\<close> and \<open>map_err\<close>.\<close>

definition sbind :: "'e + 'a \<Rightarrow> ('a \<Rightarrow> 'e + 'b) \<Rightarrow> 'e + 'b" where
  "sbind m k = (case m of Inl e \<Rightarrow> Inl e | Inr x \<Rightarrow> k x)"

definition require :: "bool \<Rightarrow> 'e \<Rightarrow> 'e + unit" where
  "require b e = (if b then Inr () else Inl e)"

definition ok_or :: "'e \<Rightarrow> 'a option \<Rightarrow> 'e + 'a" where
  "ok_or e v = (case v of None \<Rightarrow> Inl e | Some x \<Rightarrow> Inr x)"

definition or_else_err :: "('e \<Rightarrow> 'f) \<Rightarrow> 'e + 'a \<Rightarrow> 'f + 'a" where
  "or_else_err f m = map_sum f (\<lambda>x. x) m"

text \<open>\<open>collect\<close> into a \<open>Result\<close>: the first error wins.\<close>

fun traverse :: "('a \<Rightarrow> 'e + 'b) \<Rightarrow> 'a list \<Rightarrow> 'e + 'b list" where
  "traverse f [] = Inr []"
| "traverse f (x # xs) = sbind (f x) (\<lambda>y. sbind (traverse f xs) (\<lambda>ys. Inr (y # ys)))"

lemmas result_defs = sbind_def require_def ok_or_def or_else_err_def

lemma sbind_Inr [wp]: "sbind m k = Inr y \<longleftrightarrow> (\<exists>x. m = Inr x \<and> k x = Inr y)"
  by (auto simp: sbind_def split: sum.splits)

lemma sbind_Inl [wp]: "sbind m k = Inl e \<longleftrightarrow> m = Inl e \<or> (\<exists>x. m = Inr x \<and> k x = Inl e)"
  by (auto simp: sbind_def split: sum.splits)

lemma Inl_sbind: "Inl e = sbind m k \<longleftrightarrow> sbind m k = Inl e"
  by auto

lemma require_Inr [wp]: "require b e = Inr u \<longleftrightarrow> b"
  by (simp add: require_def)

lemma require_Inl [wp]: "require b e = Inl f \<longleftrightarrow> \<not> b \<and> f = e"
  by (auto simp: require_def)

lemma ok_or_Inr [wp]: "ok_or e v = Inr x \<longleftrightarrow> v = Some x"
  by (auto simp: ok_or_def split: option.splits)

lemma ok_or_Inl [wp]: "ok_or e v = Inl f \<longleftrightarrow> v = None \<and> f = e"
  by (auto simp: ok_or_def split: option.splits)

lemma or_else_err_Inr [wp]: "or_else_err f m = Inr x \<longleftrightarrow> m = Inr x"
  by (cases m) (auto simp: or_else_err_def)

lemma or_else_err_Inl [wp]: "or_else_err f m = Inl e \<longleftrightarrow> (\<exists>d. m = Inl d \<and> e = f d)"
  by (cases m) (auto simp: or_else_err_def)

lemma sbind_simps [simp]: "sbind (Inr x) k = k x" "sbind (Inl e) k = Inl e"
  by (simp_all add: sbind_def)

lemma or_else_err_simps [simp]:
  "or_else_err f (Inr x) = Inr x" "or_else_err f (Inl e) = Inl (f e)"
  by (simp_all add: or_else_err_def)

lemma require_True [simp]: "require True e = Inr ()"
  by (simp add: require_def)

lemma traverse_Inr: "traverse f xs = Inr ys \<longleftrightarrow> list_all2 (\<lambda>x y. f x = Inr y) xs ys"
proof (induction xs arbitrary: ys)
  case (Cons x xs)
  then show ?case by (cases ys) (auto simp: wp)
qed auto

lemma traverse_Inl: "traverse f xs = Inl e \<Longrightarrow> \<exists>x \<in> set xs. f x = Inl e"
  by (induction xs) (auto simp: wp)

section \<open>Result-and-state computations\<close>

text \<open>A handler takes the state and returns a result, an error or a value, with the
  state it leaves: what was written before an error stays written.\<close>

type_synonym ('s, 'e, 'a) res = "'s \<Rightarrow> ('e + 'a) \<times> 's"

definition ok :: "'a \<Rightarrow> ('s, 'e, 'a) res" where "ok x = (\<lambda>s. (Inr x, s))"
definition fail :: "'e \<Rightarrow> ('s, 'e, 'a) res" where "fail e = (\<lambda>s. (Inl e, s))"

definition bindr :: "('s, 'e, 'a) res \<Rightarrow> ('a \<Rightarrow> ('s, 'e, 'b) res) \<Rightarrow> ('s, 'e, 'b) res" where
  "bindr m k = (\<lambda>s. case m s of (Inl e, t) \<Rightarrow> (Inl e, t) | (Inr x, t) \<Rightarrow> k x t)"

text \<open>An early return: go on when the condition holds.\<close>

definition ensure :: "bool \<Rightarrow> 'e \<Rightarrow> ('s, 'e, unit) res" where
  "ensure b e = (if b then ok () else fail e)"

definition gets :: "('s \<Rightarrow> 'a) \<Rightarrow> ('s, 'e, 'a) res" where "gets f = (\<lambda>s. (Inr (f s), s))"
definition modify :: "('s \<Rightarrow> 's) \<Rightarrow> ('s, 'e, unit) res" where "modify f = (\<lambda>s. (Inr (), f s))"

text \<open>\<open>map_err\<close>, and a result that does not depend on the state.\<close>

definition map_err :: "('e \<Rightarrow> 'f) \<Rightarrow> ('s, 'e, 'a) res \<Rightarrow> ('s, 'f, 'a) res" where
  "map_err f m = (\<lambda>s. case m s of (Inl e, t) \<Rightarrow> (Inl (f e), t) | (Inr x, t) \<Rightarrow> (Inr x, t))"

definition lift :: "'e + 'a \<Rightarrow> ('s, 'e, 'a) res" where "lift r = (\<lambda>s. (r, s))"

text \<open>Run a computation and hand its result over as a value, for a \<open>match\<close> on it.\<close>

definition attempt :: "('s, 'e, 'a) res \<Rightarrow> ('s, 'f, 'e + 'a) res" where
  "attempt m = (\<lambda>s. case m s of (r, t) \<Rightarrow> (Inr r, t))"

text \<open>A \<open>for\<close> loop over a list, with \<open>?\<close> in its body.\<close>

fun foreach :: "'a list \<Rightarrow> ('a \<Rightarrow> ('s, 'e, unit) res) \<Rightarrow> ('s, 'e, unit) res" where
  "foreach [] f = ok ()"
| "foreach (x # xs) f = bindr (f x) (\<lambda>_. foreach xs f)"

lemmas run_defs = ok_def fail_def bindr_def ensure_def gets_def modify_def map_err_def lift_def
  attempt_def

subsection \<open>Resolving a computation that returned\<close>

lemma wp_ok [wp]: "ok x s = (r, t) \<longleftrightarrow> r = Inr x \<and> t = s"
  by (auto simp: ok_def)

lemma wp_fail [wp]: "fail e s = (r, t) \<longleftrightarrow> r = Inl e \<and> t = s"
  by (auto simp: fail_def)

lemma wp_bindr_ok [wp]:
  "bindr m k s = (Inr y, u) \<longleftrightarrow> (\<exists>x t. m s = (Inr x, t) \<and> k x t = (Inr y, u))"
  by (auto simp: bindr_def split: prod.splits sum.splits)

lemma wp_bindr_err [wp]:
  "bindr m k s = (Inl e, u) \<longleftrightarrow>
     m s = (Inl e, u) \<or> (\<exists>x t. m s = (Inr x, t) \<and> k x t = (Inl e, u))"
  by (auto simp: bindr_def split: prod.splits sum.splits)

lemma wp_ensure [wp]:
  "ensure b e s = (r, t) \<longleftrightarrow> t = s \<and> (if b then r = Inr () else r = Inl e)"
  by (auto simp: ensure_def ok_def fail_def)

lemma wp_gets [wp]: "gets f s = (r, t) \<longleftrightarrow> r = Inr (f s) \<and> t = s"
  by (auto simp: gets_def)

lemma wp_modify [wp]: "modify f s = (r, t) \<longleftrightarrow> r = Inr () \<and> t = f s"
  by (auto simp: modify_def)

lemma wp_lift [wp]: "lift q s = (r, t) \<longleftrightarrow> r = q \<and> t = s"
  by (auto simp: lift_def)

lemma wp_map_err_ok [wp]: "map_err f m s = (Inr x, t) \<longleftrightarrow> m s = (Inr x, t)"
  by (auto simp: map_err_def split: prod.splits sum.splits)

lemma wp_map_err_err [wp]: "map_err f m s = (Inl e, t) \<longleftrightarrow> (\<exists>d. m s = (Inl d, t) \<and> e = f d)"
  by (auto simp: map_err_def split: prod.splits sum.splits)

lemma wp_attempt_ok [wp]: "attempt m s = (Inr r, t) \<longleftrightarrow> m s = (r, t)"
  by (auto simp: attempt_def split: prod.splits)

lemma wp_attempt_err [wp]: "attempt m s = (Inl e, t) \<longleftrightarrow> False"
  by (auto simp: attempt_def split: prod.splits)

subsection \<open>Preservation of a predicate on the state, whatever the result\<close>

definition keeps :: "('s \<Rightarrow> bool) \<Rightarrow> ('s, 'e, 'a) res \<Rightarrow> bool" where
  "keeps P m \<longleftrightarrow> (\<forall>s. P s \<longrightarrow> P (snd (m s)))"

lemma keepsI: "(\<And>s. P s \<Longrightarrow> P (snd (m s))) \<Longrightarrow> keeps P m"
  by (simp add: keeps_def)

lemma keepsD: "keeps P m \<Longrightarrow> P s \<Longrightarrow> m s = (r, t) \<Longrightarrow> P t"
  by (metis keeps_def snd_conv)

lemma keeps_ok [pres]: "keeps P (ok x)"
  by (simp add: keeps_def ok_def)

lemma keeps_fail [pres]: "keeps P (fail e)"
  by (simp add: keeps_def fail_def)

lemma keeps_ensure [pres]: "keeps P (ensure b e)"
  by (simp add: keeps_def ensure_def ok_def fail_def)

lemma keeps_gets [pres]: "keeps P (gets f)"
  by (simp add: keeps_def gets_def)

lemma keeps_lift [pres]: "keeps P (lift r)"
  by (simp add: keeps_def lift_def)

lemma keeps_bindr [pres]: "keeps P m \<Longrightarrow> (\<And>x. keeps P (k x)) \<Longrightarrow> keeps P (bindr m k)"
  by (force simp: keeps_def bindr_def split: prod.splits sum.splits)

lemma keeps_map_err [pres]: "keeps P m \<Longrightarrow> keeps P (map_err f m)"
  by (force simp: keeps_def map_err_def split: prod.splits sum.splits)

lemma keeps_attempt [pres]: "keeps P m \<Longrightarrow> keeps P (attempt m)"
  by (force simp: keeps_def attempt_def split: prod.splits)

lemma keeps_modify: "(\<And>s. P s \<Longrightarrow> P (f s)) \<Longrightarrow> keeps P (modify f)"
  by (simp add: keeps_def modify_def)

lemma keeps_foreach [pres]: "(\<And>x. x \<in> set xs \<Longrightarrow> keeps P (f x)) \<Longrightarrow> keeps P (foreach xs f)"
  by (induction xs) (auto intro!: pres)

lemma keeps_if [pres]: "keeps P a \<Longrightarrow> keeps P b \<Longrightarrow> keeps P (if c then a else b)"
  by simp

lemma keeps_case_option [pres]:
  "keeps P a \<Longrightarrow> (\<And>x. keeps P (f x)) \<Longrightarrow> keeps P (case v of None \<Rightarrow> a | Some x \<Rightarrow> f x)"
  by (cases v) auto

lemma keeps_case_sum [pres]:
  "(\<And>e. keeps P (f e)) \<Longrightarrow> (\<And>x. keeps P (g x)) \<Longrightarrow> keeps P (case v of Inl e \<Rightarrow> f e | Inr x \<Rightarrow> g x)"
  by (cases v) auto

subsection \<open>What a computation establishes\<close>

text \<open>\<open>runs m Q E s\<close>: from \<open>s\<close>, \<open>m\<close> ends either with a value in a state that satisfies
  \<open>Q\<close>, or with an error in a state that satisfies \<open>E\<close>. The equations of \<open>run\<close> compute it
  backwards through the program text.\<close>

definition runs :: "('s, 'e, 'a) res \<Rightarrow> ('a \<Rightarrow> 's \<Rightarrow> bool) \<Rightarrow> ('e \<Rightarrow> 's \<Rightarrow> bool) \<Rightarrow> 's \<Rightarrow> bool" where
  "runs m Q E s = (case m s of (Inl e, t) \<Rightarrow> E e t | (Inr x, t) \<Rightarrow> Q x t)"

lemma runs_ok [run]: "runs (ok x) Q E s \<longleftrightarrow> Q x s"
  by (simp add: runs_def ok_def)

lemma runs_fail [run]: "runs (fail e) Q E s \<longleftrightarrow> E e s"
  by (simp add: runs_def fail_def)

lemma runs_bindr [run]: "runs (bindr m k) Q E s \<longleftrightarrow> runs m (\<lambda>x. runs (k x) Q E) E s"
  by (simp add: runs_def bindr_def split: prod.splits sum.splits)

lemma runs_ensure [run]: "runs (ensure b e) Q E s \<longleftrightarrow> (b \<longrightarrow> Q () s) \<and> (\<not> b \<longrightarrow> E e s)"
  by (simp add: runs_def ensure_def ok_def fail_def)

lemma runs_gets [run]: "runs (gets f) Q E s \<longleftrightarrow> Q (f s) s"
  by (simp add: runs_def gets_def)

lemma runs_modify [run]: "runs (modify f) Q E s \<longleftrightarrow> Q () (f s)"
  by (simp add: runs_def modify_def)

lemma runs_map_err [run]: "runs (map_err f m) Q E s \<longleftrightarrow> runs m Q (\<lambda>e. E (f e)) s"
  by (simp add: runs_def map_err_def split: prod.splits sum.splits)

lemma runs_lift [run]:
  "runs (lift r) Q E s \<longleftrightarrow> (\<forall>x. r = Inr x \<longrightarrow> Q x s) \<and> (\<forall>e. r = Inl e \<longrightarrow> E e s)"
  by (auto simp: runs_def lift_def split: sum.splits)

lemma runs_attempt [run]:
  "runs (attempt m) Q E s \<longleftrightarrow> runs m (\<lambda>x. Q (Inr x)) (\<lambda>e. Q (Inl e)) s"
  by (simp add: runs_def attempt_def split: prod.splits sum.splits)

lemma runs_if [run]:
  "runs (if b then m else n) Q E s \<longleftrightarrow> (b \<longrightarrow> runs m Q E s) \<and> (\<not> b \<longrightarrow> runs n Q E s)"
  by simp

lemma runs_case_sum [run]:
  "runs (case r of Inl e \<Rightarrow> f e | Inr x \<Rightarrow> g x) Q E s \<longleftrightarrow>
     (\<forall>e. r = Inl e \<longrightarrow> runs (f e) Q E s) \<and> (\<forall>x. r = Inr x \<longrightarrow> runs (g x) Q E s)"
  by (simp split: sum.splits)

lemma runs_case_option [run]:
  "runs (case v of None \<Rightarrow> a | Some x \<Rightarrow> f x) Q E s \<longleftrightarrow>
     (v = None \<longrightarrow> runs a Q E s) \<and> (\<forall>x. v = Some x \<longrightarrow> runs (f x) Q E s)"
  by (simp split: option.splits)

lemma runs_Let [run]: "runs (let x = v in m x) Q E s \<longleftrightarrow> runs (m v) Q E s"
  by simp

lemma runs_mono:
  "\<lbrakk>runs m Q E s; \<And>x t. Q x t \<Longrightarrow> Q' x t; \<And>e t. E e t \<Longrightarrow> E' e t\<rbrakk> \<Longrightarrow> runs m Q' E' s"
  by (simp add: runs_def split: prod.splits sum.splits)

lemma runs_okD: "runs m Q E s \<Longrightarrow> m s = (Inr x, t) \<Longrightarrow> Q x t"
  by (simp add: runs_def)

lemma runs_errD: "runs m Q E s \<Longrightarrow> m s = (Inl e, t) \<Longrightarrow> E e t"
  by (simp add: runs_def)

lemma runs_okI: "(\<And>x t. m s = (Inr x, t) \<Longrightarrow> Q x t) \<Longrightarrow> runs m Q (\<lambda>_ _. True) s"
  by (simp add: runs_def split: prod.splits sum.splits)

lemma keeps_runs: "keeps P m \<longleftrightarrow> (\<forall>s. P s \<longrightarrow> runs m (\<lambda>_. P) (\<lambda>_. P) s)"
  by (auto simp: keeps_def runs_def split: prod.splits sum.splits) (metis old.sum.exhaust prod.collapse)+

lemma runs_keeps: "keeps P m \<Longrightarrow> P s \<Longrightarrow> runs m (\<lambda>_. P) (\<lambda>_. P) s"
  by (simp add: keeps_runs)

lemma keeps_bindr_then:
  assumes "\<And>s. P s \<Longrightarrow> runs m R (\<lambda>_. P) s"
    and "\<And>x s. R x s \<Longrightarrow> runs (k x) (\<lambda>_. P) (\<lambda>_. P) s"
  shows "keeps P (bindr m k)"
  unfolding keeps_runs runs_bindr using assms by (blast intro: runs_mono)

lemma runs_conj:
  "runs m Q E s \<Longrightarrow> runs m Q' E' s \<Longrightarrow> runs m (\<lambda>x t. Q x t \<and> Q' x t) (\<lambda>e t. E e t \<and> E' e t) s"
  by (simp add: runs_def split: prod.splits sum.splits)

subsection \<open>Which errors a computation may end in\<close>

definition errs :: "('e \<Rightarrow> bool) \<Rightarrow> ('s, 'e, 'a) res \<Rightarrow> bool" where
  "errs P m \<longleftrightarrow> (\<forall>s e t. m s = (Inl e, t) \<longrightarrow> P e)"

named_theorems errors \<open>introduction rules for the errors a computation may end in\<close>

lemma errsD: "errs P m \<Longrightarrow> m s = (Inl e, t) \<Longrightarrow> P e"
  unfolding errs_def by blast

lemma errs_ok [errors]: "errs P (ok x)"
  by (simp add: errs_def wp)

lemma errs_fail [errors]: "P e \<Longrightarrow> errs P (fail e)"
  by (simp add: errs_def wp)

lemma errs_ensure [errors]: "P e \<Longrightarrow> errs P (ensure b e)"
  by (simp add: errs_def wp)

lemma errs_lift_bindr:
  "(\<And>e. r = Inl e \<Longrightarrow> P e) \<Longrightarrow> (\<And>x. r = Inr x \<Longrightarrow> errs P (k x)) \<Longrightarrow> errs P (bindr (lift r) k)"
  unfolding errs_def wp_bindr_err wp_lift by blast

lemma errs_bindr [errors]: "errs P m \<Longrightarrow> (\<And>x. errs P (k x)) \<Longrightarrow> errs P (bindr m k)"
  unfolding errs_def wp_bindr_err by blast

lemma errs_lift [errors]: "(\<And>e. r = Inl e \<Longrightarrow> P e) \<Longrightarrow> errs P (lift r)"
  by (auto simp: errs_def wp)

lemma errs_map_err: "(\<And>e. P (f e)) \<Longrightarrow> errs P (map_err f m)"
  by (auto simp: errs_def wp)

lemma errs_attempt [errors]: "errs P (attempt m)"
  by (simp add: errs_def wp)

lemma errs_if [errors]: "errs P a \<Longrightarrow> errs P b \<Longrightarrow> errs P (if c then a else b)"
  by simp

lemma errs_case_sum [errors]:
  "(\<And>e. v = Inl e \<Longrightarrow> errs P (f e)) \<Longrightarrow> (\<And>x. v = Inr x \<Longrightarrow> errs P (g x)) \<Longrightarrow>
     errs P (case v of Inl e \<Rightarrow> f e | Inr x \<Rightarrow> g x)"
  by (cases v) auto

lemma errs_case_option [errors]:
  "(v = None \<Longrightarrow> errs P a) \<Longrightarrow> (\<And>x. v = Some x \<Longrightarrow> errs P (f x)) \<Longrightarrow>
     errs P (case v of None \<Rightarrow> a | Some x \<Rightarrow> f x)"
  by (cases v) auto

end
