(* ===== verification/Castore.thy ===== *)
theory Castore
  imports Prelude
begin

text \<open>
  The register of the certification authority: \<open>crates/oe-castore/src/lib.rs\<close>. Its
  records, the trait \<open>Store\<close> as the in-memory implementation \<open>Memory\<close> carries it out
  (one definition per method; the \<open>BTreeMap\<close>s are the ordered maps of the prelude), the
  interfaces its users rely on (\<open>first_revocation\<close>, \<open>number_stream\<close>) with their
  interpretations, and the invariants of every sequence of operations.
\<close>

section \<open>Data\<close>

text \<open>A serial number is its canonical big-endian bytes.\<close>

type_synonym serial = bytes

definition serial_key :: "serial \<Rightarrow> string" where
  "serial_key s = hex_encode s"

datatype certificate_status = Reserved | Issued | Revoked

record certificate =
  crt_serial :: serial
  crt_profile :: string
  crt_subject_dn :: string
  crt_issuer_dn :: string
  crt_not_before :: instant
  crt_not_after :: instant
  crt_der :: bytes
  crt_status :: certificate_status
  crt_revoked_at :: "instant option"
  crt_revocation_reason :: int
  crt_request_transaction_id :: string

datatype request_state = Pending | Approved | Req_Issued | Rejected

fun state_text :: "request_state \<Rightarrow> string" where
  "state_text Pending = ''PENDING''"
| "state_text Approved = ''APPROVED''"
| "state_text Req_Issued = ''ISSUED''"
| "state_text Rejected = ''REJECTED''"

record request =
  rq_transaction_id :: string
  rq_csr_fingerprint :: string
  rq_csr_der :: bytes
  rq_profile :: string
  rq_subject_cn :: string
  rq_state :: request_state
  rq_created_at :: instant
  rq_decided_at :: "instant option"
  rq_operator :: string
  rq_comment :: string
  rq_issued_at :: "instant option"
  rq_certificate_serial :: "serial option"
  rq_requester :: string

record authority =
  au_name :: string
  au_subject_dn :: string
  au_der :: bytes
  au_token_label :: string
  au_key_label :: string
  au_created_at :: instant
  au_revoked_at :: "instant option"
  au_revocation_reason :: int

text \<open>\<open>Crl\<close> and \<open>Arl\<close> have the same fields, in two separate streams.\<close>

record rev_list =
  rl_number :: int
  rl_der :: bytes
  rl_this_update :: instant
  rl_next_update :: instant

type_synonym crl = rev_list
type_synonym arl = rev_list

datatype store_error = NotFound | SerialTaken | Conflict | StoreOther string

record memory =
  m_authorities :: "(string, authority) btree"
  m_certificates :: "(string, certificate) btree"
  m_requests :: "(string, request) btree"
  m_by_fingerprint :: "(string, string) btree"
  m_crls :: "crl list"
  m_next_crl :: int
  m_arls :: "arl list"
  m_next_arl :: int

type_synonym 'a store_op = "(memory, store_error, 'a) res"

definition memory_new :: memory where
  "memory_new = \<lparr>m_authorities = [], m_certificates = [], m_requests = [],
     m_by_fingerprint = [], m_crls = [], m_next_crl = 0, m_arls = [], m_next_arl = 0\<rparr>"

section \<open>Operations\<close>

subsection \<open>Authorities\<close>

text \<open>Saving an authority again never erases its revocation.\<close>

definition save_authority :: "authority \<Rightarrow> unit store_op" where
  "save_authority a = modify (\<lambda>s.
     let a' = (case bt_get (m_authorities s) (au_name a) of
                 Some previous \<Rightarrow> a\<lparr>au_revoked_at := au_revoked_at previous,
                                     au_revocation_reason := au_revocation_reason previous\<rparr>
               | None \<Rightarrow> a)
     in s\<lparr>m_authorities := bt_insert (au_name a') a' (m_authorities s)\<rparr>)"

definition get_authority :: "string \<Rightarrow> authority store_op" where
  "get_authority name = (\<lambda>s. case bt_get (m_authorities s) name of
     None \<Rightarrow> (Inl NotFound, s) | Some a \<Rightarrow> (Inr a, s))"

definition store_revoke_authority :: "string \<Rightarrow> instant \<Rightarrow> int \<Rightarrow> unit store_op" where
  "store_revoke_authority name date reason = (\<lambda>s. case bt_get (m_authorities s) name of
     None \<Rightarrow> (Inl NotFound, s)
   | Some a \<Rightarrow>
       if au_revoked_at a \<noteq> None then (Inr (), s)
       else (Inr (), s\<lparr>m_authorities := bt_insert name
              (a\<lparr>au_revoked_at := Some date, au_revocation_reason := reason\<rparr>)
              (m_authorities s)\<rparr>))"

definition revoked_authorities :: "(memory, 'e, authority list) res" where
  "revoked_authorities = gets (\<lambda>s.
     sort_key au_name (filter (\<lambda>a. au_revoked_at a \<noteq> None) (bt_values (m_authorities s))))"

subsection \<open>Certificates\<close>

definition reserve_serial :: "serial \<Rightarrow> string \<Rightarrow> unit store_op" where
  "reserve_serial serial profile = (\<lambda>s.
     if bt_get (m_certificates s) (serial_key serial) \<noteq> None then (Inl SerialTaken, s)
     else (Inr (), s\<lparr>m_certificates := bt_insert (serial_key serial)
            \<lparr>crt_serial = serial, crt_profile = profile, crt_subject_dn = [],
             crt_issuer_dn = [], crt_not_before = unix_epoch, crt_not_after = unix_epoch,
             crt_der = [], crt_status = Reserved, crt_revoked_at = None,
             crt_revocation_reason = 0, crt_request_transaction_id = []\<rparr>
            (m_certificates s)\<rparr>))"

definition save_certificate :: "certificate \<Rightarrow> unit store_op" where
  "save_certificate c = (\<lambda>s. case bt_get (m_certificates s) (serial_key (crt_serial c)) of
     None \<Rightarrow> (Inl NotFound, s)
   | Some existing \<Rightarrow>
       if crt_status existing \<noteq> Reserved then (Inl Conflict, s)
       else (Inr (), s\<lparr>m_certificates :=
              bt_insert (serial_key (crt_serial c)) c (m_certificates s)\<rparr>))"

definition get_certificate :: "serial \<Rightarrow> certificate store_op" where
  "get_certificate serial = (\<lambda>s. case bt_get (m_certificates s) (serial_key serial) of
     Some c \<Rightarrow> if crt_status c \<noteq> Reserved then (Inr c, s) else (Inl NotFound, s)
   | None \<Rightarrow> (Inl NotFound, s))"

definition active_by_subject :: "string \<Rightarrow> instant \<Rightarrow> (memory, 'e, certificate list) res" where
  "active_by_subject subject_dn now = gets (\<lambda>s. sort_key crt_serial
     (filter (\<lambda>c. crt_status c = Issued \<and> crt_subject_dn c = subject_dn \<and> now < crt_not_after c)
        (bt_values (m_certificates s))))"

definition store_revoke :: "serial \<Rightarrow> instant \<Rightarrow> int \<Rightarrow> unit store_op" where
  "store_revoke serial date reason = (\<lambda>s. case bt_get (m_certificates s) (serial_key serial) of
     None \<Rightarrow> (Inl NotFound, s)
   | Some c \<Rightarrow>
       if crt_status c = Reserved then (Inl NotFound, s)
       else if crt_status c = Revoked then (Inr (), s)
       else (Inr (), s\<lparr>m_certificates := bt_insert (serial_key serial)
              (c\<lparr>crt_status := Revoked, crt_revoked_at := Some date,
                 crt_revocation_reason := reason\<rparr>) (m_certificates s)\<rparr>))"

definition revoked :: "(memory, 'e, certificate list) res" where
  "revoked = gets (\<lambda>s. sort_key crt_serial
     (filter (\<lambda>c. crt_status c = Revoked) (bt_values (m_certificates s))))"

definition issued_serials :: "(memory, 'e, serial list) res" where
  "issued_serials = gets (\<lambda>s. sort
     (map crt_serial (filter (\<lambda>c. crt_status c \<noteq> Reserved) (bt_values (m_certificates s)))))"

subsection \<open>Enrolment requests\<close>

definition create_request :: "request \<Rightarrow> unit store_op" where
  "create_request r = (\<lambda>s.
     if bt_get (m_by_fingerprint s) (rq_csr_fingerprint r) \<noteq> None
        \<or> bt_get (m_requests s) (rq_transaction_id r) \<noteq> None then (Inl Conflict, s)
     else (Inr (), s\<lparr>m_by_fingerprint :=
              bt_insert (rq_csr_fingerprint r) (rq_transaction_id r) (m_by_fingerprint s),
            m_requests := bt_insert (rq_transaction_id r) r (m_requests s)\<rparr>))"

definition request_by_fingerprint :: "string \<Rightarrow> request store_op" where
  "request_by_fingerprint fp = (\<lambda>s. case bt_get (m_by_fingerprint s) fp of
     None \<Rightarrow> (Inl NotFound, s)
   | Some tx \<Rightarrow> (case bt_get (m_requests s) tx of
                   None \<Rightarrow> (Inl NotFound, s) | Some r \<Rightarrow> (Inr r, s)))"

definition request_by_transaction_id :: "string \<Rightarrow> request store_op" where
  "request_by_transaction_id tx = (\<lambda>s. case bt_get (m_requests s) tx of
     None \<Rightarrow> (Inl NotFound, s) | Some r \<Rightarrow> (Inr r, s))"

text \<open>Oldest first, the transaction identifier settling equal dates: a stable sort on
  the second key, then on the first.\<close>

definition requests :: "request_state option \<Rightarrow> (memory, 'e, request list) res" where
  "requests state = gets (\<lambda>s. sort_key rq_created_at (sort_key rq_transaction_id
     (filter (\<lambda>r. case state of None \<Rightarrow> True | Some st \<Rightarrow> rq_state r = st)
        (bt_values (m_requests s)))))"

definition update_request :: "request \<Rightarrow> request_state \<Rightarrow> unit store_op" where
  "update_request r from = (\<lambda>s. case bt_get (m_requests s) (rq_transaction_id r) of
     None \<Rightarrow> (Inl NotFound, s)
   | Some existing \<Rightarrow>
       if rq_state existing \<noteq> from then (Inl Conflict, s)
       else (Inr (), s\<lparr>m_requests := bt_insert (rq_transaction_id r) r (m_requests s)\<rparr>))"

subsection \<open>Revocation lists\<close>

definition next_crl_number :: "(memory, 'e, int) res" where
  "next_crl_number = (\<lambda>s. (Inr (m_next_crl s + 1), s\<lparr>m_next_crl := m_next_crl s + 1\<rparr>))"

definition save_crl :: "crl \<Rightarrow> (memory, 'e, unit) res" where
  "save_crl c = modify (\<lambda>s. s\<lparr>m_crls := m_crls s @ [c]\<rparr>)"

text \<open>\<open>max_by_key\<close>: the last of the elements whose key is greatest.\<close>

fun max_by_key :: "('a \<Rightarrow> int) \<Rightarrow> 'a list \<Rightarrow> 'a option" where
  "max_by_key f [] = None"
| "max_by_key f (x # xs) =
     (case max_by_key f xs of None \<Rightarrow> Some x | Some y \<Rightarrow> if f x \<le> f y then Some y else Some x)"

definition latest_crl :: "crl store_op" where
  "latest_crl = (\<lambda>s. case max_by_key rl_number (m_crls s) of
     None \<Rightarrow> (Inl NotFound, s) | Some c \<Rightarrow> (Inr c, s))"

definition next_arl_number :: "(memory, 'e, int) res" where
  "next_arl_number = (\<lambda>s. (Inr (m_next_arl s + 1), s\<lparr>m_next_arl := m_next_arl s + 1\<rparr>))"

definition save_arl :: "arl \<Rightarrow> (memory, 'e, unit) res" where
  "save_arl a = modify (\<lambda>s. s\<lparr>m_arls := m_arls s @ [a]\<rparr>)"

definition latest_arl :: "arl store_op" where
  "latest_arl = (\<lambda>s. case max_by_key rl_number (m_arls s) of
     None \<Rightarrow> (Inl NotFound, s) | Some a \<Rightarrow> (Inr a, s))"

lemmas store_defs = save_authority_def get_authority_def store_revoke_authority_def
  revoked_authorities_def reserve_serial_def save_certificate_def get_certificate_def
  active_by_subject_def store_revoke_def revoked_def issued_serials_def create_request_def
  request_by_fingerprint_def request_by_transaction_id_def requests_def update_request_def
  next_crl_number_def save_crl_def latest_crl_def next_arl_number_def save_arl_def latest_arl_def

subsection \<open>What the operations establish\<close>

lemma runs_reserve_serial [run]:
  "runs (reserve_serial sn p) Q E s \<longleftrightarrow>
     (if bt_get (m_certificates s) (serial_key sn) \<noteq> None then E SerialTaken s
      else Q () (s\<lparr>m_certificates := bt_insert (serial_key sn)
            \<lparr>crt_serial = sn, crt_profile = p, crt_subject_dn = [],
             crt_issuer_dn = [], crt_not_before = unix_epoch, crt_not_after = unix_epoch,
             crt_der = [], crt_status = Reserved, crt_revoked_at = None,
             crt_revocation_reason = 0, crt_request_transaction_id = []\<rparr>
            (m_certificates s)\<rparr>))"
  by (simp add: runs_def reserve_serial_def)

lemma runs_save_certificate [run]:
  "runs (save_certificate c) Q E s \<longleftrightarrow>
     (case bt_get (m_certificates s) (serial_key (crt_serial c)) of
        None \<Rightarrow> E NotFound s
      | Some old \<Rightarrow> if crt_status old \<noteq> Reserved then E Conflict s
          else Q () (s\<lparr>m_certificates := bt_insert (serial_key (crt_serial c)) c (m_certificates s)\<rparr>))"
  by (simp add: runs_def save_certificate_def split: option.split)

lemma runs_get_certificate [run]:
  "runs (get_certificate sn) Q E s \<longleftrightarrow>
     (case bt_get (m_certificates s) (serial_key sn) of
        None \<Rightarrow> E NotFound s
      | Some c \<Rightarrow> if crt_status c = Reserved then E NotFound s else Q c s)"
  by (simp add: runs_def get_certificate_def split: option.split)

lemma runs_store_revoke [run]:
  "runs (store_revoke sn d r) Q E s \<longleftrightarrow>
     (case bt_get (m_certificates s) (serial_key sn) of
        None \<Rightarrow> E NotFound s
      | Some c \<Rightarrow> if crt_status c = Reserved then E NotFound s
          else if crt_status c = Revoked then Q () s
          else Q () (s\<lparr>m_certificates := bt_insert (serial_key sn)
              (c\<lparr>crt_status := Revoked, crt_revoked_at := Some d, crt_revocation_reason := r\<rparr>)
              (m_certificates s)\<rparr>))"
  by (simp add: runs_def store_revoke_def split: option.split)

lemma runs_revoked [run]:
  "runs revoked Q E s \<longleftrightarrow>
     Q (sort_key crt_serial (filter (\<lambda>c. crt_status c = Revoked) (bt_values (m_certificates s)))) s"
  by (simp add: revoked_def run)

lemma runs_issued_serials [run]:
  "runs issued_serials Q E s \<longleftrightarrow>
     Q (sort (map crt_serial (filter (\<lambda>c. crt_status c \<noteq> Reserved) (bt_values (m_certificates s))))) s"
  by (simp add: issued_serials_def run)

lemma runs_active_by_subject [run]:
  "runs (active_by_subject dn now) Q E s \<longleftrightarrow>
     Q (sort_key crt_serial (filter (\<lambda>c. crt_status c = Issued \<and> crt_subject_dn c = dn
          \<and> now < crt_not_after c) (bt_values (m_certificates s)))) s"
  by (simp add: active_by_subject_def run)

lemma runs_revoked_authorities [run]:
  "runs revoked_authorities Q E s \<longleftrightarrow>
     Q (sort_key au_name (filter (\<lambda>a. au_revoked_at a \<noteq> None) (bt_values (m_authorities s)))) s"
  by (simp add: revoked_authorities_def run)

lemma runs_get_authority [run]:
  "runs (get_authority n) Q E s \<longleftrightarrow>
     (case bt_get (m_authorities s) n of None \<Rightarrow> E NotFound s | Some a \<Rightarrow> Q a s)"
  by (simp add: runs_def get_authority_def split: option.split)

lemma runs_store_revoke_authority [run]:
  "runs (store_revoke_authority n d r) Q E s \<longleftrightarrow>
     (case bt_get (m_authorities s) n of
        None \<Rightarrow> E NotFound s
      | Some a \<Rightarrow> if au_revoked_at a \<noteq> None then Q () s
          else Q () (s\<lparr>m_authorities := bt_insert n
              (a\<lparr>au_revoked_at := Some d, au_revocation_reason := r\<rparr>) (m_authorities s)\<rparr>))"
  by (auto simp: runs_def store_revoke_authority_def split: option.split)

lemma runs_save_authority [run]:
  "runs (save_authority a) Q E s \<longleftrightarrow>
     Q () (s\<lparr>m_authorities := bt_insert (au_name a)
        (case bt_get (m_authorities s) (au_name a) of
           Some old \<Rightarrow> a\<lparr>au_revoked_at := au_revoked_at old,
                         au_revocation_reason := au_revocation_reason old\<rparr>
         | None \<Rightarrow> a) (m_authorities s)\<rparr>)"
  by (simp add: save_authority_def run Let_def split: option.split)

lemma runs_create_request [run]:
  "runs (create_request r) Q E s \<longleftrightarrow>
     (if bt_get (m_by_fingerprint s) (rq_csr_fingerprint r) \<noteq> None
        \<or> bt_get (m_requests s) (rq_transaction_id r) \<noteq> None then E Conflict s
      else Q () (s\<lparr>m_by_fingerprint :=
              bt_insert (rq_csr_fingerprint r) (rq_transaction_id r) (m_by_fingerprint s),
            m_requests := bt_insert (rq_transaction_id r) r (m_requests s)\<rparr>))"
  by (simp add: runs_def create_request_def)

lemma runs_update_request [run]:
  "runs (update_request r from) Q E s \<longleftrightarrow>
     (case bt_get (m_requests s) (rq_transaction_id r) of
        None \<Rightarrow> E NotFound s
      | Some old \<Rightarrow> if rq_state old \<noteq> from then E Conflict s
          else Q () (s\<lparr>m_requests := bt_insert (rq_transaction_id r) r (m_requests s)\<rparr>))"
  by (simp add: runs_def update_request_def split: option.split)

lemma runs_request_by_transaction_id [run]:
  "runs (request_by_transaction_id tx) Q E s \<longleftrightarrow>
     (case bt_get (m_requests s) tx of None \<Rightarrow> E NotFound s | Some r \<Rightarrow> Q r s)"
  by (simp add: runs_def request_by_transaction_id_def split: option.split)

lemma runs_request_by_fingerprint [run]:
  "runs (request_by_fingerprint fp) Q E s \<longleftrightarrow>
     (case bt_get (m_by_fingerprint s) fp of
        None \<Rightarrow> E NotFound s
      | Some tx \<Rightarrow> (case bt_get (m_requests s) tx of None \<Rightarrow> E NotFound s | Some r \<Rightarrow> Q r s))"
  by (simp add: runs_def request_by_fingerprint_def split: option.split)

lemma runs_requests [run]:
  "runs (requests st) Q E s \<longleftrightarrow> Q (sort_key rq_created_at (sort_key rq_transaction_id
     (filter (\<lambda>r. case st of None \<Rightarrow> True | Some x \<Rightarrow> rq_state r = x) (bt_values (m_requests s))))) s"
  by (simp add: requests_def run)

lemma runs_lists [run]:
  "runs next_crl_number Q E s \<longleftrightarrow> Q (m_next_crl s + 1) (s\<lparr>m_next_crl := m_next_crl s + 1\<rparr>)"
  "runs (save_crl c) Q' E s \<longleftrightarrow> Q' () (s\<lparr>m_crls := m_crls s @ [c]\<rparr>)"
  "runs next_arl_number Q E s \<longleftrightarrow> Q (m_next_arl s + 1) (s\<lparr>m_next_arl := m_next_arl s + 1\<rparr>)"
  "runs (save_arl c) Q' E s \<longleftrightarrow> Q' () (s\<lparr>m_arls := m_arls s @ [c]\<rparr>)"
  by (simp_all add: runs_def next_crl_number_def save_crl_def next_arl_number_def save_arl_def modify_def)

text \<open>Reading changes nothing.\<close>

lemma reads_keep [pres]:
  "keeps P (get_authority n)" "keeps P revoked_authorities" "keeps P (get_certificate sn)"
  "keeps P (active_by_subject dn now)" "keeps P revoked" "keeps P issued_serials"
  "keeps P (request_by_fingerprint fp)" "keeps P (request_by_transaction_id tx)"
  "keeps P (requests st)" "keeps P latest_crl" "keeps P latest_arl"
  by (simp_all add: keeps_def store_defs gets_def split: option.split)

section \<open>Interfaces\<close>

text \<open>Revocation, of a certificate or of an authority: the first one holds. \<open>mark\<close> is
  the date and the reason on record for a key of the register.\<close>

locale first_revocation =
  fixes rev_op :: "'k \<Rightarrow> instant \<Rightarrow> int \<Rightarrow> ('s, store_error, unit) res"
    and present :: "'s \<Rightarrow> 'k \<Rightarrow> bool"
    and mark :: "'s \<Rightarrow> 'k \<Rightarrow> (instant option \<times> int) option"
  assumes absent: "\<not> present s k \<Longrightarrow> rev_op k d r s = (Inl NotFound, s)"
    and first: "present s k \<Longrightarrow> mark s k = None \<Longrightarrow>
      fst (rev_op k d r s) = Inr () \<and> mark (snd (rev_op k d r s)) k = Some (Some d, r)"
    and again: "present s k \<Longrightarrow> mark s k = Some m \<Longrightarrow> rev_op k d r s = (Inr (), s)"
    and marked_present: "mark s k = Some m \<Longrightarrow> present s k"
    and frame: "k' \<noteq> k \<Longrightarrow> mark (snd (rev_op k d r s)) k' = mark s k'"
begin

lemma mark_kept: "mark s k = Some m \<Longrightarrow> mark (snd (rev_op k' d r s)) k = Some m"
  by (cases "k' = k") (simp_all add: again marked_present frame)

lemma keeps_mark: "keeps (\<lambda>s. mark s k = Some m) (rev_op k' d r)"
  by (simp add: keeps_def mark_kept)

lemma second_is_idle:
  assumes "rev_op k d r s = (Inr (), t)"
  shows "rev_op k d' r' t = (Inr (), t)"
proof (cases "mark s k")
  case None
  have "present s k" using absent [of s k d r] assms by fastforce
  with first None assms have "mark t k = Some (Some d, r)" by (metis snd_conv)
  then show ?thesis by (simp add: again marked_present)
next
  case (Some m)
  with assms have "t = s" by (simp add: again marked_present)
  with Some show ?thesis by (simp add: again marked_present)
qed

lemma all_keep_first:
  assumes "present s k" and "mark s k = None"
  shows "mark (snd (foreach ((k, d, r) # xs) (\<lambda>(k, d, r). rev_op k d r) s)) k = Some (Some d, r)"
proof -
  obtain t where t: "rev_op k d r s = (Inr (), t)" and m: "mark t k = Some (Some d, r)"
    using first [OF assms, of d r] by (metis prod.collapse)
  have "keeps (\<lambda>s. mark s k = Some (Some d, r)) (foreach xs (\<lambda>(k, d, r). rev_op k d r))"
    by (rule keeps_foreach) (auto simp: keeps_mark)
  with t m show ?thesis by (simp add: bindr_def keeps_def)
qed

end

text \<open>A stream of numbered lists (the CRLs, the ARLs): numbers are drawn from a counter
  that only grows, and the latest list is the one of greatest number.\<close>

locale number_stream =
  fixes draw :: "('s, store_error, int) res"
    and save :: "rev_list \<Rightarrow> ('s, store_error, unit) res"
    and latest :: "('s, store_error, rev_list) res"
    and counter :: "'s \<Rightarrow> int"
    and saved :: "'s \<Rightarrow> rev_list list"
  assumes draw_next: "draw s = (Inr (counter s + 1), snd (draw s))"
    and draw_counter: "counter (snd (draw s)) = counter s + 1"
    and draw_saved: "saved (snd (draw s)) = saved s"
    and save_ok: "fst (save c s) = Inr ()"
    and save_saved: "saved (snd (save c s)) = saved s @ [c]"
    and save_counter: "counter (snd (save c s)) = counter s"
    and latest_max: "latest s = (case max_by_key rl_number (saved s) of
      None \<Rightarrow> (Inl NotFound, s) | Some c \<Rightarrow> (Inr c, s))"
begin

definition drawn_only :: "'s \<Rightarrow> bool" where
  "drawn_only s \<longleftrightarrow> (\<forall>c \<in> set (saved s). rl_number c \<le> counter s)"

lemma max_by_key_last:
  "(\<forall>x \<in> set xs. f x \<le> f c) \<Longrightarrow> max_by_key f (xs @ [c]) = Some (c :: 'x)"
  by (induction xs) auto

lemma publish_is_latest:
  assumes "drawn_only s" and "draw s = (Inr n, t)" and "rl_number c = n"
  shows "fst (latest (snd (save c t))) = Inr c" and "drawn_only (snd (save c t))"
proof -
  have n: "n = counter s + 1" and t: "t = snd (draw s)"
    using assms(2) draw_next [of s] by auto
  have "\<forall>x \<in> set (saved t). rl_number x \<le> rl_number c"
    using assms(1,3) by (auto simp: t n draw_saved drawn_only_def)
  then have "max_by_key rl_number (saved (snd (save c t))) = Some c"
    by (simp add: save_saved max_by_key_last)
  then show "fst (latest (snd (save c t))) = Inr c" by (simp add: latest_max)
  show "drawn_only (snd (save c t))"
    using assms(1,3) by (force simp: drawn_only_def save_saved save_counter t draw_saved draw_counter n)
qed

end

text \<open>The two interfaces on the register.\<close>

definition cert_present :: "memory \<Rightarrow> serial \<Rightarrow> bool" where
  "cert_present s sn = (case bt_get (m_certificates s) (serial_key sn) of
     None \<Rightarrow> False | Some c \<Rightarrow> crt_status c \<noteq> Reserved)"

definition cert_mark :: "memory \<Rightarrow> serial \<Rightarrow> (instant option \<times> int) option" where
  "cert_mark s sn = (case bt_get (m_certificates s) (serial_key sn) of
     None \<Rightarrow> None
   | Some c \<Rightarrow> if crt_status c = Revoked then Some (crt_revoked_at c, crt_revocation_reason c)
               else None)"

definition authority_present :: "memory \<Rightarrow> string \<Rightarrow> bool" where
  "authority_present s n = (bt_get (m_authorities s) n \<noteq> None)"

definition authority_mark :: "memory \<Rightarrow> string \<Rightarrow> (instant option \<times> int) option" where
  "authority_mark s n = (case bt_get (m_authorities s) n of
     None \<Rightarrow> None
   | Some a \<Rightarrow> if au_revoked_at a \<noteq> None then Some (au_revoked_at a, au_revocation_reason a)
               else None)"

lemma serial_key_inj [simp]: "serial_key a = serial_key b \<longleftrightarrow> a = b"
  by (simp add: serial_key_def hex_encode_inj)

interpretation certs: first_revocation store_revoke cert_present cert_mark
  by unfold_locales
    (auto simp: store_revoke_def cert_present_def cert_mark_def
      split: option.splits if_splits certificate_status.splits)

interpretation authorities: first_revocation store_revoke_authority authority_present authority_mark
  by unfold_locales
    (auto simp: store_revoke_authority_def authority_present_def authority_mark_def
      split: option.splits if_splits)

interpretation crl_stream: number_stream next_crl_number save_crl latest_crl m_next_crl m_crls
  by unfold_locales
    (simp_all add: next_crl_number_def save_crl_def latest_crl_def modify_def)

interpretation arl_stream: number_stream next_arl_number save_arl latest_arl m_next_arl m_arls
  by unfold_locales
    (simp_all add: next_arl_number_def save_arl_def latest_arl_def modify_def)

section \<open>Every sequence of operations\<close>

text \<open>One step is one call of a method of the store, whatever it returns.\<close>

inductive store_step :: "memory \<Rightarrow> memory \<Rightarrow> bool" where
  step_save_authority: "store_step s (snd (save_authority a s))"
| step_revoke_authority: "store_step s (snd (store_revoke_authority n d r s))"
| step_reserve_serial: "store_step s (snd (reserve_serial sn p s))"
| step_save_certificate: "store_step s (snd (save_certificate c s))"
| step_revoke: "store_step s (snd (store_revoke sn d r s))"
| step_create_request: "store_step s (snd (create_request r s))"
| step_update_request: "store_step s (snd (update_request r from s))"
| step_next_crl: "store_step s (snd ((next_crl_number :: int store_op) s))"
| step_save_crl: "store_step s (snd ((save_crl c :: unit store_op) s))"
| step_next_arl: "store_step s (snd ((next_arl_number :: int store_op) s))"
| step_save_arl: "store_step s (snd ((save_arl a :: unit store_op) s))"

abbreviation store_steps :: "memory \<Rightarrow> memory \<Rightarrow> bool" where "store_steps \<equiv> store_step\<^sup>*\<^sup>*"

text \<open>What was revoked stays revoked, at its first date and for its first reason.\<close>

lemma step_keeps_cert:
  assumes "store_step s t" and "bt_get (m_certificates s) k = Some c"
    and "crt_status c = Revoked"
  shows "bt_get (m_certificates t) k = Some c"
  using assms by (cases rule: store_step.cases)
    (auto simp: store_defs modify_def Let_def split: option.splits if_splits)

lemma steps_keep_cert:
  assumes "store_steps s t" and "bt_get (m_certificates s) k = Some c"
    and "crt_status c = Revoked"
  shows "bt_get (m_certificates t) k = Some c"
  using assms by (induction rule: rtranclp_induct) (auto dest: step_keeps_cert)

lemma step_keeps_authority_mark:
  assumes "store_step s t" and "authority_mark s n = Some m"
  shows "authority_mark t n = Some m"
  using assms by (cases rule: store_step.cases)
    (auto simp: store_defs modify_def Let_def authority_mark_def split: option.splits if_splits)

lemma steps_keep_authority_mark:
  assumes "store_steps s t" and "authority_mark s n = Some m"
  shows "authority_mark t n = Some m"
  using assms by (induction rule: rtranclp_induct) (auto dest: step_keeps_authority_mark)

text \<open>A serial number once issued is listed for ever.\<close>

definition issued_key :: "memory \<Rightarrow> string \<Rightarrow> bool" where
  "issued_key s k = (case bt_get (m_certificates s) k of
     None \<Rightarrow> False | Some c \<Rightarrow> crt_status c \<noteq> Reserved)"

lemma step_keeps_issued:
  assumes "store_step s t" and "issued_key s k"
  shows "issued_key t k"
  using assms by (cases rule: store_step.cases)
    (auto simp: store_defs modify_def Let_def issued_key_def
      split: option.splits if_splits certificate_status.splits)

subsection \<open>Well-formed registers\<close>

text \<open>The ordered maps are ordered; a certificate is filed under its own serial number, a
  request under its own identifier; every fingerprint points to a request.\<close>

definition mem_ok :: "memory \<Rightarrow> bool" where
  "mem_ok s \<longleftrightarrow>
     bt_ok (m_authorities s) \<and> bt_keyed au_name (m_authorities s)
     \<and> bt_ok (m_certificates s) \<and> bt_keyed (\<lambda>c. serial_key (crt_serial c)) (m_certificates s)
     \<and> bt_ok (m_requests s) \<and> bt_keyed rq_transaction_id (m_requests s)
     \<and> (\<forall>f k. bt_get (m_by_fingerprint s) f = Some k \<longrightarrow> bt_get (m_requests s) k \<noteq> None)"

lemma mem_ok_new [simp]: "mem_ok memory_new"
  by (simp add: mem_ok_def memory_new_def)

lemma keeps_ok_save_authority [pres]: "keeps mem_ok (save_authority a)"
  by (simp add: keeps_def save_authority_def modify_def Let_def mem_ok_def split: option.split)

lemma keeps_ok_revoke_authority [pres]: "keeps mem_ok (store_revoke_authority n d r)"
proof (rule keepsI)
  fix s assume s: "mem_ok s"
  then have "au_name a = n" if "bt_get (m_authorities s) n = Some a" for a
    using bt_keyedD [of au_name "m_authorities s"] that by (auto simp: mem_ok_def)
  with s show "mem_ok (snd (store_revoke_authority n d r s))"
    by (simp add: store_revoke_authority_def mem_ok_def split: option.split)
qed

lemma keeps_ok_reserve [pres]: "keeps mem_ok (reserve_serial sn p)"
  by (simp add: keeps_def reserve_serial_def mem_ok_def)

lemma keeps_ok_save [pres]: "keeps mem_ok (save_certificate c)"
  by (simp add: keeps_def save_certificate_def mem_ok_def split: option.split)

lemma keeps_ok_revoke [pres]: "keeps mem_ok (store_revoke sn d r)"
proof (rule keepsI)
  fix s assume s: "mem_ok s"
  then have "serial_key (crt_serial c) = serial_key sn"
    if "bt_get (m_certificates s) (serial_key sn) = Some c" for c
    using bt_keyedD [of "\<lambda>c. serial_key (crt_serial c)" "m_certificates s"] that
    by (auto simp: mem_ok_def)
  with s show "mem_ok (snd (store_revoke sn d r s))"
    by (auto simp: store_revoke_def mem_ok_def split: option.split)
qed

lemma keeps_ok_create [pres]: "keeps mem_ok (create_request r)"
  by (auto simp: keeps_def create_request_def mem_ok_def)

lemma keeps_ok_update [pres]: "keeps mem_ok (update_request r from)"
  by (auto simp: keeps_def update_request_def mem_ok_def split: option.split)

lemma keeps_ok_lists [pres]:
  "keeps mem_ok (next_crl_number :: int store_op)" "keeps mem_ok (save_crl c :: unit store_op)"
  "keeps mem_ok (next_arl_number :: int store_op)" "keeps mem_ok (save_arl c :: unit store_op)"
  by (simp_all add: keeps_def next_crl_number_def save_crl_def next_arl_number_def save_arl_def
      modify_def mem_ok_def)

lemma step_keeps_ok:
  assumes "store_step s t" and "mem_ok s"
  shows "mem_ok t"
  using assms keeps_ok_save_authority keeps_ok_revoke_authority keeps_ok_reserve keeps_ok_save keeps_ok_revoke keeps_ok_create
    keeps_ok_update keeps_ok_lists
  by (cases rule: store_step.cases) (simp_all add: keeps_def)

lemma steps_keep_ok: "store_steps s t \<Longrightarrow> mem_ok s \<Longrightarrow> mem_ok t"
  by (induction rule: rtranclp_induct) (auto dest: step_keeps_ok)

lemma mem_ok_certs:
  "mem_ok s \<Longrightarrow> c \<in> snd ` set (m_certificates s) \<longleftrightarrow>
     bt_get (m_certificates s) (serial_key (crt_serial c)) = Some c"
  unfolding mem_ok_def by (rule bt_keyed_values) auto

lemma mem_ok_serials_distinct:
  assumes "mem_ok s"
  shows "distinct (map crt_serial (bt_values (m_certificates s)))"
proof -
  have "distinct (map (\<lambda>c. serial_key (crt_serial c)) (bt_values (m_certificates s)))"
    using assms by (simp only: mem_ok_def bt_keyed_distinct)
  then show ?thesis by (simp only: distinct_map inj_on_def serial_key_inj) auto
qed

section \<open>Properties\<close>

text \<open>A register with one certificate, revoked, and one authority, revoked: the inputs of
  the witnesses.\<close>

definition sample_certificate :: certificate where
  "sample_certificate = \<lparr>crt_serial = [0x81], crt_profile = ''tsa_signer'', crt_subject_dn = ''CN=tsu'',
     crt_issuer_dn = ''CN=ca'', crt_not_before = 0, crt_not_after = 10, crt_der = [1],
     crt_status = Issued, crt_revoked_at = None, crt_revocation_reason = 0,
     crt_request_transaction_id = ''tx''\<rparr>"

definition sample_authority :: authority where
  "sample_authority = \<lparr>au_name = ''issuing'', au_subject_dn = ''CN=ca'', au_der = [9],
     au_token_label = ''t'', au_key_label = ''k'', au_created_at = 0, au_revoked_at = None,
     au_revocation_reason = 0\<rparr>"

definition sample_memory :: memory where
  "sample_memory = memory_new\<lparr>m_certificates := [(''81'', sample_certificate\<lparr>crt_status := Revoked,
       crt_revoked_at := Some 5, crt_revocation_reason := 4\<rparr>)],
     m_authorities := [(''issuing'', sample_authority\<lparr>au_revoked_at := Some 3,
       au_revocation_reason := 1\<rparr>)]\<rparr>"

text \<open>Revocation is final: whatever operations of the register follow, a revoked
  certificate keeps its record, its date of revocation and its reason.\<close>

theorem revocation_is_final:
  assumes "store_steps s t" and "bt_get (m_certificates s) k = Some c" and "crt_status c = Revoked"
  shows "bt_get (m_certificates t) k = Some c"
  using assms by (rule steps_keep_cert)

lemma revocation_is_final_witness:
  "bt_get (m_certificates (snd (store_revoke [0x81] 99 1 sample_memory))) ''81'' =
     Some (sample_certificate\<lparr>crt_status := Revoked, crt_revoked_at := Some 5,
       crt_revocation_reason := 4\<rparr>)"
  by (rule revocation_is_final [OF r_into_rtranclp, OF step_revoke])
    (simp_all add: sample_memory_def)

text \<open>The revocation of an authority is final too, even when the authority is saved again
  (\<open>save_authority\<close> with a record that is not revoked).\<close>

theorem authority_revocation_is_final:
  assumes "store_steps s t" and "authority_mark s name = Some m"
  shows "authority_mark t name = Some m"
  using assms by (rule steps_keep_authority_mark)

lemma authority_revocation_is_final_witness:
  "authority_mark (snd (save_authority sample_authority sample_memory)) ''issuing'' = Some (Some 3, 1)"
  by (rule authority_revocation_is_final [OF r_into_rtranclp, OF step_save_authority])
    (simp add: sample_memory_def authority_mark_def)

text \<open>From an empty register on, in every sequence of operations: certificates are filed
  under their serial number, no serial number appears twice, and a fingerprint leads to a
  request that exists.\<close>

theorem register_well_formed:
  assumes "store_steps memory_new s"
  shows "mem_ok s \<and> distinct (map crt_serial (bt_values (m_certificates s)))
    \<and> (\<forall>fp. bt_get (m_by_fingerprint s) fp \<noteq> None \<longrightarrow> (\<exists>r. fst (request_by_fingerprint fp s) = Inr r))"
proof -
  have ok: "mem_ok s" using steps_keep_ok [OF assms] by simp
  then show ?thesis
    using mem_ok_serials_distinct [OF ok]
    by (fastforce simp: mem_ok_def request_by_fingerprint_def split: option.splits)
qed

lemma register_well_formed_witness:
  "mem_ok (snd (reserve_serial [0x81] ''tsa_signer'' memory_new))"
  using register_well_formed [OF r_into_rtranclp, OF step_reserve_serial] by blast

lemma issued_listed:
  assumes "mem_ok s"
  shows "sn \<in> set (map crt_serial (filter (\<lambda>c. crt_status c \<noteq> Reserved) (bt_values (m_certificates s))))
    \<longleftrightarrow> issued_key s (serial_key sn)"
proof
  assume "sn \<in> set (map crt_serial (filter (\<lambda>c. crt_status c \<noteq> Reserved) (bt_values (m_certificates s))))"
  then obtain c where "c \<in> snd ` set (m_certificates s)" "crt_serial c = sn" "crt_status c \<noteq> Reserved"
    by auto
  with mem_ok_certs [OF assms] show "issued_key s (serial_key sn)" by (auto simp: issued_key_def)
next
  assume "issued_key s (serial_key sn)"
  then obtain c where c: "bt_get (m_certificates s) (serial_key sn) = Some c" "crt_status c \<noteq> Reserved"
    by (auto simp: issued_key_def split: option.splits)
  moreover have "crt_serial c = sn"
    using assms bt_keyedD [of "\<lambda>c. serial_key (crt_serial c)" "m_certificates s", OF _ c(1)]
    by (simp add: mem_ok_def)
  ultimately show "sn \<in> set (map crt_serial (filter (\<lambda>c. crt_status c \<noteq> Reserved) (bt_values (m_certificates s))))"
    using bt_get_SomeD [OF c(1)] by force
qed

lemma steps_keep_issued:
  "store_steps s t \<Longrightarrow> issued_key s k \<Longrightarrow> issued_key t k"
  by (induction rule: rtranclp_induct) (auto dest: step_keeps_issued)

text \<open>A number once listed as issued is listed for ever, in increasing order and without
  repetition: the list of issued numbers only grows.\<close>

theorem issued_serials_only_grow:
  assumes "mem_ok s" and "store_steps s t" and "(issued_serials :: serial list store_op) s = (Inr xs, s')"
    and "(issued_serials :: serial list store_op) t = (Inr ys, t')"
  shows "set xs \<subseteq> set ys \<and> sorted ys \<and> distinct ys"
proof -
  have ok: "mem_ok t" by (rule steps_keep_ok [OF assms(2,1)])
  have xs: "xs = sort (map crt_serial (filter (\<lambda>c. crt_status c \<noteq> Reserved) (bt_values (m_certificates s))))"
    and ys: "ys = sort (map crt_serial (filter (\<lambda>c. crt_status c \<noteq> Reserved) (bt_values (m_certificates t))))"
    using assms(3,4) by (auto simp: issued_serials_def gets_def)
  have "set xs \<subseteq> set ys"
  proof
    fix sn assume "sn \<in> set xs"
    then have "issued_key s (serial_key sn)" using issued_listed [OF assms(1)] by (simp add: xs)
    then have "issued_key t (serial_key sn)" by (rule steps_keep_issued [OF assms(2)])
    then show "sn \<in> set ys" using issued_listed [OF ok] by (simp add: ys)
  qed
  moreover have "distinct ys"
    using mem_ok_serials_distinct [OF ok] by (simp add: ys distinct_map_filter)
  ultimately show ?thesis by (simp add: ys)
qed

lemma issued_serials_only_grow_witness:
  "set [[0x81]] \<subseteq> set [[0x81 :: byte]] \<and> sorted [[0x81 :: byte]] \<and> distinct [[0x81 :: byte]]"
  by (rule issued_serials_only_grow [where s = sample_memory and s' = sample_memory
        and t = "snd (store_revoke [0x81] 99 1 sample_memory)"
        and t' = "snd (store_revoke [0x81] 99 1 sample_memory)", OF _ r_into_rtranclp, OF _ step_revoke])
    (simp_all add: sample_memory_def mem_ok_def memory_new_def sample_authority_def sample_certificate_def
      bt_ok_def bt_keyed_def issued_serials_def gets_def store_revoke_def serial_key_def hex_byte_def
      hex_digit_def)

end
