(* ===== verification/X509.thy ===== *)
theory X509
  imports Prelude
begin

text \<open>
  What the program hands to its third-party crates, and what it gets back. Encoders,
  decoders, hashes and the certificate builder (\<open>der\<close>, \<open>x509-cert\<close>, \<open>sha1\<close>, \<open>sha2\<close>,
  \<open>time\<close>, \<open>regex\<close>) are not in the repository: they are the fields of the record
  \<open>deps\<close>, a parameter of every definition that uses them. Certificates and lists are
  records of the fields the program reads and writes. The signature algorithms of
  \<open>crates/oe-hsm/src/lib.rs\<close> and the extension constructors of
  \<open>crates/oe-ca-core/src/extensions.rs\<close> are modelled here.
\<close>

section \<open>Data of the third-party crates\<close>

type_synonym oid = string

text \<open>A name: attributes (object identifier, value) in order.\<close>

type_synonym dn = "(oid \<times> string) list"

record alg_id =
  alg_oid :: oid
  alg_params :: "bytes option"

record extension =
  ext_id :: oid
  ext_critical :: bool
  ext_value :: bytes

datatype key_usage = DigitalSignature | NonRepudiation | KeyEncipherment | DataEncipherment
  | KeyAgreement | KeyCertSign | CRLSign | EncipherOnly | DecipherOnly

datatype general_name = DnsName string | OtherGeneralName bytes

text \<open>Dates in certificates are whole seconds since the epoch.\<close>

record x509 =
  x_serial :: bytes
  x_issuer :: dn
  x_subject :: dn
  x_not_before :: int
  x_not_after :: int
  x_spki :: bytes
  x_exts :: "extension list option"
  x_sig_alg :: alg_id
  x_signature :: bytes

record revoked_entry =
  re_serial :: bytes
  re_date :: int
  re_exts :: "extension list option"

record tbs_crl =
  tc_signature :: alg_id
  tc_issuer :: dn
  tc_this_update :: int
  tc_next_update :: "int option"
  tc_revoked :: "revoked_entry list option"
  tc_exts :: "extension list option"

record signed_crl =
  sc_tbs :: tbs_crl
  sc_alg :: alg_id
  sc_signature :: bytes

text \<open>What the program gives to \<open>CertificateBuilder::new\<close>.\<close>

record to_build =
  tb_subject :: dn
  tb_issuer :: dn
  tb_exts :: "extension list"
  tb_serial :: bytes
  tb_not_before :: int
  tb_not_after :: int
  tb_spki :: bytes

text \<open>A DER type: its encoder and its decoder, each of which may refuse.\<close>

record 'a codec =
  to_der :: "'a \<Rightarrow> string + bytes"
  from_der :: "bytes \<Rightarrow> string + 'a"

record deps =
  d_cert :: "x509 codec"
  d_alg :: "alg_id codec"
  d_any :: "bytes \<Rightarrow> string + bytes"
  d_tbs_crl :: "tbs_crl \<Rightarrow> string + bytes"
  d_crl :: "signed_crl codec"
  d_basic_constraints :: "(bool \<times> nat option) codec"
  d_key_usage :: "key_usage set codec"
  d_octets :: "bytes codec"
  d_uint :: "bytes \<Rightarrow> string + bytes"
  d_gen_time :: "int codec"
  d_key_period :: "(int option \<times> int option) codec"
  d_aki :: "bytes \<Rightarrow> string + bytes"
  d_eku :: "oid list codec"
  d_serials :: "bytes list codec"
  d_dist_point :: "string \<Rightarrow> string + bytes"
  d_access :: "(oid \<times> string) list \<Rightarrow> string + bytes"
  d_policies :: "oid list codec"
  d_alt_names :: "general_name list codec"
  d_reason :: "nat \<Rightarrow> string + bytes"
  d_name :: "string \<Rightarrow> string + dn"
  d_name_text :: "dn \<Rightarrow> string"
  d_serial :: "bytes \<Rightarrow> string + bytes"
  d_time :: "instant \<Rightarrow> string + int"
  d_secs_time :: "int \<Rightarrow> string + int"
  d_spki_bits :: "bytes \<Rightarrow> string + bytes"
  d_finalize :: "to_build \<Rightarrow> alg_id \<Rightarrow> string + bytes"
  d_assemble :: "to_build \<Rightarrow> alg_id \<Rightarrow> bytes \<Rightarrow> string + x509"
  d_sha1 :: "bytes \<Rightarrow> bytes"
  d_sha256 :: "bytes \<Rightarrow> bytes"
  d_rfc3339 :: "instant \<Rightarrow> string"
  d_file_name :: "string \<Rightarrow> string"

section \<open>Documented behaviour of those crates\<close>

text \<open>What the theorems rely on, each by name: a decoder reads back what its encoder
  wrote; the builder signs the fields it was given; an encoder is injective.\<close>

definition codec_ok :: "'a codec \<Rightarrow> bool" where
  "codec_ok c \<longleftrightarrow> (\<forall>x b. to_der c x = Inr b \<longrightarrow> from_der c b = Inr x)"

lemma codec_okD: "codec_ok c \<Longrightarrow> to_der c x = Inr b \<Longrightarrow> from_der c b = Inr x"
  by (simp add: codec_ok_def)

lemma codec_inj: "codec_ok c \<Longrightarrow> to_der c x = Inr b \<Longrightarrow> to_der c y = Inr b \<Longrightarrow> x = y"
  by (metis codec_ok_def Inr_inject)

definition codecs_ok :: "deps \<Rightarrow> bool" where
  "codecs_ok D \<longleftrightarrow> codec_ok (d_alg D) \<and> codec_ok (d_basic_constraints D)
     \<and> codec_ok (d_key_usage D) \<and> codec_ok (d_key_period D) \<and> codec_ok (d_eku D)
     \<and> codec_ok (d_policies D) \<and> codec_ok (d_alt_names D)"

definition builder_ok :: "deps \<Rightarrow> bool" where
  "builder_ok D \<longleftrightarrow> (\<forall>b alg sig c. d_assemble D b alg sig = Inr c \<longrightarrow>
     x_serial c = tb_serial b \<and> x_issuer c = tb_issuer b \<and> x_subject c = tb_subject b
     \<and> x_not_before c = tb_not_before b \<and> x_not_after c = tb_not_after b
     \<and> x_spki c = tb_spki b \<and> x_exts c = Some (tb_exts b)
     \<and> x_sig_alg c = alg \<and> x_signature c = sig)"

lemma builder_okD:
  assumes "builder_ok D" and "d_assemble D b alg sig = Inr c"
  shows "x_serial c = tb_serial b" "x_issuer c = tb_issuer b" "x_subject c = tb_subject b"
    "x_not_before c = tb_not_before b" "x_not_after c = tb_not_after b"
    "x_spki c = tb_spki b" "x_exts c = Some (tb_exts b)" "x_sig_alg c = alg" "x_signature c = sig"
  using assms by (auto simp: builder_ok_def)

section \<open>Signature algorithms (\<open>oe-hsm\<close>)\<close>

datatype scheme = Pkcs1v15 | Pss
datatype digest_alg = Sha256 | Sha384 | Sha512

text \<open>The errors of the crate \<open>cryptoki\<close>: a return value of the module, or another.\<close>

datatype rv_error = UserNotLoggedIn | SessionClosed | SessionHandleInvalid | DeviceRemoved
  | DeviceError | TokenNotPresent | UserAlreadyLoggedIn | OtherRv nat

datatype ck_error = Rv rv_error | CkOther string

datatype hsm_error =
    UnsupportedScheme scheme
  | HsmOpen string string ck_error
  | TokenNotFound string
  | FindKeyFailed string ck_error
  | KeyNotFound
  | KeyAmbiguous nat string
  | KeyAttribute string string
  | GenerateKeyFailed nat ck_error
  | DigestLength digest_alg nat nat
  | Pkcs11Failed ck_error
  | SignatureVerification
  | SoftwareSign string
  | Hsm_Encoding string
  | PublicKeyEncoding string

text \<open>A token: its key never leaves it, it is a parameter.\<close>

record token =
  tk_sign :: "scheme \<Rightarrow> digest_alg \<Rightarrow> bytes \<Rightarrow> hsm_error + bytes"
  tk_public_key :: "hsm_error + bytes"

fun expected_len :: "digest_alg \<Rightarrow> nat" where
  "expected_len Sha256 = 32"
| "expected_len Sha384 = 48"
| "expected_len Sha512 = 64"

fun digest_oid :: "digest_alg \<Rightarrow> oid" where
  "digest_oid Sha256 = ''2.16.840.1.101.3.4.2.1''"
| "digest_oid Sha384 = ''2.16.840.1.101.3.4.2.2''"
| "digest_oid Sha512 = ''2.16.840.1.101.3.4.2.3''"

fun pkcs1_oid :: "digest_alg \<Rightarrow> oid" where
  "pkcs1_oid Sha256 = ''1.2.840.113549.1.1.11''"
| "pkcs1_oid Sha384 = ''1.2.840.113549.1.1.12''"
| "pkcs1_oid Sha512 = ''1.2.840.113549.1.1.13''"

definition OID_RSASSA_PSS :: oid where "OID_RSASSA_PSS = ''1.2.840.113549.1.1.10''"
definition OID_MGF1 :: oid where "OID_MGF1 = ''1.2.840.113549.1.1.8''"

text \<open>\<open>Any::from(Null)\<close>: the DER of \<open>NULL\<close>.\<close>

definition der_null :: bytes where "der_null = [0x05, 0x00]"

definition der_len :: "nat \<Rightarrow> bytes" where
  "der_len n = (if n < 0x80 then [of_nat n]
                else if n < 0x100 then [0x81, of_nat n]
                else [0x82, of_nat (n div 256), of_nat n])"

definition explicit_tag :: "byte \<Rightarrow> bytes \<Rightarrow> bytes" where
  "explicit_tag tag inner = (0xa0 OR tag) # der_len (length inner) @ inner"

text \<open>The bytes of an unsigned integer on eight bytes, most significant first, and the
  same without its leading zeros (one digit at least).\<close>

definition be8 :: "64 word \<Rightarrow> bytes" where
  "be8 n = map (\<lambda>i. ucast (drop_bit (8 * (7 - i)) n)) [0..<8]"

lemma be8_bytes: "be8 w = be_bytes 8 (unat w)"
proof -
  have "ucast (drop_bit (8 * k) w) = (word_of_nat (unat w div 256 ^ k) :: byte)" for k
  proof -
    have "ucast (drop_bit (8 * k) w) = (word_of_nat (unat (drop_bit (8 * k) w)) :: byte)"
      by (simp only: of_nat_unat)
    also have "unat (drop_bit (8 * k) w) = unat w div 256 ^ k"
      by (simp only: unat_drop_bit_eq) (simp add: drop_bit_eq_div power_mult)
    finally show ?thesis .
  qed
  then show ?thesis
    by (simp only: be8_def be_bytes_def) (simp add: upt_rec)
qed

definition significant :: "bytes \<Rightarrow> bytes" where
  "significant bs = (case dropWhile (\<lambda>b. b = 0) bs of [] \<Rightarrow> [last bs] | ds \<Rightarrow> ds)"

definition salt_integer :: "nat \<Rightarrow> bytes" where
  "salt_integer n =
     (let ds = significant (be8 (of_nat n));
          digits = (if hd ds AND 0x80 \<noteq> 0 then 0 # ds else ds)
      in 0x02 # der_len (length digits) @ digits)"

definition signature_algorithm :: "deps \<Rightarrow> scheme \<Rightarrow> digest_alg \<Rightarrow> hsm_error + alg_id" where
  "signature_algorithm D sch alg =
     (case sch of
        Pkcs1v15 \<Rightarrow> Inr \<lparr>alg_oid = pkcs1_oid alg, alg_params = Some der_null\<rparr>
      | Pss \<Rightarrow>
          let hash = \<lparr>alg_oid = digest_oid alg, alg_params = Some der_null\<rparr> in
          case to_der (d_alg D) hash of
            Inl e \<Rightarrow> Inl (Hsm_Encoding e)
          | Inr hash_der \<Rightarrow>
          (case d_any D hash_der of
            Inl e \<Rightarrow> Inl (Hsm_Encoding e)
          | Inr any \<Rightarrow>
          (case to_der (d_alg D) \<lparr>alg_oid = OID_MGF1, alg_params = Some any\<rparr> of
            Inl e \<Rightarrow> Inl (Hsm_Encoding e)
          | Inr mgf_der \<Rightarrow>
          let body = explicit_tag 0 hash_der @ explicit_tag 1 mgf_der
                     @ explicit_tag 2 (salt_integer (expected_len alg)) in
          (case d_any D (0x30 # der_len (length body) @ body) of
            Inl e \<Rightarrow> Inl (Hsm_Encoding e)
          | Inr params \<Rightarrow> Inr \<lparr>alg_oid = OID_RSASSA_PSS, alg_params = Some params\<rparr>))))"

text \<open>Which scheme and digest an algorithm identifier stands for, if the system knows it.\<close>

definition digests :: "digest_alg list" where "digests = [Sha256, Sha384, Sha512]"

definition pss_der :: "deps \<Rightarrow> digest_alg \<Rightarrow> bytes option" where
  "pss_der D d = (case signature_algorithm D Pss d of
     Inl _ \<Rightarrow> None
   | Inr a \<Rightarrow> (case to_der (d_alg D) a of Inl _ \<Rightarrow> None | Inr b \<Rightarrow> Some b))"

definition scheme_of :: "deps \<Rightarrow> alg_id \<Rightarrow> (scheme \<times> digest_alg) option" where
  "scheme_of D a =
     (if alg_oid a = OID_RSASSA_PSS then
        (case to_der (d_alg D) a of
           Inl _ \<Rightarrow> None
         | Inr given \<Rightarrow>
             map_option (\<lambda>d. (Pss, d)) (find (\<lambda>d. pss_der D d = Some given) digests))
      else if alg_params a \<noteq> None \<and> alg_params a \<noteq> Some der_null then None
      else map_option (\<lambda>d. (Pkcs1v15, d)) (find (\<lambda>d. pkcs1_oid d = alg_oid a) digests))"

section \<open>An algorithm identifier is read back as what it was made for\<close>

text \<open>\<open>Any::from_der\<close> keeps the bytes it read.\<close>

definition any_ok :: "deps \<Rightarrow> bool" where
  "any_ok D \<longleftrightarrow> (\<forall>b a. d_any D b = Inr a \<longrightarrow> a = b)"

lemma salt_integer_simps:
  "salt_integer 32 = [0x02, 0x01, 0x20]"
  "salt_integer 48 = [0x02, 0x01, 0x30]"
  "salt_integer 64 = [0x02, 0x01, 0x40]"
  by (simp_all add: salt_integer_def significant_def be8_def der_len_def upt_rec)

text \<open>The last byte of the parameters is the length of the salt.\<close>

lemma pss_params:
  assumes "signature_algorithm D Pss d = Inr a"
  obtains pre params where "d_any D (pre @ salt_integer (expected_len d)) = Inr params"
    and "alg_params a = Some params"
proof -
  from assms obtain pre params
    where "d_any D ((0x30 # pre) @ salt_integer (expected_len d)) = Inr params"
      and "alg_params a = Some params"
    by (auto simp: signature_algorithm_def explicit_tag_def Let_def split: sum.splits)
      (metis append.assoc append_Cons)
  then show ?thesis by (rule that)
qed

lemma pss_params_last:
  assumes "any_ok D" and "signature_algorithm D Pss d = Inr a"
  shows "map_option last (alg_params a) = Some (of_nat (expected_len d))"
proof -
  obtain pre params where "d_any D (pre @ salt_integer (expected_len d)) = Inr params"
    and p: "alg_params a = Some params"
    using assms(2) by (rule pss_params)
  then have "params = pre @ salt_integer (expected_len d)"
    using assms(1) unfolding any_ok_def by blast
  moreover have "last (salt_integer (expected_len d)) = of_nat (expected_len d)"
    and "salt_integer (expected_len d) \<noteq> []"
    by (cases d; simp add: salt_integer_simps)+
  ultimately show ?thesis by (simp add: p)
qed

lemma pss_oid: "signature_algorithm D Pss d = Inr a \<Longrightarrow> alg_oid a = OID_RSASSA_PSS"
  by (auto simp: signature_algorithm_def Let_def split: sum.splits)

lemma expected_len_word_inj:
  "(of_nat (expected_len d) :: byte) = of_nat (expected_len e) \<Longrightarrow> d = e"
  by (cases d; cases e) simp_all

lemma pss_der_inj:
  assumes "any_ok D" and "codec_ok (d_alg D)"
    and "pss_der D d = Some b" and "pss_der D e = Some b"
  shows "d = e"
proof -
  obtain a a' where a: "signature_algorithm D Pss d = Inr a" "to_der (d_alg D) a = Inr b"
    and a': "signature_algorithm D Pss e = Inr a'" "to_der (d_alg D) a' = Inr b"
    using assms(3,4) by (auto simp: pss_der_def split: sum.splits)
  have "a = a'" using codec_inj [OF assms(2) a(2) a'(2)] .
  with a a' pss_params_last [OF assms(1)] show ?thesis
    by (metis expected_len_word_inj option.inject)
qed

lemma find_digest: "\<lbrakk>P d; \<And>e. P e \<Longrightarrow> e = d\<rbrakk> \<Longrightarrow> find P digests = Some d"
  by (cases d) (auto simp: digests_def)

lemma scheme_of_pss:
  assumes "any_ok D" and "codec_ok (d_alg D)"
    and "signature_algorithm D Pss d = Inr a" and "to_der (d_alg D) a = Inr b"
  shows "scheme_of D a = Some (Pss, d)"
proof -
  have d: "pss_der D d = Some b" using assms(3,4) by (simp add: pss_der_def)
  then have "find (\<lambda>d. pss_der D d = Some b) digests = Some d"
    using pss_der_inj [OF assms(1,2)] by (intro find_digest) auto
  then show ?thesis
    using assms(3,4) by (simp add: scheme_of_def pss_oid)
qed

lemma pkcs1_oid_inj: "pkcs1_oid d = pkcs1_oid e \<longleftrightarrow> d = e"
  by (cases d; cases e) simp_all

lemma scheme_of_pkcs1:
  assumes "signature_algorithm D Pkcs1v15 d = Inr a"
  shows "scheme_of D a = Some (Pkcs1v15, d)"
proof -
  have "pkcs1_oid d \<noteq> OID_RSASSA_PSS" by (cases d) (simp_all add: OID_RSASSA_PSS_def)
  moreover have "find (\<lambda>e. pkcs1_oid e = pkcs1_oid d) digests = Some d"
    by (rule find_digest) (simp_all add: pkcs1_oid_inj)
  ultimately show ?thesis using assms by (auto simp: signature_algorithm_def scheme_of_def)
qed

end
