(* ===== verification/Conformance.thy ===== *)
theory Conformance
  imports X509
begin

text \<open>
  \<open>crates/oe-conformance/src/lib.rs\<close>: the checks a certificate that was just signed has
  to pass (one per profile), the retention of the journal, and the coherence rules of the
  conformity matrix. A message is a constructor with the values the source formats.
\<close>

section \<open>The checks\<close>

datatype conf_error =
    Lifetime string int int
  | AlgorithmRefused string oid
  | PssParamsRefused string
  | EncodingFailed string
  | ExtensionAbsent string oid
  | ExtensionUnreadable string oid string
  | IsAuthority string
  | EkuNotCritical string
  | EkuNotExactly string oid
  | EkuLacks string oid
  | KeyUsageEmpty string
  | KeyUsageExcess string
  | KeyUsageLacksSignature string
  | KeyPeriodOpen string
  | KeyOutlivesCertificate string
  | PolicyAbsent string oid
  | NoDnsName string

definition whole_days :: "duration \<Rightarrow> int" where
  "whole_days d = (if d < 0 then - (- d div days 1) else d div days 1)"

definition MAX_END_ENTITY_LIFETIME :: duration where "MAX_END_ENTITY_LIFETIME = days (39 * 30)"
definition MAX_OCSP_LIFETIME :: duration where "MAX_OCSP_LIFETIME = days (6 * 30)"
definition MAX_INTERNAL_LIFETIME :: duration where "MAX_INTERNAL_LIFETIME = MAX_OCSP_LIFETIME"

definition check_certificate_lifetime ::
    "string \<Rightarrow> instant \<Rightarrow> instant \<Rightarrow> duration \<Rightarrow> conf_error + unit" where
  "check_certificate_lifetime subject not_before not_after cap =
     (let life = not_after - not_before in
      require (\<not> life > cap) (Lifetime subject (whole_days life) (whole_days cap)))"

definition admitted_signature_algorithm_oids :: "oid list" where
  "admitted_signature_algorithm_oids =
     [''1.2.840.113549.1.1.11'', ''1.2.840.113549.1.1.12'', ''1.2.840.113549.1.1.13'']"

definition check_signature_algorithm :: "string \<Rightarrow> oid \<Rightarrow> conf_error + unit" where
  "check_signature_algorithm subject algorithm_oid =
     require (algorithm_oid \<in> set admitted_signature_algorithm_oids)
       (AlgorithmRefused subject algorithm_oid)"

fun hsm_text :: "hsm_error \<Rightarrow> string" where
  "hsm_text (Hsm_Encoding e) = e"
| "hsm_text _ = []"

fun pss_matches :: "deps \<Rightarrow> bytes \<Rightarrow> digest_alg list \<Rightarrow> conf_error + bool" where
  "pss_matches D given [] = Inr False"
| "pss_matches D given (d # ds) =
     sbind (or_else_err (\<lambda>e. EncodingFailed (hsm_text e)) (signature_algorithm D Pss d)) (\<lambda>expected.
     sbind (or_else_err EncodingFailed (to_der (d_alg D) expected)) (\<lambda>b.
     if b = given then Inr True else pss_matches D given ds))"

definition check_signature_algorithm_id :: "deps \<Rightarrow> string \<Rightarrow> alg_id \<Rightarrow> conf_error + unit" where
  "check_signature_algorithm_id D subject a =
     (if alg_oid a \<noteq> OID_RSASSA_PSS then check_signature_algorithm subject (alg_oid a)
      else sbind (or_else_err EncodingFailed (to_der (d_alg D) a)) (\<lambda>given.
           sbind (pss_matches D given [Sha256, Sha384, Sha512]) (\<lambda>found.
           require found (PssParamsRefused subject))))"

text \<open>The dates of a certificate are between 1970 and 9999: the conversion is exact.\<close>

definition secs_to_instant :: "int \<Rightarrow> instant" where "secs_to_instant n = seconds n"

definition find_extension :: "x509 \<Rightarrow> oid \<Rightarrow> extension option" where
  "find_extension cert target = (case x_exts cert of
     None \<Rightarrow> None | Some es \<Rightarrow> find (\<lambda>e. ext_id e = target) es)"

definition OID_BASIC_CONSTRAINTS :: oid where "OID_BASIC_CONSTRAINTS = ''2.5.29.19''"
definition OID_KEY_USAGE :: oid where "OID_KEY_USAGE = ''2.5.29.15''"
definition OID_SUBJECT_KEY_ID :: oid where "OID_SUBJECT_KEY_ID = ''2.5.29.14''"
definition OID_AUTHORITY_KEY_ID :: oid where "OID_AUTHORITY_KEY_ID = ''2.5.29.35''"
definition OID_EXT_KEY_USAGE :: oid where "OID_EXT_KEY_USAGE = ''2.5.29.37''"
definition OID_CRL_DISTRIBUTION_POINTS :: oid where "OID_CRL_DISTRIBUTION_POINTS = ''2.5.29.31''"
definition OID_AUTHORITY_INFO_ACCESS :: oid where "OID_AUTHORITY_INFO_ACCESS = ''1.3.6.1.5.5.7.1.1''"
definition OID_CRL_NUMBER :: oid where "OID_CRL_NUMBER = ''2.5.29.20''"
definition OID_EXPIRED_CERTS_ON_CRL :: oid where "OID_EXPIRED_CERTS_ON_CRL = ''2.5.29.60''"
definition OID_CERTIFICATE_POLICIES :: oid where "OID_CERTIFICATE_POLICIES = ''2.5.29.32''"
definition OID_SUBJECT_ALT_NAME :: oid where "OID_SUBJECT_ALT_NAME = ''2.5.29.17''"
definition OID_PRIVATE_KEY_USAGE_PERIOD :: oid where "OID_PRIVATE_KEY_USAGE_PERIOD = ''2.5.29.16''"
definition OID_OCSP_NO_CHECK :: oid where "OID_OCSP_NO_CHECK = ''1.3.6.1.5.5.7.48.1.5''"
definition OID_EKU_TIME_STAMPING :: oid where "OID_EKU_TIME_STAMPING = ''1.3.6.1.5.5.7.3.8''"
definition OID_EKU_OCSP_SIGNING :: oid where "OID_EKU_OCSP_SIGNING = ''1.3.6.1.5.5.7.3.9''"
definition OID_EKU_SERVER_AUTH :: oid where "OID_EKU_SERVER_AUTH = ''1.3.6.1.5.5.7.3.1''"
definition OID_EKU_CLIENT_AUTH :: oid where "OID_EKU_CLIENT_AUTH = ''1.3.6.1.5.5.7.3.2''"
definition OID_POLICY_INTERNAL_CLIENT :: oid where
  "OID_POLICY_INTERNAL_CLIENT = ''1.3.6.1.4.1.67027.2.9.1''"
definition OID_POLICY_INTERNAL_SERVER :: oid where
  "OID_POLICY_INTERNAL_SERVER = ''1.3.6.1.4.1.67027.2.9.2''"
definition OID_POLICY_ENROLL_CLIENT :: oid where
  "OID_POLICY_ENROLL_CLIENT = ''1.3.6.1.4.1.67027.2.9.3''"
definition OID_CRL_ISSUED_SERIALS :: oid where "OID_CRL_ISSUED_SERIALS = ''1.3.6.1.4.1.67027.3.1''"
definition INTERNAL_CLIENT_CN :: string where "INTERNAL_CLIENT_CN = ''ra-console''"

lemmas oid_defs = OID_BASIC_CONSTRAINTS_def OID_KEY_USAGE_def OID_SUBJECT_KEY_ID_def
  OID_AUTHORITY_KEY_ID_def OID_EXT_KEY_USAGE_def OID_CRL_DISTRIBUTION_POINTS_def
  OID_AUTHORITY_INFO_ACCESS_def OID_CRL_NUMBER_def OID_EXPIRED_CERTS_ON_CRL_def
  OID_CERTIFICATE_POLICIES_def OID_SUBJECT_ALT_NAME_def OID_PRIVATE_KEY_USAGE_PERIOD_def
  OID_OCSP_NO_CHECK_def OID_CRL_ISSUED_SERIALS_def

lemmas eku_defs = OID_EKU_TIME_STAMPING_def OID_EKU_OCSP_SIGNING_def OID_EKU_SERVER_AUTH_def
  OID_EKU_CLIENT_AUTH_def

lemmas policy_defs = OID_POLICY_INTERNAL_CLIENT_def OID_POLICY_INTERNAL_SERVER_def
  OID_POLICY_ENROLL_CLIENT_def

text \<open>An extension that must be there, and its decoded value.\<close>

definition demand_ext :: "string \<Rightarrow> x509 \<Rightarrow> oid \<Rightarrow> conf_error + extension" where
  "demand_ext subject cert target =
     ok_or (ExtensionAbsent subject target) (find_extension cert target)"

definition read_ext :: "string \<Rightarrow> 'a codec \<Rightarrow> extension \<Rightarrow> conf_error + 'a" where
  "read_ext subject c e =
     or_else_err (ExtensionUnreadable subject (ext_id e)) (from_der c (ext_value e))"

definition tsu_private_key_not_after :: "deps \<Rightarrow> string \<Rightarrow> x509 \<Rightarrow> conf_error + instant" where
  "tsu_private_key_not_after D subject cert =
     sbind (demand_ext subject cert OID_PRIVATE_KEY_USAGE_PERIOD) (\<lambda>e.
     sbind (read_ext subject (d_key_period D) e) (\<lambda>period.
     sbind (ok_or (KeyPeriodOpen subject) (snd period)) (\<lambda>key_not_after.
     Inr (secs_to_instant key_not_after))))"

definition check_tsu_certificate :: "deps \<Rightarrow> string \<Rightarrow> x509 \<Rightarrow> conf_error + unit" where
  "check_tsu_certificate D subject cert =
     sbind (check_signature_algorithm_id D subject (x_sig_alg cert)) (\<lambda>_.
     let not_before = secs_to_instant (x_not_before cert);
         not_after = secs_to_instant (x_not_after cert) in
     sbind (check_certificate_lifetime subject not_before not_after MAX_END_ENTITY_LIFETIME) (\<lambda>_.
     sbind (demand_ext subject cert OID_BASIC_CONSTRAINTS) (\<lambda>bc_ext.
     sbind (read_ext subject (d_basic_constraints D) bc_ext) (\<lambda>bc.
     sbind (require (\<not> fst bc) (IsAuthority subject)) (\<lambda>_.
     sbind (demand_ext subject cert OID_EXT_KEY_USAGE) (\<lambda>eku_ext.
     sbind (require (ext_critical eku_ext) (EkuNotCritical subject)) (\<lambda>_.
     sbind (read_ext subject (d_eku D) eku_ext) (\<lambda>eku.
     sbind (require (eku = [OID_EKU_TIME_STAMPING]) (EkuNotExactly subject OID_EKU_TIME_STAMPING)) (\<lambda>_.
     sbind (demand_ext subject cert OID_KEY_USAGE) (\<lambda>ku_ext.
     sbind (read_ext subject (d_key_usage D) ku_ext) (\<lambda>ku.
     sbind (require (ku \<noteq> {}) (KeyUsageEmpty subject)) (\<lambda>_.
     sbind (require (ku \<subseteq> {DigitalSignature, NonRepudiation}) (KeyUsageExcess subject)) (\<lambda>_.
     sbind (tsu_private_key_not_after D subject cert) (\<lambda>key_not_after.
     require (\<not> key_not_after > not_after) (KeyOutlivesCertificate subject)))))))))))))))"

definition check_ocsp_responder_certificate :: "deps \<Rightarrow> string \<Rightarrow> x509 \<Rightarrow> conf_error + unit" where
  "check_ocsp_responder_certificate D subject cert =
     sbind (check_signature_algorithm_id D subject (x_sig_alg cert)) (\<lambda>_.
     sbind (check_certificate_lifetime subject (secs_to_instant (x_not_before cert))
              (secs_to_instant (x_not_after cert)) MAX_OCSP_LIFETIME) (\<lambda>_.
     sbind (demand_ext subject cert OID_BASIC_CONSTRAINTS) (\<lambda>bc_ext.
     sbind (read_ext subject (d_basic_constraints D) bc_ext) (\<lambda>bc.
     sbind (require (\<not> fst bc) (IsAuthority subject)) (\<lambda>_.
     sbind (demand_ext subject cert OID_EXT_KEY_USAGE) (\<lambda>eku_ext.
     sbind (read_ext subject (d_eku D) eku_ext) (\<lambda>eku.
     sbind (require (OID_EKU_OCSP_SIGNING \<in> set eku) (EkuLacks subject OID_EKU_OCSP_SIGNING)) (\<lambda>_.
     sbind (require (find_extension cert OID_OCSP_NO_CHECK \<noteq> None)
              (ExtensionAbsent subject OID_OCSP_NO_CHECK)) (\<lambda>_.
     sbind (demand_ext subject cert OID_KEY_USAGE) (\<lambda>ku_ext.
     sbind (read_ext subject (d_key_usage D) ku_ext) (\<lambda>ku.
     require (DigitalSignature \<in> ku) (KeyUsageLacksSignature subject))))))))))))"

definition has_certificate_policy :: "deps \<Rightarrow> x509 \<Rightarrow> oid \<Rightarrow> bool" where
  "has_certificate_policy D cert policy =
     (case find_extension cert OID_CERTIFICATE_POLICIES of
        None \<Rightarrow> False
      | Some e \<Rightarrow> (case from_der (d_policies D) (ext_value e) of
                     Inl _ \<Rightarrow> False | Inr ps \<Rightarrow> policy \<in> set ps))"

fun dns_of :: "general_name \<Rightarrow> string option" where
  "dns_of (DnsName d) = Some d"
| "dns_of (OtherGeneralName b) = None"

definition dns_names :: "deps \<Rightarrow> x509 \<Rightarrow> string list" where
  "dns_names D cert =
     (case find_extension cert OID_SUBJECT_ALT_NAME of
        None \<Rightarrow> []
      | Some e \<Rightarrow> (case from_der (d_alt_names D) (ext_value e) of
                     Inl _ \<Rightarrow> [] | Inr ns \<Rightarrow> List.map_filter dns_of ns))"

definition check_internal_certificate ::
    "deps \<Rightarrow> string \<Rightarrow> x509 \<Rightarrow> oid \<Rightarrow> oid \<Rightarrow> conf_error + unit" where
  "check_internal_certificate D subject cert eku_oid policy_oid =
     sbind (check_signature_algorithm_id D subject (x_sig_alg cert)) (\<lambda>_.
     sbind (check_certificate_lifetime subject (secs_to_instant (x_not_before cert))
              (secs_to_instant (x_not_after cert)) MAX_INTERNAL_LIFETIME) (\<lambda>_.
     sbind (demand_ext subject cert OID_BASIC_CONSTRAINTS) (\<lambda>bc_ext.
     sbind (read_ext subject (d_basic_constraints D) bc_ext) (\<lambda>bc.
     sbind (require (\<not> fst bc) (IsAuthority subject)) (\<lambda>_.
     sbind (demand_ext subject cert OID_EXT_KEY_USAGE) (\<lambda>eku_ext.
     sbind (read_ext subject (d_eku D) eku_ext) (\<lambda>eku.
     sbind (require (eku = [eku_oid]) (EkuNotExactly subject eku_oid)) (\<lambda>_.
     sbind (require (has_certificate_policy D cert policy_oid) (PolicyAbsent subject policy_oid)) (\<lambda>_.
     sbind (demand_ext subject cert OID_KEY_USAGE) (\<lambda>ku_ext.
     sbind (read_ext subject (d_key_usage D) ku_ext) (\<lambda>ku.
     require (DigitalSignature \<in> ku) (KeyUsageLacksSignature subject))))))))))))"

definition check_internal_client_certificate :: "deps \<Rightarrow> string \<Rightarrow> x509 \<Rightarrow> conf_error + unit" where
  "check_internal_client_certificate D subject cert =
     check_internal_certificate D subject cert OID_EKU_CLIENT_AUTH OID_POLICY_INTERNAL_CLIENT"

definition check_enroll_client_certificate :: "deps \<Rightarrow> string \<Rightarrow> x509 \<Rightarrow> conf_error + unit" where
  "check_enroll_client_certificate D subject cert =
     check_internal_certificate D subject cert OID_EKU_CLIENT_AUTH OID_POLICY_ENROLL_CLIENT"

definition check_internal_server_certificate :: "deps \<Rightarrow> string \<Rightarrow> x509 \<Rightarrow> conf_error + unit" where
  "check_internal_server_certificate D subject cert =
     sbind (check_internal_certificate D subject cert OID_EKU_SERVER_AUTH OID_POLICY_INTERNAL_SERVER) (\<lambda>_.
     require (dns_names D cert \<noteq> []) (NoDnsName subject))"

end
