(* ===== verification/Profile.thy ===== *)
theory Profile
  imports Conformance
begin

text \<open>
  \<open>crates/oe-ca-core/src/provenance.rs\<close> (by which way the operator of a decision was
  identified) and \<open>crates/oe-ca-core/src/profile.rs\<close> (what a certificate of each profile
  contains).
\<close>

section \<open>Provenance\<close>

record system_identity =
  si_uid :: "nat option"
  si_user :: string
  si_host :: string

datatype via = WebAuthn | Cli system_identity | Automatic

definition parse_real_uid :: "string \<Rightarrow> nat option" where
  "parse_real_uid status =
     (case find_map (strip_prefix ''Uid:'') (lines status) of
        None \<Rightarrow> None
      | Some rest \<Rightarrow> (case split_whitespace rest of [] \<Rightarrow> None | uid # _ \<Rightarrow> parse_u32 uid))"

definition user_name :: "string \<Rightarrow> nat \<Rightarrow> string option" where
  "user_name passwd uid = find_map (\<lambda>line.
     (case split_on CHR '':'' line of
        name # _ # uid_text # _ \<Rightarrow>
          (case parse_u32 uid_text of
             Some line_uid \<Rightarrow> if line_uid = uid then Some name else None
           | None \<Rightarrow> None)
      | _ \<Rightarrow> None)) (lines passwd)"

fun via_label :: "via \<Rightarrow> string" where
  "via_label WebAuthn = ''webauthn''"
| "via_label (Cli i) = ''cli''"
| "via_label Automatic = ''automatique''"

datatype comment_error = CommentRequired

fun check_comment :: "via \<Rightarrow> string \<Rightarrow> comment_error + unit" where
  "check_comment (Cli i) comment = require (trim comment \<noteq> []) CommentRequired"
| "check_comment _ comment = Inr ()"

definition identity_json :: "system_identity \<Rightarrow> json" where
  "identity_json i = JObj
     [(''authentifiee'', JBool False),
      (''uid'', case si_uid i of None \<Rightarrow> JNull | Some n \<Rightarrow> JNum (int n)),
      (''utilisateur'', JStr (si_user i)),
      (''hote'', JStr (si_host i))]"

fun annotate :: "via \<Rightarrow> json \<Rightarrow> json" where
  "annotate v (JObj fs) =
     (let fs' = j_insert ''authenticated_via'' (JStr (via_label v)) fs in
      case v of
        Cli i \<Rightarrow> JObj (j_insert ''identite_systeme'' (identity_json i) fs')
      | _ \<Rightarrow> JObj fs')"
| "annotate v j = j"

text \<open>An annotated event says how its operator was identified, and keeps what it said.\<close>

lemma annotate_via: "j_get (annotate v (JObj fs)) ''authenticated_via'' = Some (JStr (via_label v))"
  by (cases v) (simp_all add: Let_def)

lemma annotate_get:
  "k \<noteq> ''authenticated_via'' \<Longrightarrow> k \<noteq> ''identite_systeme'' \<Longrightarrow>
     j_get (annotate v (JObj fs)) k = map_of fs k"
  by (cases v) (simp_all add: Let_def)

lemma annotate_cli:
  "j_get (annotate (Cli i) (JObj fs)) ''identite_systeme'' = Some (identity_json i)"
  by (simp add: Let_def)

declare annotate.simps [simp del]

section \<open>Profiles\<close>

record profile =
  pf_name :: string
  pf_organizational_unit :: string
  pf_organization :: string
  pf_country :: string
  pf_validity :: duration
  pf_key_usages :: "key_usage set"
  pf_eku :: "oid list"
  pf_eku_critical :: bool
  pf_ocsp_no_check :: bool
  pf_include_crl_distribution_point :: bool
  pf_include_ca_issuers :: bool
  pf_include_ocsp_responder :: bool
  pf_required_cn :: "string option"
  pf_san_dns_from_cn :: bool
  pf_policy_oid :: "oid option"
  pf_private_key_validity :: "duration option"
  pf_check :: "string \<Rightarrow> x509 \<Rightarrow> conf_error + unit"

definition tsa_signer :: "deps \<Rightarrow> profile" where
  "tsa_signer D = \<lparr>pf_name = ''tsa_signer'', pf_organizational_unit = ''Time Stamping Authority'',
     pf_organization = ''Open eIDAS'', pf_country = ''FR'', pf_validity = days (2 * 365),
     pf_key_usages = {DigitalSignature, NonRepudiation}, pf_eku = [OID_EKU_TIME_STAMPING],
     pf_eku_critical = True, pf_ocsp_no_check = False, pf_include_crl_distribution_point = True,
     pf_include_ca_issuers = True, pf_include_ocsp_responder = True, pf_required_cn = None,
     pf_san_dns_from_cn = False, pf_policy_oid = None, pf_private_key_validity = Some (days 365),
     pf_check = check_tsu_certificate D\<rparr>"

definition ocsp_responder :: "deps \<Rightarrow> profile" where
  "ocsp_responder D = \<lparr>pf_name = ''ocsp_responder'', pf_organizational_unit = ''OCSP Responder'',
     pf_organization = ''Open eIDAS'', pf_country = ''FR'', pf_validity = days 90,
     pf_key_usages = {DigitalSignature}, pf_eku = [OID_EKU_OCSP_SIGNING],
     pf_eku_critical = True, pf_ocsp_no_check = True, pf_include_crl_distribution_point = False,
     pf_include_ca_issuers = False, pf_include_ocsp_responder = False, pf_required_cn = None,
     pf_san_dns_from_cn = False, pf_policy_oid = None, pf_private_key_validity = None,
     pf_check = check_ocsp_responder_certificate D\<rparr>"

definition internal_client :: "deps \<Rightarrow> profile" where
  "internal_client D = \<lparr>pf_name = ''internal_client'', pf_organizational_unit = ''Internal Link'',
     pf_organization = ''Open eIDAS'', pf_country = ''FR'', pf_validity = days 90,
     pf_key_usages = {DigitalSignature}, pf_eku = [OID_EKU_CLIENT_AUTH],
     pf_eku_critical = True, pf_ocsp_no_check = False, pf_include_crl_distribution_point = True,
     pf_include_ca_issuers = True, pf_include_ocsp_responder = False,
     pf_required_cn = Some INTERNAL_CLIENT_CN,
     pf_san_dns_from_cn = False, pf_policy_oid = Some OID_POLICY_INTERNAL_CLIENT,
     pf_private_key_validity = None, pf_check = check_internal_client_certificate D\<rparr>"

definition enroll_client :: "deps \<Rightarrow> profile" where
  "enroll_client D = \<lparr>pf_name = ''enroll_client'', pf_organizational_unit = ''Enrollment Client'',
     pf_organization = ''Open eIDAS'', pf_country = ''FR'', pf_validity = days 90,
     pf_key_usages = {DigitalSignature}, pf_eku = [OID_EKU_CLIENT_AUTH],
     pf_eku_critical = True, pf_ocsp_no_check = False, pf_include_crl_distribution_point = True,
     pf_include_ca_issuers = True, pf_include_ocsp_responder = False, pf_required_cn = None,
     pf_san_dns_from_cn = False, pf_policy_oid = Some OID_POLICY_ENROLL_CLIENT,
     pf_private_key_validity = None, pf_check = check_enroll_client_certificate D\<rparr>"

definition internal_server :: "deps \<Rightarrow> profile" where
  "internal_server D = \<lparr>pf_name = ''internal_server'', pf_organizational_unit = ''Internal Link'',
     pf_organization = ''Open eIDAS'', pf_country = ''FR'', pf_validity = days 90,
     pf_key_usages = {DigitalSignature}, pf_eku = [OID_EKU_SERVER_AUTH],
     pf_eku_critical = True, pf_ocsp_no_check = False, pf_include_crl_distribution_point = True,
     pf_include_ca_issuers = True, pf_include_ocsp_responder = False, pf_required_cn = None,
     pf_san_dns_from_cn = True, pf_policy_oid = Some OID_POLICY_INTERNAL_SERVER,
     pf_private_key_validity = None, pf_check = check_internal_server_certificate D\<rparr>"

lemmas profile_defs = tsa_signer_def ocsp_responder_def internal_client_def enroll_client_def
  internal_server_def

definition dns_label :: "string \<Rightarrow> bool" where
  "dns_label l \<longleftrightarrow> l \<noteq> [] \<and> length l \<le> 63 \<and> hd l \<noteq> CHR ''-'' \<and> last l \<noteq> CHR ''-''
     \<and> list_all (\<lambda>c. is_lower c \<or> is_digit c \<or> c = CHR ''-'') l"

definition is_dns_name :: "string \<Rightarrow> bool" where
  "is_dns_name s \<longleftrightarrow> s \<noteq> [] \<and> length s \<le> 253
     \<and> \<not> list_all (\<lambda>c. is_digit c \<or> c = CHR ''.'') s
     \<and> list_all dns_label (split_on CHR ''.'' s)"

datatype cn_error = CnNotRequired string string string | CnNotDns string string

definition validate_cn :: "profile \<Rightarrow> string \<Rightarrow> cn_error + unit" where
  "validate_cn p cn =
     sbind (case pf_required_cn p of
              None \<Rightarrow> Inr ()
            | Some req \<Rightarrow> require (cn = req) (CnNotRequired (pf_name p) req cn)) (\<lambda>_.
     require (\<not> (pf_san_dns_from_cn p \<and> \<not> is_dns_name cn)) (CnNotDns (pf_name p) cn))"

datatype profile_error = UnknownProfile string

definition profile_by_name :: "deps \<Rightarrow> string \<Rightarrow> profile_error + profile" where
  "profile_by_name D name =
     (if name = ''tsa_signer'' then Inr (tsa_signer D)
      else if name = ''ocsp_responder'' then Inr (ocsp_responder D)
      else if name = ''internal_client'' then Inr (internal_client D)
      else if name = ''internal_server'' then Inr (internal_server D)
      else if name = ''enroll_client'' then Inr (enroll_client D)
      else Inl (UnknownProfile name))"

lemma profile_by_name_cases:
  assumes "profile_by_name D name = Inr p"
  obtains "p = tsa_signer D" | "p = ocsp_responder D" | "p = internal_client D"
    | "p = internal_server D" | "p = enroll_client D"
  using assms by (auto simp: profile_by_name_def split: if_splits)

lemma profile_by_name_name: "profile_by_name D name = Inr p \<Longrightarrow> pf_name p = name"
  by (auto simp: profile_by_name_def profile_defs split: if_splits)

end
