(* ===== verification/Ca_Core.thy ===== *)
theory Ca_Core
  imports Castore Profile
begin

text \<open>
  What the handlers of the certification authority share: the world they act on (the
  register, the journal, the clock, the random generator), their errors, and the helper
  functions of \<open>crates/oe-ca-core/src/lib.rs\<close>, \<open>extensions.rs\<close> and \<open>signing.rs\<close>.
\<close>

section \<open>The world\<close>

text \<open>The journal behind the trait \<open>Recorder\<close>: what was written, and an oracle that says
  which of the successive writes the storage refuses (and why).\<close>

record journal =
  j_entries :: "(string \<times> json) list"
  j_tries :: nat
  j_outage :: "nat \<Rightarrow> string option"

text \<open>The clock and the generator are read through counters: the n-th reading is the n-th
  value, nothing is assumed of the values.\<close>

record ca_world =
  w_store :: memory
  w_journal :: journal
  w_clock :: "nat \<Rightarrow> instant"
  w_tick :: nat
  w_rand :: "nat \<Rightarrow> byte"
  w_draws :: nat

definition now_utc :: "('x ca_world_scheme, 'e, instant) res" where
  "now_utc = (\<lambda>w. (Inr (w_clock w (w_tick w)), w\<lparr>w_tick := w_tick w + 1\<rparr>))"

definition fill_bytes :: "nat \<Rightarrow> ('x ca_world_scheme, 'e, bytes) res" where
  "fill_bytes n = (\<lambda>w. (Inr (map (w_rand w) [w_draws w ..< w_draws w + n]),
                        w\<lparr>w_draws := w_draws w + n\<rparr>))"

definition journal_append :: "string \<Rightarrow> json \<Rightarrow> ('x ca_world_scheme, string, unit) res" where
  "journal_append event data = (\<lambda>w.
     let j = w_journal w; j' = j\<lparr>j_tries := j_tries j + 1\<rparr> in
     case j_outage j (j_tries j) of
       Some e \<Rightarrow> (Inl e, w\<lparr>w_journal := j'\<rparr>)
     | None \<Rightarrow> (Inr (), w\<lparr>w_journal := j'\<lparr>j_entries := j_entries j @ [(event, data)]\<rparr>\<rparr>))"

text \<open>A call of the store.\<close>

definition on_store :: "'a store_op \<Rightarrow> ('x ca_world_scheme, store_error, 'a) res" where
  "on_store m = (\<lambda>w. case m (w_store w) of (r, s) \<Rightarrow> (r, w\<lparr>w_store := s\<rparr>))"

section \<open>Errors\<close>

datatype ca_error =
    CaDer string
  | CaSigning hsm_error
  | CaStore store_error
  | CaOther ca_message
and ca_message =
    KeyMismatch
  | JournalDown string
  | CnRefused cn_error
  | CommentMissing
  | IssuerRevoked
  | NonConforming conf_error
  | SerialCollisions nat nat
  | OperatorRequired
  | ReasonRefused int
  | BuilderRefused string
  | RootCannotRevokeItself
  | RootKeyDiffers ca_error
  | IssuingKeyDiffers ca_error

type_synonym ('x, 'a) ca = "('x ca_world_scheme, ca_error, 'a) res"

definition store_call :: "'a store_op \<Rightarrow> ('x, 'a) ca" where
  "store_call m = map_err CaStore (on_store m)"

text \<open>\<open>Issuer::record\<close>, \<open>RootAuthority::record\<close>: blocking, when there is a recorder.\<close>

definition record_event :: "bool \<Rightarrow> string \<Rightarrow> json \<Rightarrow> ('x, unit) ca" where
  "record_event recorder event data =
     (if recorder then map_err (\<lambda>e. CaOther (JournalDown e)) (journal_append event data) else ok ())"

subsection \<open>What these calls establish\<close>

lemma runs_now_utc [run]:
  "runs now_utc Q E w \<longleftrightarrow> Q (w_clock w (w_tick w)) (w\<lparr>w_tick := w_tick w + 1\<rparr>)"
  by (simp add: runs_def now_utc_def)

lemma runs_fill_bytes [run]:
  "runs (fill_bytes n) Q E w \<longleftrightarrow>
     Q (map (w_rand w) [w_draws w ..< w_draws w + n]) (w\<lparr>w_draws := w_draws w + n\<rparr>)"
  by (simp add: runs_def fill_bytes_def)

lemma runs_on_store [run]:
  "runs (on_store m) Q E w \<longleftrightarrow>
     runs m (\<lambda>x s. Q x (w\<lparr>w_store := s\<rparr>)) (\<lambda>e s. E e (w\<lparr>w_store := s\<rparr>)) (w_store w)"
  by (simp add: runs_def on_store_def split: prod.splits sum.splits)

lemma runs_store_call [run]:
  "runs (store_call m) Q E w \<longleftrightarrow>
     runs m (\<lambda>x s. Q x (w\<lparr>w_store := s\<rparr>)) (\<lambda>e s. E (CaStore e) (w\<lparr>w_store := s\<rparr>)) (w_store w)"
  by (simp add: store_call_def run)

text \<open>A write to the journal: refused, it leaves the entries as they were; accepted, it is
  the last of them.\<close>

definition tried :: "journal \<Rightarrow> journal" where
  "tried j = j\<lparr>j_tries := j_tries j + 1\<rparr>"

definition written :: "string \<Rightarrow> json \<Rightarrow> journal \<Rightarrow> journal" where
  "written event data j = (tried j)\<lparr>j_entries := j_entries j @ [(event, data)]\<rparr>"

lemma tried_entries [simp]: "j_entries (tried j) = j_entries j"
  by (simp add: tried_def)

lemma written_entries [simp]: "j_entries (written event data j) = j_entries j @ [(event, data)]"
  by (simp add: written_def)

lemma runs_journal_append [run]:
  "runs (journal_append event data) Q E w \<longleftrightarrow>
     (\<forall>e. j_outage (w_journal w) (j_tries (w_journal w)) = Some e \<longrightarrow>
        E e (w\<lparr>w_journal := tried (w_journal w)\<rparr>))
     \<and> (j_outage (w_journal w) (j_tries (w_journal w)) = None \<longrightarrow>
        Q () (w\<lparr>w_journal := written event data (w_journal w)\<rparr>))"
  by (simp add: runs_def journal_append_def Let_def tried_def written_def split: option.splits)

lemma runs_record_event [run]:
  "runs (record_event recorder event data) Q E w \<longleftrightarrow>
     (if recorder then runs (journal_append event data) Q (\<lambda>e. E (CaOther (JournalDown e))) w
      else Q () w)"
  by (simp add: record_event_def run)

text \<open>A predicate of the register that the calls of the store keep.\<close>

definition on_memory :: "(memory \<Rightarrow> bool) \<Rightarrow> 'x ca_world_scheme \<Rightarrow> bool" where
  "on_memory P w = P (w_store w)"

lemma keeps_on_memory_store [pres]:
  "keeps P m \<Longrightarrow> keeps (on_memory P) (on_store m)"
  "keeps P m \<Longrightarrow> keeps (on_memory P) (store_call m)"
  by (auto simp: keeps_runs run on_memory_def)

lemma on_memoryD: "keeps (on_memory P) m \<Longrightarrow> P (w_store w) \<Longrightarrow> P (w_store (snd (m w)))"
  by (simp add: keeps_def on_memory_def)

lemma keeps_on_memory_world [pres]:
  "keeps (on_memory P) now_utc" "keeps (on_memory P) (fill_bytes n)"
  "keeps (on_memory P) (record_event b ev data)" "keeps (on_memory P) (journal_append ev data)"
  by (simp_all add: keeps_runs run on_memory_def)

section \<open>Helpers\<close>

definition escape_rdn :: "string \<Rightarrow> string" where
  "escape_rdn s = concat (map (\<lambda>c.
     if c \<in> set '',+\"'' \<or> c = CHR 0x5C \<or> c \<in> set ''<>;='' then [CHR 0x5C, c] else [c]) s)"

definition build_subject :: "deps \<Rightarrow> string \<Rightarrow> string \<Rightarrow> string \<Rightarrow> string \<Rightarrow> ca_error + dn" where
  "build_subject D cn ou org c =
     (let parts = (if c \<noteq> [] then [''C='' @ escape_rdn c] else [])
                  @ (if org \<noteq> [] then [''O='' @ escape_rdn org] else [])
                  @ (if ou \<noteq> [] then [''OU='' @ escape_rdn ou] else [])
                  @ [''CN='' @ escape_rdn cn]
      in or_else_err CaDer (d_name D (join '','' parts)))"

definition to_x509_time :: "deps \<Rightarrow> instant \<Rightarrow> ca_error + int" where
  "to_x509_time D t = or_else_err CaDer (d_time D t)"

fun canonical_serial :: "bytes \<Rightarrow> bytes" where
  "canonical_serial (b # c # bs) =
     (if b = 0 \<and> c AND 0x80 \<noteq> 0 then c # bs else b # c # bs)"
| "canonical_serial bs = bs"

definition matches_signer :: "bytes \<Rightarrow> token \<Rightarrow> ca_error + unit" where
  "matches_signer cert_spki_der signer =
     sbind (or_else_err CaSigning (tk_public_key signer)) (\<lambda>signer_spki.
     require (cert_spki_der = signer_spki) (CaOther KeyMismatch))"

definition OID_CN :: oid where "OID_CN = ''2.5.4.3''"

definition common_name :: "x509 \<Rightarrow> string" where
  "common_name cert = (case find (\<lambda>(k, v). k = OID_CN) (x_subject cert) of
     None \<Rightarrow> [] | Some (k, v) \<Rightarrow> v)"

section \<open>Extensions\<close>

definition build_ext :: "oid \<Rightarrow> bool \<Rightarrow> string + bytes \<Rightarrow> ca_error + extension" where
  "build_ext target critical value =
     sbind (or_else_err CaDer value) (\<lambda>b.
     Inr \<lparr>ext_id = target, ext_critical = critical, ext_value = b\<rparr>)"

definition basic_constraints :: "deps \<Rightarrow> bool \<Rightarrow> nat option \<Rightarrow> ca_error + extension" where
  "basic_constraints D ca path_len =
     build_ext OID_BASIC_CONSTRAINTS True (to_der (d_basic_constraints D) (ca, path_len))"

definition key_usage_ext :: "deps \<Rightarrow> key_usage set \<Rightarrow> ca_error + extension" where
  "key_usage_ext D usages = build_ext OID_KEY_USAGE True (to_der (d_key_usage D) usages)"

definition subject_key_identifier :: "deps \<Rightarrow> bytes \<Rightarrow> ca_error + extension" where
  "subject_key_identifier D ski = build_ext OID_SUBJECT_KEY_ID False (to_der (d_octets D) ski)"

definition crl_number :: "deps \<Rightarrow> int \<Rightarrow> ca_error + extension" where
  "crl_number D number =
     build_ext OID_CRL_NUMBER False (d_uint D (significant (be8 (word_of_int (max number 0)))))"

definition expired_certs_on_crl :: "deps \<Rightarrow> int \<Rightarrow> ca_error + extension" where
  "expired_certs_on_crl D since =
     build_ext OID_EXPIRED_CERTS_ON_CRL False (to_der (d_gen_time D) since)"

definition authority_key_identifier :: "deps \<Rightarrow> bytes \<Rightarrow> ca_error + extension" where
  "authority_key_identifier D parent_ski = build_ext OID_AUTHORITY_KEY_ID False (d_aki D parent_ski)"

definition extended_key_usage :: "deps \<Rightarrow> oid list \<Rightarrow> bool \<Rightarrow> ca_error + extension" where
  "extended_key_usage D oids critical = build_ext OID_EXT_KEY_USAGE critical (to_der (d_eku D) oids)"

definition crl_issued_serials :: "deps \<Rightarrow> bytes list \<Rightarrow> ca_error + extension" where
  "crl_issued_serials D serials =
     sbind (or_else_err CaDer (traverse (d_serial D) serials)) (\<lambda>values.
     build_ext OID_CRL_ISSUED_SERIALS False (to_der (d_serials D) values))"

definition unix_timestamp :: "instant \<Rightarrow> int" where "unix_timestamp t = t div seconds 1"

definition private_key_usage_period :: "deps \<Rightarrow> instant \<Rightarrow> ca_error + extension" where
  "private_key_usage_period D not_after =
     sbind (or_else_err CaDer (d_secs_time D (max (unix_timestamp not_after) 0))) (\<lambda>t.
     build_ext OID_PRIVATE_KEY_USAGE_PERIOD False (to_der (d_key_period D) (None, Some t)))"

definition ocsp_no_check :: extension where
  "ocsp_no_check = \<lparr>ext_id = OID_OCSP_NO_CHECK, ext_critical = False, ext_value = der_null\<rparr>"

definition crl_distribution_point :: "deps \<Rightarrow> string \<Rightarrow> ca_error + extension" where
  "crl_distribution_point D url =
     build_ext OID_CRL_DISTRIBUTION_POINTS False (d_dist_point D url)"

definition OID_AD_CA_ISSUERS :: oid where "OID_AD_CA_ISSUERS = ''1.3.6.1.5.5.7.48.2''"
definition OID_AD_OCSP :: oid where "OID_AD_OCSP = ''1.3.6.1.5.5.7.48.1''"

definition authority_info_access ::
    "deps \<Rightarrow> string option \<Rightarrow> string option \<Rightarrow> ca_error + extension" where
  "authority_info_access D ca_issuers_url ocsp_url =
     build_ext OID_AUTHORITY_INFO_ACCESS False (d_access D
       ((case ca_issuers_url of None \<Rightarrow> [] | Some url \<Rightarrow> [(OID_AD_CA_ISSUERS, url)])
        @ (case ocsp_url of None \<Rightarrow> [] | Some url \<Rightarrow> [(OID_AD_OCSP, url)])))"

definition certificate_policy :: "deps \<Rightarrow> oid \<Rightarrow> ca_error + extension" where
  "certificate_policy D policy =
     build_ext OID_CERTIFICATE_POLICIES False (to_der (d_policies D) [policy])"

definition subject_alt_name_dns :: "deps \<Rightarrow> string \<Rightarrow> ca_error + extension" where
  "subject_alt_name_dns D name =
     build_ext OID_SUBJECT_ALT_NAME False (to_der (d_alt_names D) [DnsName name])"

text \<open>The reasons of RFC 5280; any other code is written \<open>unspecified\<close>.\<close>

definition crl_reason_of :: "int \<Rightarrow> nat" where
  "crl_reason_of code = (if code \<in> {1, 2, 3, 4, 5, 6, 8, 9, 10} then nat code else 0)"

definition extensions_crl_reason :: "deps \<Rightarrow> int \<Rightarrow> ca_error + extension" where
  "extensions_crl_reason D code = build_ext ''2.5.29.21'' False (d_reason D (crl_reason_of code))"

lemmas ext_defs = build_ext_def basic_constraints_def key_usage_ext_def subject_key_identifier_def
  crl_number_def expired_certs_on_crl_def authority_key_identifier_def extended_key_usage_def
  crl_issued_serials_def private_key_usage_period_def ocsp_no_check_def crl_distribution_point_def
  authority_info_access_def certificate_policy_def subject_alt_name_dns_def
  extensions_crl_reason_def

section \<open>Signing\<close>

text \<open>The token signs the digest of what the builder produced; the key never comes here.\<close>

definition sign_with_token :: "deps \<Rightarrow> token \<Rightarrow> scheme \<Rightarrow> to_build \<Rightarrow> ca_error + x509" where
  "sign_with_token D signer sch b =
     sbind (or_else_err (\<lambda>e. CaOther (BuilderRefused (hsm_text e)))
              (signature_algorithm D sch Sha256)) (\<lambda>alg.
     sbind (or_else_err (\<lambda>e. CaOther (BuilderRefused e)) (d_finalize D b alg)) (\<lambda>tbs_der.
     sbind (or_else_err CaSigning (tk_sign signer sch Sha256 (d_sha256 D tbs_der))) (\<lambda>sig.
     or_else_err (\<lambda>e. CaOther (BuilderRefused e)) (d_assemble D b alg sig))))"

definition sign_crl :: "deps \<Rightarrow> token \<Rightarrow> scheme \<Rightarrow> tbs_crl \<Rightarrow> ca_error + signed_crl" where
  "sign_crl D signer sch tbs0 =
     sbind (or_else_err (\<lambda>e. CaOther (BuilderRefused (hsm_text e)))
              (signature_algorithm D sch Sha256)) (\<lambda>algorithm.
     let tbs = tbs0\<lparr>tc_signature := algorithm\<rparr> in
     sbind (or_else_err CaDer (d_tbs_crl D tbs)) (\<lambda>tbs_der.
     sbind (or_else_err CaSigning (tk_sign signer sch Sha256 (d_sha256 D tbs_der))) (\<lambda>sig.
     Inr \<lparr>sc_tbs = tbs, sc_alg = algorithm, sc_signature = sig\<rparr>)))"

definition subject_key_id :: "deps \<Rightarrow> bytes \<Rightarrow> ca_error + bytes" where
  "subject_key_id D public_key_der =
     sbind (or_else_err CaDer (d_spki_bits D public_key_der)) (\<lambda>bits. Inr (d_sha1 D bits))"

end
