(* ===== verification/Samples.thy ===== *)
theory Samples
  imports Conformance
begin

text \<open>
  Concrete instances of the third-party functions, with which the witnesses evaluate the
  model: small encoders that decode what they encoded, a builder that keeps its fields, a
  clock in whole seconds, a token. They show that the hypotheses of the theorems can hold.
\<close>

text \<open>An encoder for the values of a list: the position of the value.\<close>

fun position :: "'a \<Rightarrow> 'a list \<Rightarrow> nat option" where
  "position x [] = None"
| "position x (v # vs) = (if v = x then Some 0 else map_option Suc (position x vs))"

definition table_codec :: "'a list \<Rightarrow> 'a codec" where
  "table_codec vs =
     \<lparr>to_der = (\<lambda>x. case position x vs of
        None \<Rightarrow> Inl ''no encoding''
      | Some i \<Rightarrow> if i < 256 then Inr [of_nat i] else Inl ''no encoding''),
      from_der = (\<lambda>b. case b of
        [i] \<Rightarrow> if unat i < length vs then Inr (vs ! unat i) else Inl ''no value''
      | _ \<Rightarrow> Inl ''no value'')\<rparr>"

lemma position_nth: "position x vs = Some i \<Longrightarrow> i < length vs \<and> vs ! i = x"
  by (induction vs arbitrary: i) (auto split: if_splits)

lemma table_codec_ok [simp]: "codec_ok (table_codec vs)"
proof -
  have "from_der (table_codec vs) b = Inr x" if enc: "to_der (table_codec vs) x = Inr b" for x b
  proof -
    obtain i where i: "position x vs = Some i" "i < 256" "b = [of_nat i]"
      using enc by (cases "position x vs") (auto simp: table_codec_def split: if_splits)
    have "unat (word_of_nat i :: byte) = i" using i(2) by (simp add: unat_of_nat)
    with i position_nth [OF i(1)] show ?thesis by (simp add: table_codec_def)
  qed
  then show ?thesis by (simp add: codec_ok_def)
qed

definition sample_alg :: alg_id where
  "sample_alg = \<lparr>alg_oid = pkcs1_oid Sha256, alg_params = Some der_null\<rparr>"

definition sample_token :: token where
  "sample_token = \<lparr>tk_sign = (\<lambda>sch alg digest. Inr (7 # digest)), tk_public_key = Inr [1, 2, 3]\<rparr>"

definition sample_deps :: deps where
  "sample_deps =
     \<lparr>d_cert = \<lparr>to_der = (\<lambda>c. Inr (48 # x_serial c)), from_der = (\<lambda>b. Inl ''no decoder'')\<rparr>,
      d_alg = table_codec [sample_alg],
      d_any = Inr,
      d_tbs_crl = (\<lambda>t. Inr [3]),
      d_crl = \<lparr>to_der = (\<lambda>c. Inr (sc_signature c)), from_der = (\<lambda>b. Inl ''no decoder'')\<rparr>,
      d_basic_constraints = table_codec [(False, None), (True, Some 0), (True, Some 1)],
      d_key_usage = table_codec [{DigitalSignature}, {DigitalSignature, NonRepudiation},
                                 {KeyCertSign, CRLSign}],
      d_octets = \<lparr>to_der = Inr, from_der = Inr\<rparr>,
      d_uint = Inr,
      d_gen_time = table_codec [0],
      d_key_period = table_codec [(None, Some 31537000), (None, Some 31536000)],
      d_aki = Inr,
      d_eku = table_codec [[OID_EKU_TIME_STAMPING], [OID_EKU_OCSP_SIGNING], [OID_EKU_CLIENT_AUTH],
                           [OID_EKU_SERVER_AUTH]],
      d_serials = \<lparr>to_der = (\<lambda>ss. Inr (concat ss)), from_der = (\<lambda>b. Inl ''no decoder'')\<rparr>,
      d_dist_point = (\<lambda>u. Inr [1]),
      d_access = (\<lambda>u. Inr [2]),
      d_policies = table_codec [[OID_POLICY_INTERNAL_CLIENT], [OID_POLICY_INTERNAL_SERVER],
                                [OID_POLICY_ENROLL_CLIENT]],
      d_alt_names = table_codec [[DnsName ''ca.example.org'']],
      d_reason = (\<lambda>n. Inr [of_nat n]),
      d_name = (\<lambda>s. Inr [(''2.5.4.3'', s)]),
      d_name_text = (\<lambda>n. concat (map snd n)),
      d_serial = Inr,
      d_time = (\<lambda>t. if 0 \<le> t then Inr (t div seconds 1) else Inl ''before 1970''),
      d_secs_time = Inr,
      d_spki_bits = Inr,
      d_finalize = (\<lambda>b alg. if alg = sample_alg then Inr (tb_serial b) else Inl ''no encoding''),
      d_assemble = (\<lambda>b alg sig. Inr
        \<lparr>x_serial = tb_serial b, x_issuer = tb_issuer b, x_subject = tb_subject b,
         x_not_before = tb_not_before b, x_not_after = tb_not_after b, x_spki = tb_spki b,
         x_exts = Some (tb_exts b), x_sig_alg = alg, x_signature = sig\<rparr>),
      d_sha1 = (\<lambda>b. take 20 b),
      d_sha256 = (\<lambda>b. take 32 b),
      d_rfc3339 = (\<lambda>t. hex_encode [word_of_int (t div seconds 1)]),
      d_file_name = (\<lambda>s. s)\<rparr>"

lemma sample_codecs_ok: "codecs_ok sample_deps"
  by (simp add: sample_deps_def codecs_ok_def)

lemma sample_builder_ok: "builder_ok sample_deps"
  by (simp add: sample_deps_def builder_ok_def)

end
