(* ===== verification/Issuer.thy ===== *)
theory Issuer
  imports Ca_Core Samples
begin

text \<open>
  The issuing authority: \<open>Issuer\<close> of \<open>crates/oe-ca-core/src/lib.rs\<close>. Issuing, revoking and
  publishing the revocation list, each as the whole handler with its effects on the
  register and on the journal, in the order of the source.
\<close>

section \<open>The issuer\<close>

record issuer =
  is_signer :: token
  is_certificate :: x509
  is_chain :: "x509 list"
  is_public_url :: string
  is_ocsp_url :: "string option"
  is_crl_validity :: duration
  is_recorder :: bool
  is_scheme :: scheme

definition ALLOWED_REVOCATION_REASONS :: "int list" where
  "ALLOWED_REVOCATION_REASONS = [1, 3, 4, 5, 9]"

definition issuer_new :: "issuer \<Rightarrow> ca_error + issuer" where
  "issuer_new opts =
     sbind (matches_signer (x_spki (is_certificate opts)) (is_signer opts)) (\<lambda>_.
     Inr (opts\<lparr>is_scheme := Pkcs1v15\<rparr>))"

definition with_signature_scheme :: "issuer \<Rightarrow> scheme \<Rightarrow> issuer" where
  "with_signature_scheme I sch = I\<lparr>is_scheme := sch\<rparr>"

definition full_chain :: "issuer \<Rightarrow> x509 list" where
  "full_chain I = is_certificate I # is_chain I"

definition crl_url :: "deps \<Rightarrow> issuer \<Rightarrow> string" where
  "crl_url D I = is_public_url I @ ''/download/''
     @ d_file_name D (common_name (is_certificate I)) @ ''.crl''"

definition ca_certificate_url :: "deps \<Rightarrow> issuer \<Rightarrow> string" where
  "ca_certificate_url D I = is_public_url I @ ''/download/''
     @ d_file_name D (common_name (is_certificate I)) @ ''.cer''"

section \<open>Issuing\<close>

definition ensure_not_revoked :: "deps \<Rightarrow> issuer \<Rightarrow> ('x, unit) ca" where
  "ensure_not_revoked D I =
     bindr (lift (or_else_err CaDer (to_der (d_cert D) (is_certificate I)))) (\<lambda>own.
     bindr (store_call revoked_authorities) (\<lambda>as.
     ensure (\<not> list_ex (\<lambda>a. au_der a = own) as) (CaOther IssuerRevoked)))"

definition serial_bytes_of :: "bytes \<Rightarrow> bytes" where
  "serial_bytes_of bs = (case bs of [] \<Rightarrow> [] | b # r \<Rightarrow> (b OR 0x80) # r)"

fun reserve_attempts :: "deps \<Rightarrow> nat \<Rightarrow> string \<Rightarrow> ('x, bytes) ca" where
  "reserve_attempts D 0 profile = fail (CaOther (SerialCollisions 5 128))"
| "reserve_attempts D (Suc n) profile =
     bindr (fill_bytes 16) (\<lambda>drawn.
     bindr (lift (or_else_err CaDer (d_serial D (serial_bytes_of drawn)))) (\<lambda>serial.
     bindr (attempt (on_store (reserve_serial (canonical_serial serial) profile))) (\<lambda>r.
     case r of
       Inr _ \<Rightarrow> ok serial
     | Inl SerialTaken \<Rightarrow> reserve_attempts D n profile
     | Inl e \<Rightarrow> fail (CaStore e))))"

definition reserve_new_serial :: "deps \<Rightarrow> string \<Rightarrow> ('x, bytes) ca" where
  "reserve_new_serial D profile = reserve_attempts D 5 profile"

text \<open>The extensions of a certificate, in the order they are pushed.\<close>

definition issue_extensions ::
    "deps \<Rightarrow> issuer \<Rightarrow> profile \<Rightarrow> string \<Rightarrow> bytes \<Rightarrow> bytes \<Rightarrow> instant \<Rightarrow> ca_error + extension list" where
  "issue_extensions D I p subject_cn ski parent_ski now =
     (let ca_issuers = (if pf_include_ca_issuers p then Some (ca_certificate_url D I) else None);
          ocsp = (if pf_include_ocsp_responder p then is_ocsp_url I else None)
      in traverse (\<lambda>e. e)
        ([basic_constraints D False None, key_usage_ext D (pf_key_usages p),
          subject_key_identifier D ski, authority_key_identifier D parent_ski]
         @ (if pf_eku p \<noteq> [] then [extended_key_usage D (pf_eku p) (pf_eku_critical p)] else [])
         @ (if pf_ocsp_no_check p then [Inr ocsp_no_check] else [])
         @ (case pf_policy_oid p of None \<Rightarrow> [] | Some policy \<Rightarrow> [certificate_policy D policy])
         @ (case pf_private_key_validity p of None \<Rightarrow> []
            | Some v \<Rightarrow> [private_key_usage_period D (now + v)])
         @ (if pf_san_dns_from_cn p then [subject_alt_name_dns D subject_cn] else [])
         @ (if pf_include_crl_distribution_point p then [crl_distribution_point D (crl_url D I)]
            else [])
         @ (if ca_issuers \<noteq> None \<or> ocsp \<noteq> None then [authority_info_access D ca_issuers ocsp]
            else [])))"

text \<open>From the reserved serial number to the signed certificate: nothing here touches the
  world.\<close>

definition make_certificate ::
    "deps \<Rightarrow> issuer \<Rightarrow> bytes \<Rightarrow> string \<Rightarrow> profile \<Rightarrow> dn \<Rightarrow> bytes \<Rightarrow> instant \<Rightarrow> ca_error + x509" where
  "make_certificate D I csr_public_key_der subject_cn p subject serial now =
     sbind (to_x509_time D (now - minutes 5)) (\<lambda>not_before.
     sbind (to_x509_time D (now + pf_validity p)) (\<lambda>not_after.
     sbind (or_else_err CaDer (d_spki_bits D csr_public_key_der)) (\<lambda>_.
     sbind (subject_key_id D csr_public_key_der) (\<lambda>ski.
     sbind (subject_key_id D (x_spki (is_certificate I))) (\<lambda>parent_ski.
     sbind (issue_extensions D I p subject_cn ski parent_ski now) (\<lambda>exts.
     sign_with_token D (is_signer I) (is_scheme I)
       \<lparr>tb_subject = subject, tb_issuer = x_subject (is_certificate I), tb_exts = exts,
        tb_serial = serial, tb_not_before = not_before, tb_not_after = not_after,
        tb_spki = csr_public_key_der\<rparr>))))))"

text \<open>"certificat ... emis pour ...", with its accent.\<close>

definition check_subject :: "profile \<Rightarrow> string \<Rightarrow> string" where
  "check_subject p subject_cn =
     ''certificat '' @ pf_name p @ '' '' @ [CHR 0xC3, CHR 0xA9] @ ''mis pour '' @ subject_cn"

text \<open>The wording of a refusal is a function of its constructor; \<open>wording\<close> is that function.\<close>

definition issued_record ::
    "deps \<Rightarrow> profile \<Rightarrow> string \<Rightarrow> x509 \<Rightarrow> bytes \<Rightarrow> instant \<Rightarrow> bytes \<Rightarrow> certificate" where
  "issued_record D p transaction_id cert serial now der =
     \<lparr>crt_serial = canonical_serial serial, crt_profile = pf_name p,
      crt_subject_dn = d_name_text D (x_subject cert),
      crt_issuer_dn = d_name_text D (x_issuer cert),
      crt_not_before = now, crt_not_after = now + pf_validity p, crt_der = der,
      crt_status = Issued, crt_revoked_at = None, crt_revocation_reason = 0,
      crt_request_transaction_id = transaction_id\<rparr>"

lemma issued_record_simps [simp]:
  "crt_serial (issued_record D p tx cert serial now der) = canonical_serial serial"
  "crt_status (issued_record D p tx cert serial now der) = Issued"
  "crt_profile (issued_record D p tx cert serial now der) = pf_name p"
  "crt_request_transaction_id (issued_record D p tx cert serial now der) = tx"
  "crt_subject_dn (issued_record D p tx cert serial now der) = d_name_text D (x_subject cert)"
  "crt_not_after (issued_record D p tx cert serial now der) = now + pf_validity p"
  "crt_der (issued_record D p tx cert serial now der) = der"
  by (simp_all add: issued_record_def)

definition issue ::
    "deps \<Rightarrow> (conf_error \<Rightarrow> string) \<Rightarrow> issuer \<Rightarrow> bytes \<Rightarrow> string \<Rightarrow> profile \<Rightarrow> string \<Rightarrow> ('x, x509) ca" where
  "issue D wording I csr_public_key_der subject_cn p transaction_id =
     bindr (lift (or_else_err (\<lambda>e. CaOther (CnRefused e)) (validate_cn p subject_cn))) (\<lambda>_.
     bindr (ensure_not_revoked D I) (\<lambda>_.
     bindr (reserve_new_serial D (pf_name p)) (\<lambda>serial.
     let serial_bytes = canonical_serial serial in
     bindr (lift (build_subject D subject_cn (pf_organizational_unit p) (pf_organization p)
                    (pf_country p))) (\<lambda>subject.
     bindr now_utc (\<lambda>now.
     bindr (lift (make_certificate D I csr_public_key_der subject_cn p subject serial now)) (\<lambda>cert.
     case pf_check p (check_subject p subject_cn) cert of
       Inl reason \<Rightarrow>
         bindr (record_event (is_recorder I) ''ca.issuance_refused'' (JObj
           [(''profil'', JStr (pf_name p)), (''sujet'', JStr (d_name_text D (x_subject cert))),
            (''motif'', JStr (wording reason)), (''demande'', JStr transaction_id)])) (\<lambda>_.
         fail (CaOther (NonConforming reason)))
     | Inr _ \<Rightarrow>
         bindr (record_event (is_recorder I) ''ca.certificate_issued'' (JObj
           [(''profil'', JStr (pf_name p)), (''sujet'', JStr (d_name_text D (x_subject cert))),
            (''emetteur'', JStr (d_name_text D (x_issuer cert))),
            (''serie'', JStr (hex_encode serial_bytes)),
            (''not_after'', JStr (d_rfc3339 D (now + pf_validity p))),
            (''demande'', JStr transaction_id)])) (\<lambda>_.
         bindr (lift (or_else_err CaDer (to_der (d_cert D) cert))) (\<lambda>der.
         bindr (store_call (save_certificate
           (issued_record D p transaction_id cert serial now der))) (\<lambda>_.
         ok cert)))))))))"

section \<open>Revoking\<close>

definition revocation_event ::
    "deps \<Rightarrow> serial \<Rightarrow> certificate \<Rightarrow> int \<Rightarrow> string \<Rightarrow> string \<Rightarrow> instant \<Rightarrow> via \<Rightarrow> json" where
  "revocation_event D serial cert reason operator comment at via = annotate via (JObj
     [(''serie'', JStr (hex_encode serial)), (''sujet'', JStr (crt_subject_dn cert)),
      (''motif'', JNum reason), (''operateur'', JStr operator),
      (''commentaire'', JStr comment), (''date'', JStr (d_rfc3339 D at))])"

definition revoke ::
    "deps \<Rightarrow> issuer \<Rightarrow> serial \<Rightarrow> int \<Rightarrow> string \<Rightarrow> string \<Rightarrow> via \<Rightarrow> ('x, unit) ca" where
  "revoke D I serial reason operator comment via =
     bindr (ensure (operator \<noteq> []) (CaOther OperatorRequired)) (\<lambda>_.
     bindr (ensure (reason \<in> set ALLOWED_REVOCATION_REASONS) (CaOther (ReasonRefused reason))) (\<lambda>_.
     bindr (lift (or_else_err (\<lambda>_. CaOther CommentMissing) (check_comment via comment))) (\<lambda>_.
     bindr (store_call (get_certificate serial)) (\<lambda>cert.
     bindr now_utc (\<lambda>at.
     bindr (record_event (is_recorder I) ''ca.certificate_revoked''
              (revocation_event D serial cert reason operator comment at via)) (\<lambda>_.
     store_call (store_revoke serial at reason)))))))"

section \<open>The revocation list\<close>

definition crl_entry :: "deps \<Rightarrow> instant \<Rightarrow> certificate \<Rightarrow> ca_error + revoked_entry" where
  "crl_entry D now c =
     sbind (if crt_revocation_reason c \<noteq> 0
            then sbind (extensions_crl_reason D (crt_revocation_reason c)) (\<lambda>e. Inr [e])
            else Inr []) (\<lambda>exts.
     sbind (or_else_err CaDer (d_serial D (crt_serial c))) (\<lambda>sn.
     sbind (to_x509_time D (case crt_revoked_at c of None \<Rightarrow> now | Some t \<Rightarrow> t)) (\<lambda>date.
     Inr \<lparr>re_serial = sn, re_date = date, re_exts = (if exts = [] then None else Some exts)\<rparr>)))"

definition unsigned_crl :: "dn \<Rightarrow> int \<Rightarrow> int \<Rightarrow> revoked_entry list \<Rightarrow> extension list \<Rightarrow> tbs_crl" where
  "unsigned_crl name this_update next_update entries exts =
     \<lparr>tc_signature = \<lparr>alg_oid = ''0.0.0'', alg_params = None\<rparr>, tc_issuer = name,
      tc_this_update = this_update, tc_next_update = Some next_update,
      tc_revoked = (if entries = [] then None else Some entries), tc_exts = Some exts\<rparr>"

text \<open>What the list says, before it is signed, of what is revoked and what was issued.\<close>

definition crl_content ::
    "deps \<Rightarrow> issuer \<Rightarrow> instant \<Rightarrow> int \<Rightarrow> int \<Rightarrow> certificate list \<Rightarrow> int \<Rightarrow> serial list
     \<Rightarrow> ca_error + tbs_crl" where
  "crl_content D I now this_update next_update revoked_certs number issued =
     sbind (traverse (crl_entry D now) revoked_certs) (\<lambda>entries.
     sbind (subject_key_id D (x_spki (is_certificate I))) (\<lambda>ski.
     sbind (traverse (\<lambda>e. e) [crl_number D number, authority_key_identifier D ski,
              crl_issued_serials D issued,
              expired_certs_on_crl D (x_not_before (is_certificate I))]) (\<lambda>exts.
     Inr (unsigned_crl (x_subject (is_certificate I)) this_update next_update entries exts))))"

definition publish_crl :: "deps \<Rightarrow> issuer \<Rightarrow> ('x, crl) ca" where
  "publish_crl D I =
     bindr now_utc (\<lambda>now.
     bindr (store_call revoked) (\<lambda>revoked_certs.
     bindr (store_call next_crl_number) (\<lambda>number.
     bindr (lift (to_x509_time D (now - minutes 1))) (\<lambda>this_update.
     bindr (lift (to_x509_time D (now + is_crl_validity I))) (\<lambda>next_update.
     bindr (store_call issued_serials) (\<lambda>issued.
     bindr (lift (crl_content D I now this_update next_update revoked_certs number issued)) (\<lambda>tbs.
     bindr (lift (sign_crl D (is_signer I) (is_scheme I) tbs)) (\<lambda>signed.
     bindr (lift (or_else_err CaDer (to_der (d_crl D) signed))) (\<lambda>der.
     let c = \<lparr>rl_number = number, rl_der = der, rl_this_update = now,
              rl_next_update = now + is_crl_validity I\<rparr> in
     bindr (record_event (is_recorder I) ''ca.crl_published'' (JObj
       [(''numero'', JNum number), (''entrees'', JNum (int (length revoked_certs))),
        (''prochaine_maj'', JStr (d_rfc3339 D (rl_next_update c)))])) (\<lambda>_.
     bindr (store_call (save_crl c)) (\<lambda>_.
     ok c)))))))))))"

definition current_crl :: "('x, crl) ca" where "current_crl = store_call latest_crl"
definition current_arl :: "('x, arl) ca" where "current_arl = store_call latest_arl"

section \<open>What is issued or revoked is in the journal\<close>

text \<open>The entry that says a serial number was issued, and the one that says it was revoked,
  for which reason and by whom.\<close>

definition issue_logged :: "(string \<times> json) list \<Rightarrow> string \<Rightarrow> bool" where
  "issue_logged es k \<longleftrightarrow> (\<exists>data. (''ca.certificate_issued'', data) \<in> set es
     \<and> j_get data ''serie'' = Some (JStr k))"

definition revocation_logged :: "(string \<times> json) list \<Rightarrow> string \<Rightarrow> int \<Rightarrow> bool" where
  "revocation_logged es k reason \<longleftrightarrow> (\<exists>data operator. (''ca.certificate_revoked'', data) \<in> set es
     \<and> j_get data ''serie'' = Some (JStr k) \<and> j_get data ''motif'' = Some (JNum reason)
     \<and> j_get data ''operateur'' = Some (JStr operator) \<and> operator \<noteq> [])"

definition journaled :: "'x ca_world_scheme \<Rightarrow> bool" where
  "journaled w \<longleftrightarrow> (\<forall>k c. bt_get (m_certificates (w_store w)) k = Some c \<longrightarrow>
     (crt_status c \<noteq> Reserved \<longrightarrow> issue_logged (j_entries (w_journal w)) k)
     \<and> (crt_status c = Revoked \<longrightarrow>
          revocation_logged (j_entries (w_journal w)) k (crt_revocation_reason c)))"

lemma issue_logged_more [simp]: "issue_logged es k \<Longrightarrow> issue_logged (es @ fs) k"
  by (auto simp: issue_logged_def)

lemma revocation_logged_more [simp]: "revocation_logged es k r \<Longrightarrow> revocation_logged (es @ fs) k r"
  by (force simp: revocation_logged_def)

lemma issue_logged_now [simp]:
  "j_get data ''serie'' = Some (JStr k) \<Longrightarrow> issue_logged (es @ [(''ca.certificate_issued'', data)]) k"
  by (force simp: issue_logged_def)

text \<open>Calls that touch neither the certificates nor the entries.\<close>

lemma journaled_frame:
  "m_certificates (w_store v) = m_certificates (w_store w) \<Longrightarrow>
     j_entries (w_journal v) = j_entries (w_journal w) \<Longrightarrow> journaled v = journaled w"
  by (simp add: journaled_def)

lemma keeps_journaled_now [pres]: "keeps journaled now_utc"
  by (simp add: keeps_runs run journaled_def)

lemma keeps_journaled_fill [pres]: "keeps journaled (fill_bytes n)"
  by (simp add: keeps_runs run journaled_def)

lemma keeps_journaled_record [pres]: "keeps journaled (record_event b ev data)"
  by (simp add: keeps_runs run journaled_def)

lemma keeps_journaled_reserve [pres]: "keeps journaled (on_store (reserve_serial sn p))"
  by (simp add: keeps_runs run) (simp add: runs_def reserve_serial_def journaled_def)

lemma keeps_journaled_reads [pres]:
  "keeps journaled (store_call revoked_authorities)" "keeps journaled (store_call (get_certificate sn))"
  "keeps journaled (store_call revoked)" "keeps journaled (store_call issued_serials)"
  "keeps journaled (store_call latest_crl)" "keeps journaled (store_call next_crl_number)"
  "keeps journaled (store_call (save_crl c))"
  unfolding keeps_runs run
  by (auto simp: runs_def revoked_authorities_def get_certificate_def revoked_def
      issued_serials_def latest_crl_def next_crl_number_def save_crl_def gets_def modify_def
      journaled_def split: option.splits)

lemma keeps_journaled_attempts [pres]: "keeps journaled (reserve_attempts D n p)"
proof (induction n)
  case (Suc n)
  then show ?case by (auto intro!: pres split: store_error.split)
qed (auto intro: pres)

lemma keeps_journaled_not_revoked [pres]: "keeps journaled (ensure_not_revoked D I)"
  by (auto simp: ensure_not_revoked_def intro!: pres)

text \<open>The journal first, then the register.\<close>

lemma keeps_journaled_issue_tail:
  assumes b and "\<And>x. j_get data ''serie'' = Some (JStr (serial_key (crt_serial (c x))))"
    and "\<And>x. crt_status (c x) = Issued"
  shows "keeps journaled (bindr (record_event b ''ca.certificate_issued'' data) (\<lambda>_.
           bindr (lift r) (\<lambda>x. bindr (store_call (save_certificate (c x))) (\<lambda>_. ok y))))"
  using assms unfolding keeps_runs run
  by (auto simp: runs_def run save_certificate_def journaled_def split: option.splits)

lemma keeps_journaled_issue:
  assumes "is_recorder I"
  shows "keeps journaled (issue D wording I csr cn p tx)"
  unfolding issue_def Let_def reserve_new_serial_def
  by ((rule keeps_journaled_issue_tail [OF assms]; simp add: serial_key_def) | rule pres)+

lemma revocation_event_get [simp]:
  "j_get (revocation_event D sn c r oper com at v) ''serie'' = Some (JStr (hex_encode sn))"
  "j_get (revocation_event D sn c r oper com at v) ''motif'' = Some (JNum r)"
  "j_get (revocation_event D sn c r oper com at v) ''operateur'' = Some (JStr oper)"
  "j_get (revocation_event D sn c r oper com at v) ''authenticated_via'' = Some (JStr (via_label v))"
  by (simp_all add: revocation_event_def annotate_get annotate_via)

lemma keeps_journaled_revoke_tail:
  assumes b and "oper \<noteq> []"
  shows "keeps journaled (bindr (record_event b ''ca.certificate_revoked''
           (revocation_event D sn c r oper com at v)) (\<lambda>_. store_call (store_revoke sn at r)))"
proof -
  have "revocation_logged (es @ [(''ca.certificate_revoked'', revocation_event D sn c r oper com at v)])
          (serial_key sn) r" for es
    using assms(2) unfolding revocation_logged_def serial_key_def by force
  then show ?thesis using assms(1)
    unfolding keeps_runs run
    by (auto simp: runs_def store_revoke_def journaled_def split: option.splits)
qed

lemma keeps_ensure_then:
  "(b \<Longrightarrow> keeps P m) \<Longrightarrow> keeps P (bindr (ensure b e) (\<lambda>_. m))"
  by (cases b) (simp_all add: keeps_def bindr_def ensure_def ok_def fail_def)

lemma keeps_journaled_revoke:
  assumes "is_recorder I"
  shows "keeps journaled (revoke D I sn r oper com v)"
  unfolding revoke_def
  by (rule keeps_ensure_then, rule keeps_ensure_then)
    (erule keeps_journaled_revoke_tail [OF assms] | rule pres)+

lemma keeps_journaled_publish: "keeps journaled (publish_crl D I)"
  unfolding publish_crl_def Let_def by (auto intro!: pres)

section \<open>What the handlers do to the register\<close>

text \<open>The certificates that were issued, by key: reserved numbers do not count.\<close>

definition live :: "memory \<Rightarrow> string \<Rightarrow> certificate option" where
  "live s k = (case bt_get (m_certificates s) k of
     None \<Rightarrow> None | Some c \<Rightarrow> if crt_status c = Reserved then None else Some c)"

lemma live_frame: "m_certificates s = m_certificates t \<Longrightarrow> live s = live t"
  by (simp add: live_def fun_eq_iff)

definition reserved_only :: "'x ca_world_scheme \<Rightarrow> string \<Rightarrow> 'x ca_world_scheme \<Rightarrow> bool" where
  "reserved_only w k v \<longleftrightarrow> live (w_store v) = live (w_store w) \<and> w_journal v = w_journal w
     \<and> (\<exists>c. bt_get (m_certificates (w_store v)) k = Some c \<and> crt_status c = Reserved)"

definition same_issued :: "'x ca_world_scheme \<Rightarrow> 'x ca_world_scheme \<Rightarrow> bool" where
  "same_issued w v \<longleftrightarrow> live (w_store v) = live (w_store w)"

lemma same_issued_refl [simp]: "same_issued w w"
  by (simp add: same_issued_def)

lemma live_insert [simp]:
  "live (s\<lparr>m_certificates := bt_insert k c m\<rparr>) =
     (live (s\<lparr>m_certificates := m\<rparr>))(k := if crt_status c = Reserved then None else Some c)"
  by (auto simp: live_def fun_eq_iff)

lemma live_same [simp]: "live (s\<lparr>m_certificates := m_certificates s\<rparr>) = live s"
  by (simp add: live_def fun_eq_iff)

lemma live_absent: "bt_get (m_certificates s) k = None \<Longrightarrow> (live s)(k := None) = live s"
  by (auto simp: live_def fun_eq_iff)

lemma runs_reserve_attempts:
  "live (w_store u) = live (w_store w) \<Longrightarrow> w_journal u = w_journal w \<Longrightarrow>
     runs (reserve_attempts D n p) (\<lambda>sn v. reserved_only w (serial_key (canonical_serial sn)) v)
       (\<lambda>e v. same_issued w v) u"
proof (induction n arbitrary: u)
  case (Suc n)
  then show ?case
    by (auto simp: run reserved_only_def same_issued_def dest: live_absent)
qed (simp add: run same_issued_def)

lemma runs_ensure_not_revoked:
  "runs (ensure_not_revoked D I) Q E w \<longleftrightarrow>
     (\<forall>own. to_der (d_cert D) (is_certificate I) = Inr own \<longrightarrow>
        (if \<exists>a \<in> snd ` set (m_authorities (w_store w)). au_revoked_at a \<noteq> None \<and> au_der a = own
         then E (CaOther IssuerRevoked) w else Q () w))
     \<and> (\<forall>e. to_der (d_cert D) (is_certificate I) = Inl e \<longrightarrow> E (CaDer e) w)"
  by (cases "to_der (d_cert D) (is_certificate I)") (auto simp: ensure_not_revoked_def run list_ex_iff)

text \<open>Issuing: on success exactly one certificate more, under a number that was free, made
  by \<open>make_certificate\<close>, checked, and journaled as the last entry; on an error no certificate
  more and none changed.\<close>

definition issued_by ::
    "deps \<Rightarrow> issuer \<Rightarrow> bytes \<Rightarrow> string \<Rightarrow> profile \<Rightarrow> string \<Rightarrow> x509 \<Rightarrow> certificate \<Rightarrow> bool" where
  "issued_by D I csr cn p tx cert c \<longleftrightarrow>
     pf_check p (check_subject p cn) cert = Inr () \<and> to_der (d_cert D) cert = Inr (crt_der c)
     \<and> (\<exists>subject serial now. make_certificate D I csr cn p subject serial now = Inr cert
          \<and> c = issued_record D p tx cert serial now (crt_der c))"

lemma make_certificate_serial:
  assumes "builder_ok D" and "make_certificate D I csr cn p subject serial now = Inr cert"
  shows "x_serial cert = serial"
  using assms(2) builder_okD(1) [OF assms(1)]
  by (auto simp: make_certificate_def wp sign_with_token_def)

lemma issued_byD:
  assumes "issued_by D I csr cn p tx cert c"
  shows "crt_request_transaction_id c = tx" and "crt_status c = Issued" and "crt_profile c = pf_name p"
    and "crt_subject_dn c = d_name_text D (x_subject cert)"
    and "builder_ok D \<Longrightarrow> crt_serial c = canonical_serial (x_serial cert)"
proof -
  obtain subject serial now where m: "make_certificate D I csr cn p subject serial now = Inr cert"
    and c: "c = issued_record D p tx cert serial now (crt_der c)"
    using assms unfolding issued_by_def by blast
  show "crt_request_transaction_id c = tx" by (subst c) simp
  show "crt_status c = Issued" by (subst c) simp
  show "crt_profile c = pf_name p" by (subst c) simp
  show "crt_subject_dn c = d_name_text D (x_subject cert)" by (subst c) simp
  assume "builder_ok D"
  then have "x_serial cert = serial" using m by (rule make_certificate_serial)
  then show "crt_serial c = canonical_serial (x_serial cert)" by (subst c) simp
qed

lemma reserved_only_free: "reserved_only w k v \<Longrightarrow> live (w_store w) k = None"
proof -
  assume r: "reserved_only w k v"
  then obtain c where "bt_get (m_certificates (w_store v)) k = Some c" "crt_status c = Reserved"
    by (auto simp: reserved_only_def)
  then have "live (w_store v) k = None" by (simp add: live_def)
  with r show ?thesis by (simp add: reserved_only_def)
qed

lemma runs_issue:
  "runs (issue D wording I csr cn p tx)
     (\<lambda>cert v. \<exists>c. live (w_store w) (serial_key (crt_serial c)) = None
        \<and> live (w_store v) = (live (w_store w))(serial_key (crt_serial c) \<mapsto> c)
        \<and> issued_by D I csr cn p tx cert c
        \<and> (is_recorder I \<longrightarrow> (\<exists>data. j_entries (w_journal v)
             = j_entries (w_journal w) @ [(''ca.certificate_issued'', data)]
             \<and> j_get data ''serie'' = Some (JStr (hex_encode (crt_serial c)))
             \<and> j_get data ''demande'' = Some (JStr tx))))
     (\<lambda>e v. same_issued w v) w"
proof -
  have known: "\<exists>c. live (w_store w) (serial_key (crt_serial c)) = None
      \<and> (live (w_store w))(serial_key (canonical_serial sn) \<mapsto> issued_record D p tx cert sn now der)
          = (live (w_store w))(serial_key (crt_serial c) \<mapsto> c)
      \<and> issued_by D I csr cn p tx cert c \<and> canonical_serial sn = crt_serial c"
    if "make_certificate D I csr cn p subject sn now = Inr cert"
      and "pf_check p (check_subject p cn) cert = Inr ()" and "to_der (d_cert D) cert = Inr der"
      and "live (w_store w) (serial_key (canonical_serial sn)) = None"
    for subject sn now cert der
    using that by (intro exI [of _ "issued_record D p tx cert sn now der"]) (auto simp: issued_by_def)
  show ?thesis
    unfolding issue_def Let_def reserve_new_serial_def
    apply (simp add: run runs_ensure_not_revoked)
    apply (intro conjI impI allI; (simp; fail)?)
    apply (rule runs_mono [OF runs_reserve_attempts [OF refl refl]])
     apply (frule reserved_only_free)
     apply (clarsimp simp: reserved_only_def same_issued_def wp run)
     apply (fastforce dest: known)
    apply assumption
    done
qed

text \<open>Revoking: on success the certificate is marked, at the date read and for the reason
  given unless it was marked before; on an error no certificate is changed.\<close>

lemma runs_revoke:
  "runs (revoke D I sn r oper com v)
     (\<lambda>_ u. oper \<noteq> [] \<and> r \<in> set ALLOWED_REVOCATION_REASONS
        \<and> check_comment v com = Inr () \<and> cert_present (w_store w) sn
        \<and> cert_mark (w_store u) sn = (case cert_mark (w_store w) sn of
             None \<Rightarrow> Some (Some (w_clock w (w_tick w)), r) | Some m \<Rightarrow> Some m)
        \<and> (\<forall>sn'. sn' \<noteq> sn \<longrightarrow> live (w_store u) (serial_key sn') = live (w_store w) (serial_key sn')))
     (\<lambda>e u. w_store u = w_store w) w"
  unfolding revoke_def
  by (auto simp: run wp cert_mark_def cert_present_def split: option.split)

text \<open>The content of a list: its entries are the revoked certificates, its extension the
  numbers issued.\<close>

definition entry_of :: "deps \<Rightarrow> instant \<Rightarrow> certificate \<Rightarrow> revoked_entry \<Rightarrow> bool" where
  "entry_of D now c e \<longleftrightarrow> d_serial D (crt_serial c) = Inr (re_serial e)
     \<and> d_time D (case crt_revoked_at c of None \<Rightarrow> now | Some t \<Rightarrow> t) = Inr (re_date e)
     \<and> (crt_revocation_reason c = 0 \<longrightarrow> re_exts e = None)
     \<and> (crt_revocation_reason c \<noteq> 0 \<longrightarrow> (\<exists>x.
          extensions_crl_reason D (crt_revocation_reason c) = Inr x \<and> re_exts e = Some [x]))"

lemma crl_entry_of: "crl_entry D now c = Inr e \<Longrightarrow> entry_of D now c e"
  by (auto simp: crl_entry_def entry_of_def wp to_x509_time_def split: if_splits)

lemma crl_entries_of:
  "traverse (crl_entry D now) cs = Inr es \<Longrightarrow> list_all2 (entry_of D now) cs es"
  unfolding traverse_Inr by (erule list_all2_mono) (rule crl_entry_of)

definition lists_certificates ::
    "deps \<Rightarrow> instant \<Rightarrow> certificate list \<Rightarrow> serial list \<Rightarrow> tbs_crl \<Rightarrow> bool" where
  "lists_certificates D now revoked_certs issued tbs \<longleftrightarrow>
     (\<exists>entries exts issued_ext.
        list_all2 (entry_of D now) revoked_certs entries
        \<and> tc_revoked tbs = (if entries = [] then None else Some entries)
        \<and> tc_exts tbs = Some exts \<and> crl_issued_serials D issued = Inr issued_ext
        \<and> issued_ext \<in> set exts)"

lemma crl_content_lists:
  assumes "crl_content D I now tu nu rs n is = Inr tbs"
  shows "lists_certificates D now rs is tbs" and "tc_issuer tbs = x_subject (is_certificate I)"
    and "tc_this_update tbs = tu" and "tc_next_update tbs = Some nu"
proof -
  obtain entries ski x1 x2 x3 x4 where e: "traverse (crl_entry D now) rs = Inr entries"
    and i: "crl_issued_serials D is = Inr x3"
    and tbs: "tbs = unsigned_crl (x_subject (is_certificate I)) tu nu entries [x1, x2, x3, x4]"
    using assms by (auto simp: crl_content_def wp)
  show "lists_certificates D now rs is tbs"
    unfolding lists_certificates_def
    by (rule exI [of _ entries], rule exI [of _ "[x1, x2, x3, x4]"], rule exI [of _ x3])
      (simp add: crl_entries_of [OF e] tbs unsigned_crl_def i)
  show "tc_issuer tbs = x_subject (is_certificate I)" and "tc_this_update tbs = tu"
    and "tc_next_update tbs = Some nu"
    by (simp_all add: tbs unsigned_crl_def)
qed

lemma sign_crl_tbs:
  "sign_crl D signer sch tbs = Inr sc \<Longrightarrow>
     \<exists>alg. signature_algorithm D sch Sha256 = Inr alg \<and> sc_tbs sc = tbs\<lparr>tc_signature := alg\<rparr>
       \<and> sc_alg sc = alg"
  by (auto simp: sign_crl_def Let_def wp)


definition revoked_list :: "memory \<Rightarrow> certificate list" where
  "revoked_list s =
     sort_key crt_serial (filter (\<lambda>c. crt_status c = Revoked) (bt_values (m_certificates s)))"

definition issued_list :: "memory \<Rightarrow> serial list" where
  "issued_list s =
     sort (map crt_serial (filter (\<lambda>c. crt_status c \<noteq> Reserved) (bt_values (m_certificates s))))"

lemma issued_list_counter [simp]: "issued_list (s\<lparr>m_next_crl := n\<rparr>) = issued_list s"
  by (simp add: issued_list_def)

definition crl_states :: "deps \<Rightarrow> issuer \<Rightarrow> instant \<Rightarrow> memory \<Rightarrow> crl \<Rightarrow> bool" where
  "crl_states D I now s c \<longleftrightarrow> (\<exists>tbs sc. to_der (d_crl D) sc = Inr (rl_der c)
     \<and> sc_tbs sc = tbs\<lparr>tc_signature := sc_alg sc\<rparr>
     \<and> tc_issuer tbs = x_subject (is_certificate I)
     \<and> lists_certificates D now (revoked_list s) (issued_list s) tbs)"

lemma runs_publish_crl:
  "runs (publish_crl D I)
     (\<lambda>c v. rl_number c = m_next_crl (w_store w) + 1
        \<and> w_store v = (w_store w)\<lparr>m_next_crl := rl_number c, m_crls := m_crls (w_store w) @ [c]\<rparr>
        \<and> rl_this_update c = w_clock w (w_tick w)
        \<and> rl_next_update c = w_clock w (w_tick w) + is_crl_validity I
        \<and> crl_states D I (w_clock w (w_tick w)) (w_store w) c)
     (\<lambda>e v. w_store v = (w_store w)\<lparr>m_next_crl := m_next_crl (w_store v)\<rparr>
        \<and> m_next_crl (w_store w) \<le> m_next_crl (w_store v)) w"
proof -
  have "crl_states D I now s \<lparr>rl_number = n, rl_der = der, rl_this_update = now, rl_next_update = nu\<rparr>"
    if "crl_content D I now t u (revoked_list s) n (issued_list s) = Inr tbs"
      and "sign_crl D (is_signer I) (is_scheme I) tbs = Inr sc" and "to_der (d_crl D) sc = Inr der"
    for now s n der nu t u tbs sc
    using crl_content_lists [OF that(1)] sign_crl_tbs [OF that(2)] that(3)
    unfolding crl_states_def by auto
  then show ?thesis
    unfolding publish_crl_def Let_def
    by (auto simp: run wp revoked_list_def [symmetric] issued_list_def [symmetric])
qed

section \<open>A certificate of one of the profiles passes its check\<close>

text \<open>The dates of the crates: whole seconds, from 1970 on; the builder encodes the algorithm
  it is given.\<close>

definition times_ok :: "deps \<Rightarrow> bool" where
  "times_ok D \<longleftrightarrow> (\<forall>t s. d_time D t = Inr s \<longrightarrow> s = t div seconds 1 \<and> 0 \<le> t)
     \<and> (\<forall>n s. d_secs_time D n = Inr s \<longrightarrow> s = n)"

definition finalize_ok :: "deps \<Rightarrow> bool" where
  "finalize_ok D \<longleftrightarrow> (\<forall>b alg tbs. d_finalize D b alg = Inr tbs \<longrightarrow>
     (\<exists>d. to_der (d_alg D) alg = Inr d))"

definition deps_ok :: "deps \<Rightarrow> bool" where
  "deps_ok D \<longleftrightarrow> codecs_ok D \<and> builder_ok D \<and> times_ok D \<and> finalize_ok D"

lemma make_certificateD:
  assumes "deps_ok D" and "make_certificate D I csr cn p subject serial now = Inr cert"
  obtains ski parent_ski exts d where
    "issue_extensions D I p cn ski parent_ski now = Inr exts" and "x_exts cert = Some exts"
    and "d_time D (now - minutes 5) = Inr (x_not_before cert)"
    and "d_time D (now + pf_validity p) = Inr (x_not_after cert)"
    and "signature_algorithm D (is_scheme I) Sha256 = Inr (x_sig_alg cert)"
    and "to_der (d_alg D) (x_sig_alg cert) = Inr d"
    and "x_serial cert = serial" and "x_subject cert = subject"
    and "x_issuer cert = x_subject (is_certificate I)" and "x_spki cert = csr"
proof -
  have b: "builder_ok D" and f: "finalize_ok D" using assms(1) by (simp_all add: deps_ok_def)
  obtain nb na ski pski exts where
    m: "to_x509_time D (now - minutes 5) = Inr nb" "to_x509_time D (now + pf_validity p) = Inr na"
      "issue_extensions D I p cn ski pski now = Inr exts"
    and sw: "sign_with_token D (is_signer I) (is_scheme I)
       \<lparr>tb_subject = subject, tb_issuer = x_subject (is_certificate I), tb_exts = exts,
        tb_serial = serial, tb_not_before = nb, tb_not_after = na, tb_spki = csr\<rparr> = Inr cert"
      (is "sign_with_token _ _ _ ?b = _")
    using assms(2) by (auto simp: make_certificate_def wp)
  obtain alg tbs sig where a: "signature_algorithm D (is_scheme I) Sha256 = Inr alg"
      "d_finalize D ?b alg = Inr tbs" "d_assemble D ?b alg sig = Inr cert"
    using sw by (auto simp: sign_with_token_def wp)
  obtain d where d: "to_der (d_alg D) alg = Inr d" using f a(2) unfolding finalize_ok_def by blast
  show ?thesis
    using m a d builder_okD [OF b a(3)] by (intro that [of ski pski exts d]) (simp_all add: to_x509_time_def wp)
qed

lemma signature_passes:
  assumes "signature_algorithm D sch Sha256 = Inr a" and "to_der (d_alg D) a = Inr d"
  shows "check_signature_algorithm_id D subject a = Inr ()"
proof (cases sch)
  case Pkcs1v15
  then show ?thesis
    using assms(1) by (auto simp: signature_algorithm_def check_signature_algorithm_id_def
        OID_RSASSA_PSS_def check_signature_algorithm_def admitted_signature_algorithm_oids_def)
next
  case Pss
  then show ?thesis
    using assms pss_oid [of D Sha256 a] by (simp add: check_signature_algorithm_id_def)
qed

lemma seconds_shift: "(t + seconds k) div seconds 1 = t div seconds 1 + k"
  by (simp add: seconds_def)

lemma lifetime_passes:
  assumes "times_ok D" and "d_time D (now - minutes 5) = Inr nb"
    and "d_time D (now + seconds k) = Inr na" and "seconds (k + 300) \<le> cap"
  shows "check_certificate_lifetime subject (secs_to_instant nb) (secs_to_instant na) cap = Inr ()"
proof -
  have "nb = now div seconds 1 - 300" "na = now div seconds 1 + k"
    using assms(1-3) seconds_shift [of now "-300"] seconds_shift [of now k]
    by (auto simp: times_ok_def minutes_def seconds_def)
  then have "secs_to_instant na - secs_to_instant nb = seconds (k + 300)"
    by (simp add: secs_to_instant_def seconds_def algebra_simps)
  with assms(4) show ?thesis by (simp add: check_certificate_lifetime_def Let_def)
qed

lemma days_seconds: "days n = seconds (86400 * n)"
  by (simp add: duration_simps)

lemma build_ext_Inr: "build_ext target crit v = Inr e \<longleftrightarrow>
    (\<exists>b. v = Inr b \<and> e = \<lparr>ext_id = target, ext_critical = crit, ext_value = b\<rparr>)"
  by (auto simp: build_ext_def wp)

lemma private_key_usage_period_Inr:
  "private_key_usage_period D t = Inr e \<longleftrightarrow>
    (\<exists>s b. d_secs_time D (max (unix_timestamp t) 0) = Inr s
       \<and> to_der (d_key_period D) (None, Some s) = Inr b
       \<and> e = \<lparr>ext_id = OID_PRIVATE_KEY_USAGE_PERIOD, ext_critical = False, ext_value = b\<rparr>)"
  by (auto simp: private_key_usage_period_def build_ext_Inr wp)

lemmas ext_Inr = basic_constraints_def key_usage_ext_def subject_key_identifier_def
  authority_key_identifier_def extended_key_usage_def certificate_policy_def
  subject_alt_name_dns_def crl_distribution_point_def authority_info_access_def
  private_key_usage_period_Inr build_ext_Inr

lemma decoded:
  assumes "deps_ok D"
  shows "to_der (d_basic_constraints D) bc = Inr b \<Longrightarrow> from_der (d_basic_constraints D) b = Inr bc"
    and "to_der (d_key_usage D) ku = Inr b \<Longrightarrow> from_der (d_key_usage D) b = Inr ku"
    and "to_der (d_key_period D) kp = Inr b \<Longrightarrow> from_der (d_key_period D) b = Inr kp"
    and "to_der (d_eku D) eku = Inr b \<Longrightarrow> from_der (d_eku D) b = Inr eku"
    and "to_der (d_policies D) ps = Inr b \<Longrightarrow> from_der (d_policies D) b = Inr ps"
    and "to_der (d_alt_names D) ns = Inr b \<Longrightarrow> from_der (d_alt_names D) b = Inr ns"
  using assms by (auto simp: deps_ok_def codecs_ok_def dest: codec_okD)

lemma secs_mono: "a \<le> b \<Longrightarrow> secs_to_instant a \<le> secs_to_instant b"
  by (simp add: secs_to_instant_def seconds_def)

lemma Ex_Not [simp]: "Ex Not"
  by (rule exI [of _ False]) simp

lemma tsa_conforms:
  assumes D: "deps_ok D"
    and m: "make_certificate D I csr cn (tsa_signer D) subject serial now = Inr cert"
  shows "check_tsu_certificate D s cert = Inr ()"
proof -
  obtain ski parent_ski exts d where
    e: "issue_extensions D I (tsa_signer D) cn ski parent_ski now = Inr exts" "x_exts cert = Some exts"
    and t: "d_time D (now - minutes 5) = Inr (x_not_before cert)"
      "d_time D (now + pf_validity (tsa_signer D)) = Inr (x_not_after cert)"
    and a: "signature_algorithm D (is_scheme I) Sha256 = Inr (x_sig_alg cert)"
      "to_der (d_alg D) (x_sig_alg cert) = Inr d"
    using D m by (rule make_certificateD)
  have life: "check_certificate_lifetime s (secs_to_instant (x_not_before cert))
      (secs_to_instant (x_not_after cert)) MAX_END_ENTITY_LIFETIME = Inr ()"
    using t D by (intro lifetime_passes [where k = 63072000 and now = now])
      (simp_all add: deps_ok_def tsa_signer_def days_seconds MAX_END_ENTITY_LIFETIME_def seconds_def)
  have na: "x_not_after cert = now div seconds 1 + 63072000" and "0 \<le> now + seconds 63072000"
    using t(2) D seconds_shift [of now 63072000]
    by (auto simp: deps_ok_def times_ok_def tsa_signer_def days_seconds)
  have key: "unix_timestamp (now + days 365) = now div seconds 1 + 31536000"
    using seconds_shift [of now 31536000] by (simp add: unix_timestamp_def days_seconds)
  have end_of_key: "secs_to_instant k \<le> secs_to_instant (now div seconds 1 + 63072000)"
    if "d_secs_time D (max (unix_timestamp (now + days 365)) 0) = Inr k" for k
  proof -
    have "k = max (now div seconds 1 + 31536000) 0" using that D key by (auto simp: deps_ok_def times_ok_def)
    moreover have "0 \<le> now div seconds 1 + 63072000"
      using \<open>0 \<le> now + seconds 63072000\<close> seconds_shift [of now 63072000]
      by (metis pos_imp_zdiv_nonneg_iff seconds_def zero_less_one_class.zero_less_one mult_1 zero_less_numeral)
    ultimately have "k \<le> now div seconds 1 + 63072000" by simp
    then show ?thesis by (rule secs_mono)
  qed
  show ?thesis
    using e signature_passes [OF a, of s] life D na end_of_key
    by (auto simp: check_tsu_certificate_def Let_def issue_extensions_def tsa_signer_def wp ext_Inr
        demand_ext_def read_ext_def find_extension_def oid_defs tsu_private_key_not_after_def
        decoded [OF D])
qed

text \<open>The four profiles of ninety days share the signature and the lifetime.\<close>

lemma short_lived:
  assumes D: "deps_ok D" and "pf_validity p = days 90"
    and "make_certificate D I csr cn p subject serial now = Inr cert"
  obtains ski parent_ski exts where
    "issue_extensions D I p cn ski parent_ski now = Inr exts" "x_exts cert = Some exts"
    "check_signature_algorithm_id D s (x_sig_alg cert) = Inr ()"
    "check_certificate_lifetime s (secs_to_instant (x_not_before cert))
       (secs_to_instant (x_not_after cert)) MAX_OCSP_LIFETIME = Inr ()"
proof -
  obtain ski parent_ski exts d where
    e: "issue_extensions D I p cn ski parent_ski now = Inr exts" "x_exts cert = Some exts"
    and t: "d_time D (now - minutes 5) = Inr (x_not_before cert)"
      "d_time D (now + pf_validity p) = Inr (x_not_after cert)"
    and a: "signature_algorithm D (is_scheme I) Sha256 = Inr (x_sig_alg cert)"
      "to_der (d_alg D) (x_sig_alg cert) = Inr d"
    using D assms(3) by (rule make_certificateD)
  have "check_certificate_lifetime s (secs_to_instant (x_not_before cert))
       (secs_to_instant (x_not_after cert)) MAX_OCSP_LIFETIME = Inr ()"
    using t D assms(2) by (intro lifetime_passes [where k = 7776000 and now = now])
      (simp_all add: deps_ok_def days_seconds MAX_OCSP_LIFETIME_def seconds_def)
  with e signature_passes [OF a] show ?thesis by (rule that)
qed

lemma ocsp_conforms:
  assumes "deps_ok D" and "make_certificate D I csr cn (ocsp_responder D) subject serial now = Inr cert"
  shows "check_ocsp_responder_certificate D s cert = Inr ()"
proof (rule short_lived [OF assms(1) _ assms(2), of s])
  show "pf_validity (ocsp_responder D) = days 90" by (simp add: ocsp_responder_def)
qed (auto simp: check_ocsp_responder_certificate_def issue_extensions_def ocsp_responder_def wp ext_Inr
    ocsp_no_check_def demand_ext_def read_ext_def find_extension_def oid_defs decoded [OF assms(1)])

lemma internal_conforms:
  assumes "deps_ok D" and p: "p \<in> {internal_client D, enroll_client D, internal_server D}"
    and m: "make_certificate D I csr cn p subject serial now = Inr cert"
    and "pf_eku p = [eku]" and "pf_policy_oid p = Some policy"
  shows "check_internal_certificate D s cert eku policy = Inr ()"
proof (rule short_lived [OF assms(1) _ m, of s])
  show "pf_validity p = days 90" using p by (auto simp: profile_defs)
  fix ski parent_ski exts
  assume "issue_extensions D I p cn ski parent_ski now = Inr exts" "x_exts cert = Some exts"
    "check_signature_algorithm_id D s (x_sig_alg cert) = Inr ()"
    "check_certificate_lifetime s (secs_to_instant (x_not_before cert))
       (secs_to_instant (x_not_after cert)) MAX_OCSP_LIFETIME = Inr ()"
  then show ?thesis
    using p assms(4,5)
    by (auto simp: check_internal_certificate_def MAX_INTERNAL_LIFETIME_def issue_extensions_def
        profile_defs wp ext_Inr demand_ext_def read_ext_def find_extension_def oid_defs
        has_certificate_policy_def decoded [OF assms(1)])
qed

lemma server_names:
  assumes "deps_ok D" and "make_certificate D I csr cn (internal_server D) subject serial now = Inr cert"
  shows "dns_names D cert = [cn]"
proof (rule short_lived [OF assms(1) _ assms(2)])
  show "pf_validity (internal_server D) = days 90" by (simp add: internal_server_def)
qed (auto simp: dns_names_def issue_extensions_def internal_server_def wp ext_Inr find_extension_def
    oid_defs map_filter_def decoded [OF assms(1)])

lemma own_profile_passes:
  assumes D: "deps_ok D" and n: "profile_by_name D name = Inr p"
    and m: "make_certificate D I csr cn p subject serial now = Inr cert"
  shows "pf_check p s cert = Inr ()"
  using n
proof (cases rule: profile_by_name_cases)
  case 1
  then show ?thesis using tsa_conforms [OF D] m by (simp add: tsa_signer_def)
next
  case 2
  then show ?thesis using ocsp_conforms [OF D] m by (simp add: ocsp_responder_def)
next
  case 3
  then show ?thesis
    using internal_conforms [OF D _ m, of OID_EKU_CLIENT_AUTH OID_POLICY_INTERNAL_CLIENT s]
    by (simp add: internal_client_def check_internal_client_certificate_def)
next
  case 4
  then show ?thesis
    using internal_conforms [OF D _ m, of OID_EKU_SERVER_AUTH OID_POLICY_INTERNAL_SERVER s]
      server_names [OF D] m
    by (simp add: internal_server_def check_internal_server_certificate_def)
next
  case 5
  then show ?thesis
    using internal_conforms [OF D _ m, of OID_EKU_CLIENT_AUTH OID_POLICY_ENROLL_CLIENT s]
    by (simp add: enroll_client_def check_enroll_client_certificate_def)
qed

section \<open>Properties\<close>

text \<open>The issuer, the world and the certificate of the witnesses.\<close>

definition sample_ca_certificate :: x509 where
  "sample_ca_certificate = \<lparr>x_serial = [0x81], x_issuer = [(''2.5.4.3'', ''Root'')],
     x_subject = [(''2.5.4.3'', ''Issuing'')], x_not_before = 0, x_not_after = 1000000000,
     x_spki = [1, 2, 3], x_exts = Some [], x_sig_alg = sample_alg, x_signature = []\<rparr>"

definition sample_issuer :: issuer where
  "sample_issuer = \<lparr>is_signer = sample_token, is_certificate = sample_ca_certificate, is_chain = [],
     is_public_url = ''http://ca'', is_ocsp_url = Some ''http://ocsp'', is_crl_validity = days 7,
     is_recorder = True, is_scheme = Pkcs1v15\<rparr>"

definition sample_world :: "memory \<Rightarrow> ca_world" where
  "sample_world s = \<lparr>w_store = s, w_journal = \<lparr>j_entries = [], j_tries = 0, j_outage = (\<lambda>_. None)\<rparr>,
     w_clock = (\<lambda>n. seconds 1000), w_tick = 0, w_rand = (\<lambda>n. of_nat n), w_draws = 0\<rparr>"

lemma sample_world_store [simp]: "w_store (sample_world s) = s"
  by (simp add: sample_world_def)

definition sample_issue :: "(ca_error + x509) \<times> ca_world" where
  "sample_issue = issue sample_deps (\<lambda>_. []) sample_issuer [5, 6] ''tsu-1'' (tsa_signer sample_deps)
     ''tx'' (sample_world memory_new)"

lemma sample_deps_ok: "deps_ok sample_deps"
  by (simp add: deps_ok_def sample_codecs_ok sample_builder_ok times_ok_def finalize_ok_def)
    (simp add: sample_deps_def table_codec_def)

lemma sample_issue_ok:
  "\<not> isl (fst sample_issue)"
  by code_simp

text \<open>C10. Issuing. On success the register has exactly one certificate more, under a serial
  number that none had, made from the request with the issuer's name, checked by the rules of
  its profile, and the last entry of the journal names that serial number and that request; on
  any error the issued certificates are what they were.\<close>

theorem issue_outcome:
  assumes "issue D wording I csr cn p tx w = (r, v)"
  shows "case r of
      Inr cert \<Rightarrow> (\<exists>c. live (w_store w) (serial_key (crt_serial c)) = None
        \<and> live (w_store v) = (live (w_store w))(serial_key (crt_serial c) \<mapsto> c)
        \<and> issued_by D I csr cn p tx cert c
        \<and> (is_recorder I \<longrightarrow> (\<exists>data. j_entries (w_journal v)
             = j_entries (w_journal w) @ [(''ca.certificate_issued'', data)]
             \<and> j_get data ''serie'' = Some (JStr (hex_encode (crt_serial c)))
             \<and> j_get data ''demande'' = Some (JStr tx))))
    | Inl e \<Rightarrow> live (w_store v) = live (w_store w)"
  using runs_issue [of D wording I csr cn p tx w] assms
  by (simp add: runs_def same_issued_def split: sum.splits)

lemma issue_outcome_witness:
  "\<exists>c. live (w_store (snd sample_issue)) = (live memory_new)(serial_key (crt_serial c) \<mapsto> c)"
proof -
  obtain cert where cert: "fst sample_issue = Inr cert"
    using sample_issue_ok by (cases "fst sample_issue") auto
  have "issue sample_deps (\<lambda>_. []) sample_issuer [5, 6] ''tsu-1'' (tsa_signer sample_deps)
     ''tx'' (sample_world memory_new) = (fst sample_issue, snd sample_issue)"
    by (simp add: sample_issue_def)
  from issue_outcome [OF this] show ?thesis by (auto simp: cert)
qed

lemma issue_extensions_err:
  assumes "issue_extensions D I p cn ski pski now = Inl e"
  shows "\<exists>d. e = CaDer d"
  using traverse_Inl [OF assms [unfolded issue_extensions_def Let_def]]
  by (auto simp: ext_defs Inl_sbind wp split: if_splits option.splits)

lemma make_certificate_err:
  assumes "make_certificate D I csr cn p subject serial now = Inl e"
  shows "e \<noteq> CaOther (NonConforming reason)"
  using assms
  by (auto simp: make_certificate_def wp to_x509_time_def subject_key_id_def sign_with_token_def
      dest: issue_extensions_err)

lemma errs_world [errors]:
  "errs P now_utc" "errs P (fill_bytes n)"
  "(\<And>e. P (CaStore e)) \<Longrightarrow> errs P (store_call m)"
  "(\<And>e. P (CaOther (JournalDown e))) \<Longrightarrow> errs P (record_event b ev data)"
  by (auto simp: errs_def now_utc_def fill_bytes_def store_call_def record_event_def wp)

lemma errs_reserve [errors]:
  assumes "\<And>d. P (CaDer d)" and "\<And>d. P (CaStore d)" and "P (CaOther (SerialCollisions 5 128))"
  shows "errs P (reserve_attempts D n p)"
proof (induction n)
  case (Suc n)
  then show ?case using assms by (auto intro!: errors simp: wp split: store_error.split)
qed (auto intro: errors assms)

lemma errs_not_revoked [errors]:
  "(\<And>d. P (CaDer d)) \<Longrightarrow> (\<And>d. P (CaStore d)) \<Longrightarrow> P (CaOther IssuerRevoked) \<Longrightarrow>
     errs P (ensure_not_revoked D I)"
  unfolding ensure_not_revoked_def by (auto intro!: errors simp: wp)

text \<open>C11. The five profiles conform by construction: with encoders that decode what they
  encoded, a builder that keeps its fields and dates in whole seconds, a certificate made from
  one of them passes the check of that profile, so that no issuance from them ever ends in
  \<open>ca.issuance_refused\<close>.\<close>

theorem own_profiles_never_refused:
  assumes "deps_ok D" and "profile_by_name D name = Inr p"
    and "issue D wording I csr cn p tx w = (Inl e, v)"
  shows "e \<noteq> CaOther (NonConforming reason)"
proof -
  have "errs (\<lambda>e. e \<noteq> CaOther (NonConforming reason)) (issue D wording I csr cn p tx)"
    unfolding issue_def Let_def reserve_new_serial_def
    by ((rule errs_lift_bindr)
      | (force simp: wp build_subject_def dest: make_certificate_err)
      | (drule own_profile_passes [OF assms(1,2), where s = "check_subject p cn"]; simp; fail)
      | rule errors allI impI)+
  then show ?thesis using assms(3) by (rule errsD)
qed

definition sample_world_down :: ca_world where
  "sample_world_down = sample_world memory_new\<lparr>w_journal :=
     \<lparr>j_entries = [], j_tries = 0, j_outage = (\<lambda>_. Some ''unreachable'')\<rparr>\<rparr>"

definition sample_refusal :: "(ca_error + x509) \<times> ca_world" where
  "sample_refusal = issue sample_deps (\<lambda>_. []) sample_issuer [5, 6] ''tsu-1'' (tsa_signer sample_deps)
     ''tx'' sample_world_down"

lemma own_profiles_never_refused_witness:
  "\<exists>e. fst sample_refusal = Inl e \<and> (\<forall>reason. e \<noteq> CaOther (NonConforming reason))"
proof -
  have "isl (fst sample_refusal)" by code_simp
  then obtain e where e: "fst sample_refusal = Inl e" by (cases "fst sample_refusal") auto
  have "issue sample_deps (\<lambda>_. []) sample_issuer [5, 6] ''tsu-1'' (tsa_signer sample_deps) ''tx''
      sample_world_down = (Inl e, snd sample_refusal)"
    using e by (metis prod.collapse sample_refusal_def)
  moreover have "profile_by_name sample_deps ''tsa_signer'' = Inr (tsa_signer sample_deps)"
    by (simp add: profile_by_name_def)
  ultimately show ?thesis using own_profiles_never_refused [OF sample_deps_ok] e by blast
qed

text \<open>C13. Revoking. It succeeds only for a named operator, for one of the admitted reasons, with
  a comment when the way is the command line, and for a certificate that was issued; then the
  certificate carries its first revocation (this one, unless it had one), and no other changes.
  When it fails, for whatever reason, the register is unchanged.\<close>

theorem revoke_outcome:
  assumes "revoke D I sn r oper com v w = (res, u)"
  shows "case res of
      Inr _ \<Rightarrow> oper \<noteq> [] \<and> r \<in> set ALLOWED_REVOCATION_REASONS
        \<and> check_comment v com = Inr () \<and> cert_present (w_store w) sn
        \<and> cert_mark (w_store u) sn = (case cert_mark (w_store w) sn of
             None \<Rightarrow> Some (Some (w_clock w (w_tick w)), r) | Some m \<Rightarrow> Some m)
        \<and> (\<forall>sn'. sn' \<noteq> sn \<longrightarrow> live (w_store u) (serial_key sn') = live (w_store w) (serial_key sn'))
    | Inl e \<Rightarrow> w_store u = w_store w"
  using runs_revoke [of D I sn r oper com v w] assms
  by (simp add: runs_def split: sum.splits)

lemma revoke_outcome_witness:
  "w_store (snd (revoke sample_deps sample_issuer [0x81] 0 ''alice'' [] WebAuthn
      (sample_world sample_memory))) = sample_memory"
proof -
  have "fst (revoke sample_deps sample_issuer [0x81] 0 ''alice'' [] WebAuthn
      (sample_world sample_memory)) = Inl (CaOther (ReasonRefused 0))"
    by (simp add: revoke_def run_defs ALLOWED_REVOCATION_REASONS_def)
  then show ?thesis
    using revoke_outcome [OF prod.collapse [symmetric]] by (fastforce split: sum.splits)
qed

definition crl_numbers_ok :: "memory \<Rightarrow> bool" where
  "crl_numbers_ok s \<longleftrightarrow> (\<forall>l \<in> set (m_crls s). rl_number l \<le> m_next_crl s)"

lemma crl_numbers_drawn: "crl_numbers_ok s \<longleftrightarrow> crl_stream.drawn_only s"
  by (simp add: crl_numbers_ok_def crl_stream.drawn_only_def)

lemma published_is_current:
  assumes "crl_numbers_ok s" and "rl_number c = m_next_crl s + 1"
    and "t = s\<lparr>m_next_crl := rl_number c, m_crls := m_crls s @ [c]\<rparr>"
  shows "fst (latest_crl t) = Inr c \<and> crl_numbers_ok t"
proof -
  have "(next_crl_number s :: (store_error + int) \<times> memory) =
      (Inr (m_next_crl s + 1), s\<lparr>m_next_crl := m_next_crl s + 1\<rparr>)"
    by (simp add: next_crl_number_def)
  moreover have "t = snd (save_crl c (s\<lparr>m_next_crl := m_next_crl s + 1\<rparr>) :: (store_error + unit) \<times> memory)"
    using assms(2,3) by (simp add: save_crl_def modify_def)
  ultimately show ?thesis
    using crl_stream.publish_is_latest [OF assms(1) [unfolded crl_numbers_drawn] _ assms(2)]
    by (simp add: crl_numbers_drawn)
qed

text \<open>C12. Publishing. The list that is published is numbered just above every number drawn before,
  becomes the current list, names exactly the revoked certificates (in the order of their
  numbers, each with its date and reason), and carries in its extension exactly the numbers
  issued; the certificates are not touched. When publishing fails no list is added.\<close>

theorem publish_crl_outcome:
  assumes "crl_numbers_ok (w_store w)" and "publish_crl D I w = (res, v)"
  shows "crl_numbers_ok (w_store v) \<and> m_certificates (w_store v) = m_certificates (w_store w)
    \<and> (case res of
        Inr c \<Rightarrow> (\<forall>l \<in> set (m_crls (w_store w)). rl_number l < rl_number c)
          \<and> fst (latest_crl (w_store v)) = Inr c
          \<and> crl_states D I (rl_this_update c) (w_store w) c
      | Inl e \<Rightarrow> m_crls (w_store v) = m_crls (w_store w))"
proof (cases res)
  case (Inl e)
  then have "publish_crl D I w = (Inl e, v)" using assms(2) by simp
  from runs_errD [OF runs_publish_crl this]
  obtain n where "w_store v = (w_store w)\<lparr>m_next_crl := n\<rparr>" and "m_next_crl (w_store w) \<le> n"
    by blast
  with assms(1) Inl show ?thesis by (force simp: crl_numbers_ok_def)
next
  case (Inr c)
  then have "publish_crl D I w = (Inr c, v)" using assms(2) by simp
  note c = runs_okD [OF runs_publish_crl this]
  have "fst (latest_crl (w_store v)) = Inr c \<and> crl_numbers_ok (w_store v)"
    by (rule published_is_current [OF assms(1)]) (use c in auto)
  moreover have "\<forall>l \<in> set (m_crls (w_store w)). rl_number l < rl_number c"
    using c assms(1) by (force simp: crl_numbers_ok_def)
  ultimately show ?thesis using c Inr by simp
qed

definition sample_publication :: "(ca_error + crl) \<times> ca_world" where
  "sample_publication = publish_crl sample_deps sample_issuer (sample_world sample_memory)"

lemma publish_crl_outcome_witness:
  "\<exists>c. fst sample_publication = Inr c \<and> rl_number c = 1
     \<and> fst (latest_crl (w_store (snd sample_publication))) = Inr c
     \<and> crl_states sample_deps sample_issuer (rl_this_update c) sample_memory c"
proof -
  have n: "\<not> isl (fst sample_publication) \<and> rl_number (projr (fst sample_publication)) = 1"
    by code_simp
  then obtain c where c: "fst sample_publication = Inr c" by (cases "fst sample_publication") auto
  have "publish_crl sample_deps sample_issuer (sample_world sample_memory)
      = (fst sample_publication, snd sample_publication)"
    by (simp add: sample_publication_def)
  from publish_crl_outcome [OF _ this] have "fst (latest_crl (w_store (snd sample_publication))) = Inr c
     \<and> crl_states sample_deps sample_issuer (rl_this_update c) sample_memory c"
    by (simp add: c crl_numbers_ok_def) (simp add: sample_memory_def memory_new_def)
  with c n show ?thesis by simp
qed

end
