(* ===== verification/Root_Authority.thy ===== *)
theory Root_Authority
  imports Issuer
begin

text \<open>
  What is done with the key of the root: \<open>crates/oe-ca-core/src/root.rs\<close> (revoking a
  subordinate authority, publishing the list of revoked authorities) and
  \<open>crates/oe-ca-core/src/ceremony.rs\<close> (creating the hierarchy once, reading it back
  afterwards).
\<close>

definition AUTHORITY_ROOT :: string where "AUTHORITY_ROOT = ''root''"
definition AUTHORITY_ISSUING :: string where "AUTHORITY_ISSUING = ''issuing''"

section \<open>The root\<close>

record root_authority =
  ro_signer :: token
  ro_certificate :: x509
  ro_arl_validity :: duration
  ro_recorder :: bool
  ro_scheme :: scheme

definition arl_entry :: "deps \<Rightarrow> instant \<Rightarrow> authority \<Rightarrow> ca_error + revoked_entry" where
  "arl_entry D now a =
     sbind (or_else_err CaDer (from_der (d_cert D) (au_der a))) (\<lambda>cert.
     sbind (if au_revocation_reason a \<noteq> 0
            then sbind (extensions_crl_reason D (au_revocation_reason a)) (\<lambda>e. Inr [e])
            else Inr []) (\<lambda>exts.
     sbind (to_x509_time D (case au_revoked_at a of None \<Rightarrow> now | Some t \<Rightarrow> t)) (\<lambda>date.
     Inr \<lparr>re_serial = x_serial cert, re_date = date,
          re_exts = (if exts = [] then None else Some exts)\<rparr>)))"

definition arl_content ::
    "deps \<Rightarrow> root_authority \<Rightarrow> instant \<Rightarrow> int \<Rightarrow> int \<Rightarrow> authority list \<Rightarrow> int \<Rightarrow> ca_error + tbs_crl" where
  "arl_content D R now this_update next_update revoked_as number =
     sbind (traverse (arl_entry D now) revoked_as) (\<lambda>entries.
     sbind (subject_key_id D (x_spki (ro_certificate R))) (\<lambda>ski.
     sbind (traverse (\<lambda>e. e) [crl_number D number, authority_key_identifier D ski,
              expired_certs_on_crl D (x_not_before (ro_certificate R))]) (\<lambda>exts.
     Inr (unsigned_crl (x_subject (ro_certificate R)) this_update next_update entries exts))))"

definition publish_arl :: "deps \<Rightarrow> root_authority \<Rightarrow> ('x, arl) ca" where
  "publish_arl D R =
     bindr now_utc (\<lambda>now.
     bindr (store_call revoked_authorities) (\<lambda>revoked_as.
     bindr (store_call next_arl_number) (\<lambda>number.
     bindr (lift (to_x509_time D (now - minutes 1))) (\<lambda>this_update.
     bindr (lift (to_x509_time D (now + ro_arl_validity R))) (\<lambda>next_update.
     bindr (lift (arl_content D R now this_update next_update revoked_as number)) (\<lambda>tbs.
     bindr (lift (sign_crl D (ro_signer R) (ro_scheme R) tbs)) (\<lambda>sc.
     bindr (lift (or_else_err CaDer (to_der (d_crl D) sc))) (\<lambda>der.
     let a = \<lparr>rl_number = number, rl_der = der, rl_this_update = now,
              rl_next_update = now + ro_arl_validity R\<rparr> in
     bindr (record_event (ro_recorder R) ''ca.arl_published'' (JObj
       [(''numero'', JNum number), (''entrees'', JNum (int (length revoked_as))),
        (''prochaine_maj'', JStr (d_rfc3339 D (rl_next_update a)))])) (\<lambda>_.
     bindr (store_call (save_arl a)) (\<lambda>_.
     ok a))))))))))"

definition authority_event ::
    "deps \<Rightarrow> string \<Rightarrow> authority \<Rightarrow> int \<Rightarrow> string \<Rightarrow> string \<Rightarrow> instant \<Rightarrow> via \<Rightarrow> json" where
  "authority_event D name a reason operator comment at via = annotate via (JObj
     [(''autorite'', JStr name), (''sujet'', JStr (au_subject_dn a)), (''motif'', JNum reason),
      (''operateur'', JStr operator), (''commentaire'', JStr comment),
      (''date'', JStr (d_rfc3339 D at))])"

definition revoke_authority ::
    "deps \<Rightarrow> root_authority \<Rightarrow> string \<Rightarrow> int \<Rightarrow> string \<Rightarrow> string \<Rightarrow> via \<Rightarrow> ('x, arl) ca" where
  "revoke_authority D R name reason operator comment via =
     bindr (ensure (operator \<noteq> []) (CaOther OperatorRequired)) (\<lambda>_.
     bindr (lift (or_else_err (\<lambda>_. CaOther CommentMissing) (check_comment via comment))) (\<lambda>_.
     bindr (ensure (name \<noteq> AUTHORITY_ROOT) (CaOther RootCannotRevokeItself)) (\<lambda>_.
     bindr (store_call (get_authority name)) (\<lambda>a.
     bindr now_utc (\<lambda>at.
     bindr (record_event (ro_recorder R) ''ca.authority_revoked''
              (authority_event D name a reason operator comment at via)) (\<lambda>_.
     bindr (store_call (store_revoke_authority name at reason)) (\<lambda>_.
     publish_arl D R)))))))"

section \<open>The ceremony\<close>

record ceremony =
  cy_root_signer :: token
  cy_issuing_signer :: token
  cy_root_cn :: string
  cy_issuing_cn :: string
  cy_organization :: string
  cy_country :: string
  cy_root_validity :: duration
  cy_issuing_validity :: duration
  cy_root_token_label :: string
  cy_root_key_label :: string
  cy_issuing_token_label :: string
  cy_issuing_key_label :: string
  cy_operator :: string
  cy_recorder :: bool
  cy_public_url :: string
  cy_scheme :: scheme

record hierarchy =
  hi_root :: x509
  hi_issuing :: x509
  hi_created :: bool

definition load_hierarchy :: "deps \<Rightarrow> ('x, hierarchy option) ca" where
  "load_hierarchy D =
     bindr (attempt (on_store (get_authority AUTHORITY_ROOT))) (\<lambda>r.
     case r of
       Inl NotFound \<Rightarrow> ok None
     | Inl e \<Rightarrow> fail (CaStore e)
     | Inr root \<Rightarrow>
     bindr (attempt (on_store (get_authority AUTHORITY_ISSUING))) (\<lambda>r'.
     case r' of
       Inl NotFound \<Rightarrow> ok None
     | Inl e \<Rightarrow> fail (CaStore e)
     | Inr issuing \<Rightarrow>
     bindr (lift (or_else_err CaDer (from_der (d_cert D) (au_der root)))) (\<lambda>rc.
     bindr (lift (or_else_err CaDer (from_der (d_cert D) (au_der issuing)))) (\<lambda>ic.
     ok (Some \<lparr>hi_root = rc, hi_issuing = ic, hi_created = False\<rparr>)))))"

definition or_default :: "string \<Rightarrow> string \<Rightarrow> string" where
  "or_default s d = (if s = [] then d else s)"

definition random_serial :: "('x ca_world_scheme, 'e, bytes) res" where
  "random_serial = bindr (fill_bytes 16) (\<lambda>drawn. ok (serial_bytes_of drawn))"

definition sign_root :: "deps \<Rightarrow> ceremony \<Rightarrow> instant \<Rightarrow> ('x, x509) ca" where
  "sign_root D o1 now =
     (let root_cn = or_default (cy_root_cn o1) ''Open eIDAS Root CA'';
          organization = or_default (cy_organization o1) ''Open eIDAS'';
          country = or_default (cy_country o1) ''FR'';
          validity = (if cy_root_validity o1 = 0 then days (20 * 365) else cy_root_validity o1) in
     bindr (lift (build_subject D root_cn [] organization country)) (\<lambda>subject.
     bindr (lift (or_else_err CaSigning (tk_public_key (cy_root_signer o1)))) (\<lambda>spki_der.
     bindr (lift (subject_key_id D spki_der)) (\<lambda>ski.
     bindr (lift (traverse (\<lambda>e. e) [basic_constraints D True (Some 1),
              key_usage_ext D {KeyCertSign, CRLSign}, subject_key_identifier D ski])) (\<lambda>exts.
     bindr (lift (to_x509_time D (now - minutes 5))) (\<lambda>not_before.
     bindr (lift (to_x509_time D (now + validity))) (\<lambda>not_after.
     bindr random_serial (\<lambda>drawn.
     bindr (lift (or_else_err CaDer (d_serial D drawn))) (\<lambda>serial.
     lift (sign_with_token D (cy_root_signer o1) (cy_scheme o1)
       \<lparr>tb_subject = subject, tb_issuer = subject, tb_exts = exts, tb_serial = serial,
        tb_not_before = not_before, tb_not_after = not_after, tb_spki = spki_der\<rparr>))))))))))"

definition sign_issuing :: "deps \<Rightarrow> ceremony \<Rightarrow> instant \<Rightarrow> x509 \<Rightarrow> ('x, x509) ca" where
  "sign_issuing D o1 now root =
     (let issuing_cn = or_default (cy_issuing_cn o1) ''Open eIDAS Issuing CA'';
          organization = or_default (cy_organization o1) ''Open eIDAS'';
          country = or_default (cy_country o1) ''FR'';
          validity = (if cy_issuing_validity o1 = 0 then days (10 * 365) else cy_issuing_validity o1);
          root_not_after = secs_to_instant (x_not_after root);
          root_file = d_file_name D (common_name root) in
     bindr (lift (build_subject D issuing_cn [] organization country)) (\<lambda>subject.
     bindr (lift (or_else_err CaSigning (tk_public_key (cy_issuing_signer o1)))) (\<lambda>spki_der.
     bindr (lift (subject_key_id D spki_der)) (\<lambda>ski.
     bindr (lift (subject_key_id D (x_spki root))) (\<lambda>root_ski.
     bindr (lift (to_x509_time D (now - minutes 5))) (\<lambda>not_before.
     bindr (lift (to_x509_time D (min (now + validity) root_not_after))) (\<lambda>not_after.
     bindr (lift (traverse (\<lambda>e. e)
       ([basic_constraints D True (Some 0), key_usage_ext D {KeyCertSign, CRLSign},
         subject_key_identifier D ski, authority_key_identifier D root_ski]
        @ (if cy_public_url o1 \<noteq> [] then
             [crl_distribution_point D (cy_public_url o1 @ ''/download/'' @ root_file @ ''.arl''),
              authority_info_access D
                (Some (cy_public_url o1 @ ''/download/'' @ root_file @ ''.cer'')) None]
           else [])))) (\<lambda>exts.
     bindr random_serial (\<lambda>drawn.
     bindr (lift (or_else_err CaDer (d_serial D drawn))) (\<lambda>serial.
     lift (sign_with_token D (cy_root_signer o1) (cy_scheme o1)
       \<lparr>tb_subject = subject, tb_issuer = x_subject root, tb_exts = exts, tb_serial = serial,
        tb_not_before = not_before, tb_not_after = not_after, tb_spki = spki_der\<rparr>)))))))))))"

definition ceremony_event :: "deps \<Rightarrow> ceremony \<Rightarrow> instant \<Rightarrow> x509 \<Rightarrow> bytes \<Rightarrow> x509 \<Rightarrow> bytes \<Rightarrow> json" where
  "ceremony_event D o1 now root root_der issuing issuing_der = JObj
     [(''operateur'', JStr (cy_operator o1)), (''date'', JStr (d_rfc3339 D now)),
      (''racine_sujet'', JStr (d_name_text D (x_subject root))),
      (''racine_serie'', JStr (hex_encode (canonical_serial (x_serial root)))),
      (''racine_empreinte'', JStr (hex_encode (d_sha256 D root_der))),
      (''racine_token'', JStr (cy_root_token_label o1)),
      (''emettrice_sujet'', JStr (d_name_text D (x_subject issuing))),
      (''emettrice_serie'', JStr (hex_encode (canonical_serial (x_serial issuing)))),
      (''emettrice_empreinte'', JStr (hex_encode (d_sha256 D issuing_der))),
      (''emettrice_token'', JStr (cy_issuing_token_label o1))]"

definition new_authority :: "deps \<Rightarrow> string \<Rightarrow> x509 \<Rightarrow> bytes \<Rightarrow> string \<Rightarrow> string \<Rightarrow> instant \<Rightarrow> authority" where
  "new_authority D name cert der token_label key_label now =
     \<lparr>au_name = name, au_subject_dn = d_name_text D (x_subject cert), au_der = der,
      au_token_label = token_label, au_key_label = key_label, au_created_at = now,
      au_revoked_at = None, au_revocation_reason = 0\<rparr>"

definition run_ceremony :: "deps \<Rightarrow> ceremony \<Rightarrow> ('x, hierarchy) ca" where
  "run_ceremony D o1 =
     bindr (ensure (cy_operator o1 \<noteq> []) (CaOther OperatorRequired)) (\<lambda>_.
     bindr (load_hierarchy D) (\<lambda>loaded.
     case loaded of
       Some existing \<Rightarrow>
         bindr (lift (or_else_err (\<lambda>e. CaOther (RootKeyDiffers e))
           (matches_signer (x_spki (hi_root existing)) (cy_root_signer o1)))) (\<lambda>_.
         bindr (lift (or_else_err (\<lambda>e. CaOther (IssuingKeyDiffers e))
           (matches_signer (x_spki (hi_issuing existing)) (cy_issuing_signer o1)))) (\<lambda>_.
         ok (existing\<lparr>hi_created := False\<rparr>)))
     | None \<Rightarrow>
         bindr now_utc (\<lambda>now.
         bindr (sign_root D o1 now) (\<lambda>root.
         bindr (sign_issuing D o1 now root) (\<lambda>issuing.
         bindr (if cy_recorder o1 then
                  bindr (lift (or_else_err CaDer (to_der (d_cert D) root))) (\<lambda>root_der.
                  bindr (lift (or_else_err CaDer (to_der (d_cert D) issuing))) (\<lambda>issuing_der.
                  record_event True ''ca.ceremony''
                    (ceremony_event D o1 now root root_der issuing issuing_der)))
                else ok ()) (\<lambda>_.
         bindr (lift (or_else_err CaDer (to_der (d_cert D) root))) (\<lambda>root_der.
         bindr (lift (or_else_err CaDer (to_der (d_cert D) issuing))) (\<lambda>issuing_der.
         bindr (foreach
           [new_authority D AUTHORITY_ROOT root root_der (cy_root_token_label o1) (cy_root_key_label o1) now,
            new_authority D AUTHORITY_ISSUING issuing issuing_der (cy_issuing_token_label o1)
              (cy_issuing_key_label o1) now]
           (\<lambda>a. store_call (save_authority a))) (\<lambda>_.
         ok \<lparr>hi_root = root, hi_issuing = issuing, hi_created = True\<rparr>)))))))))"

section \<open>Which calls touch the authorities\<close>

definition on_authorities :: "((string, authority) btree \<Rightarrow> bool) \<Rightarrow> 'x ca_world_scheme \<Rightarrow> bool" where
  "on_authorities P w = P (m_authorities (w_store w))"

lemma keeps_on_authorities_world [pres]:
  "keeps (on_authorities P) now_utc" "keeps (on_authorities P) (fill_bytes n)"
  "keeps (on_authorities P) (record_event b ev data)"
  by (simp_all add: keeps_runs run on_authorities_def)

lemma keeps_on_authorities_store [pres]:
  "keeps (on_authorities P) (on_store (reserve_serial sn p))"
  "keeps (on_authorities P) (store_call (save_certificate c))"
  "keeps (on_authorities P) (store_call (get_certificate sn))"
  "keeps (on_authorities P) (store_call (store_revoke sn d r))"
  "keeps (on_authorities P) (store_call revoked)"
  "keeps (on_authorities P) (store_call issued_serials)"
  "keeps (on_authorities P) (store_call revoked_authorities)"
  "keeps (on_authorities P) (store_call (get_authority n))"
  "keeps (on_authorities P) (on_store (get_authority n))"
  "keeps (on_authorities P) (store_call next_crl_number)"
  "keeps (on_authorities P) (store_call (save_crl l))"
  "keeps (on_authorities P) (store_call next_arl_number)"
  "keeps (on_authorities P) (store_call (save_arl l))"
  by (simp_all add: keeps_runs run on_authorities_def split: option.split)

lemma keeps_on_authorities_attempts [pres]: "keeps (on_authorities P) (reserve_attempts D n p)"
proof (induction n)
  case (Suc n)
  then show ?case by (auto intro!: pres split: store_error.split)
qed (auto intro: pres)

lemma keeps_on_authorities_handlers [pres]:
  "keeps (on_authorities P) (issue D wording I csr cn p tx)"
  "keeps (on_authorities P) (revoke D I sn r oper com v)"
  "keeps (on_authorities P) (publish_crl D I)"
  "keeps (on_authorities P) (publish_arl D R)"
  by (auto simp: issue_def revoke_def publish_crl_def publish_arl_def Let_def ensure_not_revoked_def
      reserve_new_serial_def intro!: pres)

text \<open>A revocation on record is not undone by another.\<close>

definition revoked_as :: "string \<Rightarrow> bytes \<Rightarrow> (string, authority) btree \<Rightarrow> bool" where
  "revoked_as name der m \<longleftrightarrow> (\<exists>a. bt_get m name = Some a \<and> au_der a = der \<and> au_revoked_at a \<noteq> None)
     \<and> bt_get m AUTHORITY_ROOT \<noteq> None"

lemma keeps_revoked_as_revoke [pres]:
  "keeps (on_authorities (revoked_as name der)) (revoke_authority D R n r oper com v)"
proof -
  have "keeps (on_authorities (revoked_as name der)) (store_call (store_revoke_authority n d r))"
    for d
    by (auto simp: keeps_runs run on_authorities_def revoked_as_def split: option.split)
  then show ?thesis unfolding revoke_authority_def by (auto intro!: pres)
qed


lemma runs_load_hierarchy:
  "runs (load_hierarchy D) Q E w \<longleftrightarrow>
     (case (bt_get (m_authorities (w_store w)) AUTHORITY_ROOT,
            bt_get (m_authorities (w_store w)) AUTHORITY_ISSUING) of
        (Some r, Some i) \<Rightarrow>
          (case (from_der (d_cert D) (au_der r), from_der (d_cert D) (au_der i)) of
             (Inr rc, Inr ic) \<Rightarrow> Q (Some \<lparr>hi_root = rc, hi_issuing = ic, hi_created = False\<rparr>) w
           | (Inr rc, Inl e) \<Rightarrow> E (CaDer e) w
           | (Inl e, _) \<Rightarrow> E (CaDer e) w)
      | _ \<Rightarrow> Q None w)"
  by (simp add: load_hierarchy_def run split: option.split sum.split)

text \<open>Where a hierarchy is on record, the ceremony only reads it.\<close>

lemma ceremony_reads:
  assumes "bt_get (m_authorities (w_store w)) AUTHORITY_ROOT \<noteq> None"
    and "bt_get (m_authorities (w_store w)) AUTHORITY_ISSUING \<noteq> None"
  shows "snd (run_ceremony D cy w) = w"
proof -
  have "runs (run_ceremony D cy) (\<lambda>_ v. v = w) (\<lambda>_ v. v = w) w"
    using assms by (auto simp: run_ceremony_def run runs_load_hierarchy split: sum.split)
  then show ?thesis by (cases "run_ceremony D cy w"; cases "fst (run_ceremony D cy w)") (auto simp: runs_def)
qed

lemma keeps_revoked_as_ceremony [pres]:
  "keeps (on_authorities (revoked_as AUTHORITY_ISSUING der)) (run_ceremony D cy)"
proof (rule keepsI)
  fix w :: "'a ca_world_scheme"
  assume "on_authorities (revoked_as AUTHORITY_ISSUING der) w"
  moreover from this have "snd (run_ceremony D cy w) = w"
    by (intro ceremony_reads) (auto simp: on_authorities_def revoked_as_def)
  ultimately show "on_authorities (revoked_as AUTHORITY_ISSUING der) (snd (run_ceremony D cy w))"
    by simp
qed

section \<open>Every sequence of calls\<close>

inductive authority_step ::
    "deps \<Rightarrow> (conf_error \<Rightarrow> string) \<Rightarrow> issuer \<Rightarrow> root_authority \<Rightarrow> 'x ca_world_scheme
     \<Rightarrow> 'x ca_world_scheme \<Rightarrow> bool"
  for D wording I R where
  step_issue: "authority_step D wording I R w (snd (issue D wording I csr cn p tx w))"
| step_cert_revoke: "authority_step D wording I R w (snd (revoke D I sn r oper com v w))"
| step_publish_crl: "authority_step D wording I R w (snd (publish_crl D I w))"
| step_authority_revoke: "authority_step D wording I R w (snd (revoke_authority D R n r oper com v w))"
| step_publish_arl: "authority_step D wording I R w (snd (publish_arl D R w))"
| step_ceremony: "authority_step D wording I R w (snd (run_ceremony D cy w))"

text \<open>A predicate that every handler keeps holds after every sequence of calls.\<close>

lemma steps_keep:
  assumes "(authority_step D wording I R)\<^sup>*\<^sup>* w v" and "P w"
    and "\<And>csr cn p tx. keeps P (issue D wording I csr cn p tx)"
    and "\<And>sn r oper com via. keeps P (revoke D I sn r oper com via)"
    and "keeps P (publish_crl D I)"
    and "\<And>n r oper com via. keeps P (revoke_authority D R n r oper com via)"
    and "keeps P (publish_arl D R)" and "\<And>cy. keeps P (run_ceremony D cy)"
  shows "P v"
  using assms(1,2)
proof (induction rule: rtranclp_induct)
  case (step u v)
  then have "P u" by blast
  with step.hyps(2) assms(3-8) show ?case by (cases rule: authority_step.cases) (auto simp: keeps_def)
qed

section \<open>What is issued or revoked is in the journal, for the root too\<close>

lemma keeps_journaled_authorities [pres]:
  "keeps journaled (store_call (get_authority n))" "keeps journaled (on_store (get_authority n))"
  "keeps journaled (store_call (store_revoke_authority n d r))"
  "keeps journaled (store_call (save_authority a))"
  "keeps journaled (store_call next_arl_number)" "keeps journaled (store_call (save_arl l))"
  by (auto simp: keeps_runs run journaled_def split: option.split)

lemma keeps_journaled_publish_arl [pres]: "keeps journaled (publish_arl D R)"
  unfolding publish_arl_def Let_def by (auto intro!: pres)

lemma keeps_journaled_revoke_authority [pres]: "keeps journaled (revoke_authority D R n r oper com v)"
  unfolding revoke_authority_def by (auto intro!: pres)

lemma keeps_journaled_load [pres]: "keeps journaled (load_hierarchy D)"
  unfolding load_hierarchy_def by (auto intro!: pres split: store_error.split)

lemma keeps_journaled_ceremony [pres]: "keeps journaled (run_ceremony D cy)"
  unfolding run_ceremony_def sign_root_def sign_issuing_def random_serial_def Let_def
  by (auto intro!: pres simp del: foreach.simps)

section \<open>Properties\<close>

text \<open>C8. The journal comes first. From an empty register, whatever calls follow and whatever
  writes the storage of the journal refuses, every certificate the register holds as issued has
  its \<open>ca.certificate_issued\<close> entry, and every one it holds as revoked has a
  \<open>ca.certificate_revoked\<close> entry with its reason and the name of an operator.\<close>

theorem register_is_journaled:
  assumes "(authority_step D wording I R)\<^sup>*\<^sup>* w v" and "w_store w = memory_new" and "is_recorder I"
    and "bt_get (m_certificates (w_store v)) k = Some c" and "crt_status c \<noteq> Reserved"
  shows "issue_logged (j_entries (w_journal v)) k
    \<and> (crt_status c = Revoked \<longrightarrow>
         revocation_logged (j_entries (w_journal v)) k (crt_revocation_reason c))"
proof -
  have "journaled w" by (simp add: journaled_def assms(2) memory_new_def)
  with assms(1) have "journaled v"
    by (rule steps_keep)
      (simp_all add: keeps_journaled_issue keeps_journaled_revoke keeps_journaled_publish assms(3) pres)
  with assms(4,5) show ?thesis by (simp add: journaled_def)
qed

definition sample_root_authority :: root_authority where
  "sample_root_authority = \<lparr>ro_signer = sample_token, ro_certificate = sample_ca_certificate,
     ro_arl_validity = days 30, ro_recorder = True, ro_scheme = Pkcs1v15\<rparr>"

lemma register_is_journaled_witness:
  "issue_logged (j_entries (w_journal (snd sample_issue))) ''800102030405060708090a0b0c0d0e0f''"
proof -
  let ?k = "''800102030405060708090a0b0c0d0e0f''"
  have "map_option crt_status (bt_get (m_certificates (w_store (snd sample_issue))) ?k) = Some Issued"
    by code_simp
  then obtain c where c: "bt_get (m_certificates (w_store (snd sample_issue))) ?k = Some c"
    "crt_status c \<noteq> Reserved" by auto
  have "authority_step sample_deps (\<lambda>_. []) sample_issuer sample_root_authority
      (sample_world memory_new) (snd sample_issue)"
    unfolding sample_issue_def by (rule step_issue)
  then show ?thesis
    using register_is_journaled [OF r_into_rtranclp _ _ c] by (simp add: sample_issuer_def)
qed

text \<open>C9. An issuing authority that the root has revoked never issues again: once its record
  carries a revocation, whatever calls follow, \<open>issue\<close> fails, touches nothing and writes nothing.\<close>

theorem revoked_authority_never_issues:
  assumes "to_der (d_cert D) (is_certificate I) = Inr own"
    and "on_authorities (revoked_as AUTHORITY_ISSUING own) w"
    and "(authority_step D wording I R)\<^sup>*\<^sup>* w v"
  shows "\<exists>e. issue D wording I csr cn p tx v = (Inl e, v)"
proof -
  have "on_authorities (revoked_as AUTHORITY_ISSUING own) v"
    using assms(3,2) by (rule steps_keep) (rule pres)+
  then obtain a where a: "bt_get (m_authorities (w_store v)) AUTHORITY_ISSUING = Some a"
    "au_der a = own" "au_revoked_at a \<noteq> None"
    by (auto simp: on_authorities_def revoked_as_def)
  then have "\<exists>a \<in> snd ` set (m_authorities (w_store v)). au_revoked_at a \<noteq> None \<and> au_der a = own"
    using bt_get_SomeD [OF a(1)] by force
  then have "runs (issue D wording I csr cn p tx) (\<lambda>_ _. False) (\<lambda>_ u. u = v) v"
    using assms(1) unfolding issue_def Let_def by (simp add: run runs_ensure_not_revoked)
  then show ?thesis by (auto simp: runs_def split: prod.splits sum.splits)
qed

definition sample_revoked_memory :: memory where
  "sample_revoked_memory = memory_new\<lparr>m_authorities :=
     [(''issuing'', sample_authority\<lparr>au_der := [48, 0x81], au_revoked_at := Some 3\<rparr>),
      (''root'', sample_authority\<lparr>au_name := ''root''\<rparr>)]\<rparr>"

lemma revoked_authority_never_issues_witness:
  "\<exists>e. issue sample_deps (\<lambda>_. []) sample_issuer [5, 6] ''tsu-1'' (tsa_signer sample_deps) ''tx''
     (snd (publish_crl sample_deps sample_issuer (sample_world sample_revoked_memory)))
     = (Inl e, snd (publish_crl sample_deps sample_issuer (sample_world sample_revoked_memory)))"
  by (rule revoked_authority_never_issues [OF _ _ r_into_rtranclp, OF _ _ step_publish_crl
        [where R = sample_root_authority], where own = "[48, 0x81]"])
    (simp_all add: sample_deps_def sample_issuer_def sample_ca_certificate_def on_authorities_def
      revoked_as_def sample_revoked_memory_def AUTHORITY_ISSUING_def AUTHORITY_ROOT_def)

lemma sign_with_token_spki:
  "builder_ok D \<Longrightarrow> sign_with_token D signer sch b = Inr cert \<Longrightarrow> x_spki cert = tb_spki b"
  by (auto simp: sign_with_token_def wp dest: builder_okD(6))

lemma sign_root_spki:
  assumes "builder_ok D"
  shows "runs (sign_root D cy now) (\<lambda>c v. w_store v = w_store w \<and> tk_public_key (cy_root_signer cy) = Inr (x_spki c))
    (\<lambda>_ v. True) w"
  unfolding sign_root_def random_serial_def Let_def
  by (auto simp: run wp sign_with_token_spki [OF assms])

lemma sign_issuing_spki:
  assumes "builder_ok D"
  shows "runs (sign_issuing D cy now root) (\<lambda>c v. w_store v = w_store w
      \<and> tk_public_key (cy_issuing_signer cy) = Inr (x_spki c)) (\<lambda>_ v. True) w"
  unfolding sign_issuing_def random_serial_def Let_def
  by (auto simp: run wp sign_with_token_spki [OF assms])

definition on_record :: "deps \<Rightarrow> ceremony \<Rightarrow> hierarchy \<Rightarrow> memory \<Rightarrow> bool" where
  "on_record D cy h s \<longleftrightarrow> (\<exists>r i. bt_get (m_authorities s) AUTHORITY_ROOT = Some r
     \<and> bt_get (m_authorities s) AUTHORITY_ISSUING = Some i
     \<and> to_der (d_cert D) (hi_root h) = Inr (au_der r) \<and> to_der (d_cert D) (hi_issuing h) = Inr (au_der i)
     \<and> tk_public_key (cy_root_signer cy) = Inr (x_spki (hi_root h))
     \<and> tk_public_key (cy_issuing_signer cy) = Inr (x_spki (hi_issuing h)))"

lemma runs_ceremony:
  assumes "builder_ok D"
  shows "runs (run_ceremony D cy) (\<lambda>h v. hi_created h \<longrightarrow> on_record D cy h (w_store v)) (\<lambda>_ _. True) w"
  unfolding run_ceremony_def
  apply (simp add: run runs_load_hierarchy split: option.split sum.split)
  apply (intro conjI impI allI; (rule runs_mono [OF sign_root_spki [OF assms]])?; (simp; fail)?)
  subgoal by (simp only: runs_bindr, rule runs_mono [OF sign_issuing_spki [OF assms]])
      (auto simp: run wp on_record_def new_authority_def AUTHORITY_ROOT_def AUTHORITY_ISSUING_def
        split: option.split)
  subgoal by (simp only: runs_bindr, rule runs_mono [OF sign_issuing_spki [OF assms]])
      (auto simp: run wp on_record_def new_authority_def AUTHORITY_ROOT_def AUTHORITY_ISSUING_def
        split: option.split)
  done

text \<open>The ceremony is idempotent. Once it has created the hierarchy, running it again with
  the keys of the same tokens (and any other option) succeeds, returns the same two certificates
  and changes nothing: no new key is certified, no authority is saved, nothing is written.\<close>

theorem ceremony_is_idempotent:
  assumes "builder_ok D" and "codec_ok (d_cert D)"
    and "run_ceremony D cy w = (Inr h, v)" and "hi_created h"
    and "tk_public_key (cy_root_signer cy') = tk_public_key (cy_root_signer cy)"
    and "tk_public_key (cy_issuing_signer cy') = tk_public_key (cy_issuing_signer cy)"
    and "cy_operator cy' \<noteq> []"
  shows "run_ceremony D cy' v = (Inr (h\<lparr>hi_created := False\<rparr>), v)"
proof -
  have "on_record D cy h (w_store v)"
    using runs_okD [OF runs_ceremony [OF assms(1)] assms(3)] assms(4) by blast
  then have "runs (run_ceremony D cy') (\<lambda>h' u. h' = h\<lparr>hi_created := False\<rparr> \<and> u = v) (\<lambda>_ _. False) v"
    using assms(5-7)
    by (auto simp: run_ceremony_def run runs_load_hierarchy on_record_def matches_signer_def wp
        dest!: codec_okD [OF assms(2)])
  then show ?thesis by (auto simp: runs_def split: prod.splits sum.splits)
qed

definition sample_ceremony :: ceremony where
  "sample_ceremony = \<lparr>cy_root_signer = sample_token, cy_issuing_signer = sample_token,
     cy_root_cn = [], cy_issuing_cn = [], cy_organization = [], cy_country = [],
     cy_root_validity = 0, cy_issuing_validity = 0, cy_root_token_label = ''r'',
     cy_root_key_label = ''rk'', cy_issuing_token_label = ''i'', cy_issuing_key_label = ''ik'',
     cy_operator = ''alice'', cy_recorder = True, cy_public_url = ''http://ca'', cy_scheme = Pkcs1v15\<rparr>"

definition sample_hierarchy :: hierarchy where
  "sample_hierarchy =
     projr (fst (run_ceremony sample_deps sample_ceremony (sample_world memory_new)))"

definition sample_cert_deps :: deps where
  "sample_cert_deps =
     sample_deps\<lparr>d_cert := table_codec [hi_root sample_hierarchy, hi_issuing sample_hierarchy]\<rparr>"

definition sample_created :: "(ca_error + hierarchy) \<times> ca_world" where
  "sample_created = run_ceremony sample_cert_deps sample_ceremony (sample_world memory_new)"

lemma ceremony_is_idempotent_witness:
  "run_ceremony sample_cert_deps (sample_ceremony\<lparr>cy_operator := ''bob''\<rparr>) (snd sample_created)
    = (Inr ((projr (fst sample_created))\<lparr>hi_created := False\<rparr>), snd sample_created)"
proof (rule ceremony_is_idempotent [where cy = sample_ceremony and w = "sample_world memory_new"])
  have r: "\<not> isl (fst sample_created) \<and> hi_created (projr (fst sample_created))" by code_simp
  then show "run_ceremony sample_cert_deps sample_ceremony (sample_world memory_new)
      = (Inr (projr (fst sample_created)), snd sample_created)"
    unfolding sample_created_def by (metis prod.collapse sum.collapse(2))
  show "hi_created (projr (fst sample_created))" using r by blast
  show "builder_ok sample_cert_deps"
    using sample_builder_ok by (simp add: sample_cert_deps_def builder_ok_def)
qed (simp_all add: sample_cert_deps_def)

end
