(* ===== verification/Raflow.thy ===== *)
theory Raflow
  imports Root_Authority
begin

text \<open>
  The registration authority: \<open>crates/oe-raflow/src/lib.rs\<close>. A request is received,
  decided by an operator, and becomes a certificate when its requester comes back for it.
  Every handler of \<open>Decider\<close> and of \<open>Flow\<close>, then the abstract state machine of a
  request and the proof that the handlers follow it.
\<close>

section \<open>What the flow relies on\<close>

text \<open>A certification request, decoded: its subject, its public key, the algorithm and the
  signature it declares, the bytes that are signed.\<close>

record csr =
  cs_subject :: dn
  cs_public_key :: bytes
  cs_algorithm :: alg_id
  cs_tbs :: "string + bytes"
  cs_signature :: bytes

record ra_deps =
  rd_deps :: deps
  rd_hmac :: "bytes \<Rightarrow> bytes \<Rightarrow> bytes"
  rd_csr :: "bytes \<Rightarrow> string + csr"
  rd_rsa_bits :: "bytes \<Rightarrow> string + nat"
  rd_hash :: "digest_alg \<Rightarrow> bytes \<Rightarrow> bytes"
  rd_verify :: "bytes \<Rightarrow> scheme \<Rightarrow> digest_alg \<Rightarrow> bytes \<Rightarrow> bytes \<Rightarrow> bool"
  rd_wording :: "conf_error \<Rightarrow> string"

section \<open>Errors\<close>

datatype ra_message =
    UnreadableKey string
  | ShortKey nat
  | AlgorithmNotAdmitted oid
  | NotSelfSigned
  | NoCommonName
  | RaJournal string
  | RaOperatorRequired
  | RaCommentMissing
  | AnonymousEnrolment
  | CnIdentifiesTwo string
  | NamelessRequester
  | BootstrapSecretUsed
  | RaProfile profile_error
  | ProfileNotAllowed string string
  | NoClientCertificateName string
  | OnlyCn string string
  | RaCn cn_error
  | OtherRequester
  | OtherProfile string string
  | IssuedWithoutCertificate string

datatype raflow_error =
    Unauthenticated
  | RejectedBy string string
  | RaNotFound
  | NotPending string
  | RaDer string
  | RaCa ca_error
  | RaStore store_error
  | RaOther ra_message

type_synonym ('x, 'a) ra = "('x ca_world_scheme, raflow_error, 'a) res"

definition ra_store :: "'a store_op \<Rightarrow> ('x, 'a) ra" where
  "ra_store m = map_err RaStore (on_store m)"

definition ra_record :: "bool \<Rightarrow> string \<Rightarrow> json \<Rightarrow> ('x, unit) ra" where
  "ra_record recorder event data =
     (if recorder then map_err (\<lambda>e. RaOther (RaJournal e)) (journal_append event data) else ok ())"

section \<open>Authentication of a request\<close>

definition text_bytes :: "string \<Rightarrow> bytes" where "text_bytes s = map (\<lambda>c. of_nat (of_char c)) s"

definition signature :: "ra_deps \<Rightarrow> bytes \<Rightarrow> string \<Rightarrow> string" where
  "signature H csr_der secret = hex_encode (rd_hmac H (text_bytes secret) csr_der)"

definition fingerprint :: "ra_deps \<Rightarrow> bytes \<Rightarrow> string" where
  "fingerprint H csr_der = hex_encode (d_sha256 (rd_deps H) csr_der)"

definition transaction_id :: "ra_deps \<Rightarrow> bytes \<Rightarrow> string" where
  "transaction_id H csr_der = take 32 (fingerprint H csr_der)"

definition verify_hmac :: "ra_deps \<Rightarrow> bytes \<Rightarrow> string \<Rightarrow> string \<Rightarrow> raflow_error + unit" where
  "verify_hmac H csr_der secret signature_hex =
     (case hex_decode signature_hex of
        None \<Rightarrow> Inl Unauthenticated
      | Some given \<Rightarrow> require (rd_hmac H (text_bytes secret) csr_der = given) Unauthenticated)"

definition MIN_RSA_KEY_BITS :: nat where "MIN_RSA_KEY_BITS = 3072"

definition dn_common_name :: "dn \<Rightarrow> string" where
  "dn_common_name name = (case find (\<lambda>(k, v). k = OID_CN) name of None \<Rightarrow> [] | Some (k, v) \<Rightarrow> v)"

definition parse_and_verify_csr :: "ra_deps \<Rightarrow> bytes \<Rightarrow> raflow_error + string \<times> bytes" where
  "parse_and_verify_csr H csr_der =
     sbind (or_else_err RaDer (rd_csr H csr_der)) (\<lambda>csr.
     let spki_der = cs_public_key csr in
     sbind (or_else_err (\<lambda>e. RaOther (UnreadableKey e)) (rd_rsa_bits H spki_der)) (\<lambda>key_bits.
     sbind (require (\<not> key_bits < MIN_RSA_KEY_BITS) (RaOther (ShortKey key_bits))) (\<lambda>_.
     sbind (or_else_err RaDer (cs_tbs csr)) (\<lambda>tbs_der.
     sbind (ok_or (RaOther (AlgorithmNotAdmitted (alg_oid (cs_algorithm csr))))
              (scheme_of (rd_deps H) (cs_algorithm csr))) (\<lambda>(sch, alg).
     sbind (require (rd_verify H spki_der sch alg (rd_hash H alg tbs_der) (cs_signature csr))
              (RaOther NotSelfSigned)) (\<lambda>_.
     let cn = dn_common_name (cs_subject csr) in
     sbind (require (cn \<noteq> []) (RaOther NoCommonName)) (\<lambda>_.
     Inr (cn, spki_der))))))))"

section \<open>Deciding\<close>

text \<open>Reading the request and writing the decision are two steps of the store, between which
  another operator may decide: \<open>decide\<close> is their composition.\<close>

definition decide_read :: "string \<Rightarrow> string \<Rightarrow> string \<Rightarrow> via \<Rightarrow> ('x, request) ra" where
  "decide_read transaction operator comment via =
     bindr (ensure (operator \<noteq> []) (RaOther RaOperatorRequired)) (\<lambda>_.
     bindr (lift (or_else_err (\<lambda>_. RaOther RaCommentMissing) (check_comment via comment))) (\<lambda>_.
     bindr (attempt (on_store (request_by_transaction_id transaction))) (\<lambda>found.
     case found of
       Inl NotFound \<Rightarrow> fail RaNotFound
     | Inl e \<Rightarrow> fail (RaStore e)
     | Inr r \<Rightarrow>
         bindr (ensure (rq_state r = Pending) (NotPending (state_text (rq_state r)))) (\<lambda>_.
         ok r))))"

definition decided :: "request \<Rightarrow> request_state \<Rightarrow> string \<Rightarrow> string \<Rightarrow> instant \<Rightarrow> request" where
  "decided r target operator comment now = r\<lparr>rq_state := target, rq_operator := operator,
     rq_comment := comment, rq_decided_at := Some now\<rparr>"

definition decision_event :: "request \<Rightarrow> string \<Rightarrow> string \<Rightarrow> via \<Rightarrow> json" where
  "decision_event r operator comment via = annotate via (JObj
     [(''transaction'', JStr (rq_transaction_id r)), (''profil'', JStr (rq_profile r)),
      (''sujet_cn'', JStr (rq_subject_cn r)), (''operateur'', JStr operator),
      (''commentaire'', JStr comment)])"

definition decide_write ::
    "bool \<Rightarrow> request \<Rightarrow> string \<Rightarrow> string \<Rightarrow> via \<Rightarrow> request_state \<Rightarrow> ('x, request) ra" where
  "decide_write recorder r operator comment via target =
     bindr now_utc (\<lambda>now.
     let updated = decided r target operator comment now in
     bindr (attempt (on_store (update_request updated Pending))) (\<lambda>written.
     case written of
       Inl Conflict \<Rightarrow> fail (NotPending (state_text Pending))
     | Inl e \<Rightarrow> fail (RaStore e)
     | Inr _ \<Rightarrow>
         bindr (ra_record recorder
           (if target = Rejected then ''ca.request_rejected'' else ''ca.request_approved'')
           (decision_event updated operator comment via)) (\<lambda>_.
         ok updated)))"

definition decide ::
    "bool \<Rightarrow> string \<Rightarrow> string \<Rightarrow> string \<Rightarrow> via \<Rightarrow> request_state \<Rightarrow> ('x, request) ra" where
  "decide recorder transaction operator comment via target =
     bindr (decide_read transaction operator comment via) (\<lambda>r.
     decide_write recorder r operator comment via target)"

definition approve :: "bool \<Rightarrow> string \<Rightarrow> string \<Rightarrow> string \<Rightarrow> via \<Rightarrow> ('x, request) ra" where
  "approve recorder transaction operator comment via =
     decide recorder transaction operator comment via Approved"

definition reject :: "bool \<Rightarrow> string \<Rightarrow> string \<Rightarrow> string \<Rightarrow> via \<Rightarrow> ('x, request) ra" where
  "reject recorder transaction operator comment via =
     decide recorder transaction operator comment via Rejected"

definition decider_requests :: "request_state option \<Rightarrow> ('x, request list) ra" where
  "decider_requests state = ra_store (requests state)"

section \<open>The flow\<close>

definition LEGACY_REQUESTER :: string where "LEGACY_REQUESTER = ''legacy''"

definition PROFILE_ENROLL_CLIENT :: string where "PROFILE_ENROLL_CLIENT = ''enroll_client''"

record requester =
  rr_name :: string
  rr_secret :: string
  rr_secret_expires_at :: "instant option"
  rr_client_cn :: "string option"
  rr_profiles :: "string list"
  rr_subject_cn :: "string option"

definition allows :: "requester \<Rightarrow> string \<Rightarrow> bool" where
  "allows q profile = list_ex (\<lambda>p. p = ''*'' \<or> p = profile) (rr_profiles q)"

definition requester_key :: "string \<Rightarrow> string" where
  "requester_key name = (if name = [] then LEGACY_REQUESTER else name)"

record flow_options =
  fo_issuer :: issuer
  fo_hmac_secret :: string
  fo_requesters :: "requester list"
  fo_recorder :: bool
  fo_retry_after :: duration

record submit_result =
  sr_state :: request_state
  sr_transaction_id :: string
  sr_retry_after :: "duration option"
  sr_certificate :: "x509 option"
  sr_chain :: "x509 list"

record flow =
  fl_options :: flow_options
  fl_requesters :: "requester list"
  fl_hmac_bootstrap_only :: bool

definition with_hmac_bootstrap_only :: "flow \<Rightarrow> bool \<Rightarrow> flow" where
  "with_hmac_bootstrap_only F on = F\<lparr>fl_hmac_bootstrap_only := on\<rparr>"

fun first_repeated :: "string list \<Rightarrow> string list \<Rightarrow> string option" where
  "first_repeated seen [] = None"
| "first_repeated seen (c # cs) =
     (if c \<in> set seen then Some c else first_repeated (c # seen) cs)"

definition flow_new :: "flow_options \<Rightarrow> raflow_error + flow" where
  "flow_new opts =
     (let requesters = fo_requesters opts
            @ (if fo_hmac_secret opts \<noteq> [] then
                 [\<lparr>rr_name = LEGACY_REQUESTER, rr_secret = fo_hmac_secret opts,
                   rr_secret_expires_at = None, rr_client_cn = None, rr_profiles = [''*''],
                   rr_subject_cn = None\<rparr>] else []) in
      sbind (require (\<not> (requesters = []
          \<or> list_ex (\<lambda>r. rr_secret r = []
              \<and> (case rr_client_cn r of None \<Rightarrow> [] | Some cn \<Rightarrow> cn) = []) requesters))
        (RaOther AnonymousEnrolment)) (\<lambda>_.
      sbind (case first_repeated [] (List.map_filter rr_client_cn requesters) of
               Some cn \<Rightarrow> Inl (RaOther (CnIdentifiesTwo cn)) | None \<Rightarrow> Inr ()) (\<lambda>_.
      sbind (require (\<not> list_ex (\<lambda>r. rr_name r = []) requesters) (RaOther NamelessRequester)) (\<lambda>_.
      Inr \<lparr>fl_options = (if fo_retry_after opts = 0 then opts\<lparr>fo_retry_after := seconds 5\<rparr> else opts),
           fl_requesters = requesters, fl_hmac_bootstrap_only = False\<rparr>))))"

definition waiting :: "flow \<Rightarrow> string \<Rightarrow> submit_result" where
  "waiting F tx = \<lparr>sr_state = Pending, sr_transaction_id = tx,
     sr_retry_after = Some (fo_retry_after (fl_options F)), sr_certificate = None, sr_chain = []\<rparr>"

definition delivered :: "flow \<Rightarrow> string \<Rightarrow> x509 \<Rightarrow> submit_result" where
  "delivered F tx cert = \<lparr>sr_state = Req_Issued, sr_transaction_id = tx, sr_retry_after = None,
     sr_certificate = Some cert, sr_chain = full_chain (fo_issuer (fl_options F))\<rparr>"

definition new_request ::
    "ra_deps \<Rightarrow> bytes \<Rightarrow> string \<Rightarrow> profile \<Rightarrow> string \<Rightarrow> string \<Rightarrow> instant \<Rightarrow> request" where
  "new_request H csr_der cn p fp requester now =
     \<lparr>rq_transaction_id = transaction_id H csr_der, rq_csr_fingerprint = fp, rq_csr_der = csr_der,
      rq_profile = pf_name p, rq_subject_cn = cn, rq_state = Pending, rq_created_at = now,
      rq_decided_at = None, rq_operator = [], rq_comment = [], rq_issued_at = None,
      rq_certificate_serial = None, rq_requester = requester\<rparr>"

definition open_request ::
    "ra_deps \<Rightarrow> flow \<Rightarrow> bytes \<Rightarrow> string \<Rightarrow> profile \<Rightarrow> string \<Rightarrow> string \<Rightarrow> ('x, submit_result) ra" where
  "open_request H F csr_der cn p fp requester =
     (let tx = transaction_id H csr_der in
     bindr now_utc (\<lambda>now.
     bindr (ra_record (fo_recorder (fl_options F)) ''ca.request_received'' (JObj
       [(''transaction'', JStr tx), (''profil'', JStr (pf_name p)), (''sujet_cn'', JStr cn),
        (''empreinte'', JStr fp), (''demandeur'', JStr requester)])) (\<lambda>_.
     bindr (ra_store (create_request (new_request H csr_der cn p fp requester now))) (\<lambda>_.
     ok (waiting F tx)))))"

definition issued_certificate :: "ra_deps \<Rightarrow> request \<Rightarrow> ('x, x509) ra" where
  "issued_certificate H r =
     (case rq_certificate_serial r of
        None \<Rightarrow> fail (RaOther (IssuedWithoutCertificate (rq_transaction_id r)))
      | Some serial \<Rightarrow>
          bindr (ra_store (get_certificate serial)) (\<lambda>rec.
          lift (or_else_err RaDer (from_der (d_cert (rd_deps H)) (crt_der rec)))))"

text \<open>"remplace par ...", with its accent.\<close>

definition replaced_by :: "serial \<Rightarrow> string" where
  "replaced_by serial = ''remplac'' @ [CHR 0xC3, CHR 0xA9] @ '' par '' @ hex_encode serial"

definition SUPERSEDED :: int where "SUPERSEDED = 4"

definition owner_of :: "certificate \<Rightarrow> ('x, string) ra" where
  "owner_of old =
     bindr (attempt (on_store (request_by_transaction_id (crt_request_transaction_id old)))) (\<lambda>found.
     case found of
       Inr prev \<Rightarrow> ok (rq_requester prev)
     | Inl NotFound \<Rightarrow> ok []
     | Inl e \<Rightarrow> fail (RaStore e))"

text \<open>One turn of the loop over the certificates that were active for the subject.\<close>

definition supersede :: "ra_deps \<Rightarrow> flow \<Rightarrow> request \<Rightarrow> serial \<Rightarrow> certificate \<Rightarrow> ('x, unit) ra" where
  "supersede H F r serial old =
     bindr (owner_of old) (\<lambda>owner.
     if requester_key owner \<noteq> requester_key (rq_requester r) then
       ra_record (fo_recorder (fl_options F)) ''ca.renewal_revocation_skipped'' (JObj
         [(''serie_ancienne'', JStr (hex_encode (crt_serial old))),
          (''serie_nouvelle'', JStr (hex_encode serial)),
          (''demandeur_ancien'', JStr (requester_key owner)),
          (''demandeur_nouveau'', JStr (requester_key (rq_requester r)))])
     else map_err RaCa (revoke (rd_deps H) (fo_issuer (fl_options F)) (crt_serial old) SUPERSEDED
            ''raflow:renouvellement'' (replaced_by serial) Automatic))"

definition issue_request ::
    "ra_deps \<Rightarrow> flow \<Rightarrow> request \<Rightarrow> bytes \<Rightarrow> string \<Rightarrow> profile \<Rightarrow> ('x, submit_result) ra" where
  "issue_request H F r spki_der cn p =
     (let D = rd_deps H; I = fo_issuer (fl_options F) in
     bindr (lift (or_else_err RaCa (build_subject D cn (pf_organizational_unit p)
              (pf_organization p) (pf_country p)))) (\<lambda>subject.
     bindr now_utc (\<lambda>now.
     bindr (ra_store (active_by_subject (d_name_text D subject) now)) (\<lambda>previous.
     bindr (map_err RaCa (issue D (rd_wording H) I spki_der cn p (rq_transaction_id r))) (\<lambda>cert.
     let serial = canonical_serial (x_serial cert) in
     bindr (ra_store (update_request (r\<lparr>rq_state := Req_Issued, rq_issued_at := Some now,
              rq_certificate_serial := Some serial\<rparr>) Approved)) (\<lambda>_.
     bindr (foreach previous (supersede H F r serial)) (\<lambda>_.
     bindr (map_err RaCa (publish_crl D I)) (\<lambda>_.
     ok (delivered F (rq_transaction_id r) cert)))))))))"

definition resume ::
    "ra_deps \<Rightarrow> flow \<Rightarrow> request \<Rightarrow> bytes \<Rightarrow> string \<Rightarrow> profile \<Rightarrow> ('x, submit_result) ra" where
  "resume H F r spki_der cn p =
     (case rq_state r of
        Pending \<Rightarrow> ok (waiting F (rq_transaction_id r))
      | Rejected \<Rightarrow> fail (RejectedBy (rq_operator r) (rq_comment r))
      | Approved \<Rightarrow> issue_request H F r spki_der cn p
      | Req_Issued \<Rightarrow> bindr (issued_certificate H r) (\<lambda>cert.
          ok (delivered F (rq_transaction_id r) cert)))"

text \<open>Everything \<open>submit_as\<close> controls before it looks at the register.\<close>

definition admit_request ::
    "ra_deps \<Rightarrow> requester \<Rightarrow> bytes \<Rightarrow> string \<Rightarrow> raflow_error + profile \<times> string \<times> bytes" where
  "admit_request H q csr_der profile_name =
     sbind (or_else_err (\<lambda>e. RaOther (RaProfile e)) (profile_by_name (rd_deps H) profile_name)) (\<lambda>p.
     sbind (require (allows q profile_name) (RaOther (ProfileNotAllowed (rr_name q) profile_name))) (\<lambda>_.
     sbind (parse_and_verify_csr H csr_der) (\<lambda>(cn, spki_der).
     sbind (if profile_name = PROFILE_ENROLL_CLIENT
            then sbind (ok_or (RaOther (NoClientCertificateName (rr_name q))) (rr_client_cn q))
                   (\<lambda>c. Inr (Some c))
            else Inr (rr_subject_cn q)) (\<lambda>expected_cn.
     sbind (case expected_cn of
              None \<Rightarrow> Inr ()
            | Some expected \<Rightarrow> require (expected = cn) (RaOther (OnlyCn (rr_name q) expected))) (\<lambda>_.
     sbind (or_else_err (\<lambda>e. RaOther (RaCn e)) (validate_cn p cn)) (\<lambda>_.
     Inr (p, cn, spki_der)))))))"

definition submit_as ::
    "ra_deps \<Rightarrow> flow \<Rightarrow> requester \<Rightarrow> bytes \<Rightarrow> string \<Rightarrow> ('x, submit_result) ra" where
  "submit_as H F q csr_der profile_name =
     bindr (lift (admit_request H q csr_der profile_name)) (\<lambda>(p, cn, spki_der).
     let fp = fingerprint H csr_der in
     bindr (attempt (on_store (request_by_fingerprint fp))) (\<lambda>existing.
     case existing of
       Inl NotFound \<Rightarrow> open_request H F csr_der cn p fp (rr_name q)
     | Inl e \<Rightarrow> fail (RaStore e)
     | Inr r \<Rightarrow>
         if requester_key (rq_requester r) \<noteq> rr_name q then fail (RaOther OtherRequester)
         else if rq_profile r \<noteq> profile_name then fail (RaOther (OtherProfile (rq_profile r) profile_name))
         else resume H F r spki_der cn p))"

definition ensure_bootstrap_unused :: "ra_deps \<Rightarrow> requester \<Rightarrow> bytes \<Rightarrow> ('x, unit) ra" where
  "ensure_bootstrap_unused H q csr_der =
     (let fp = fingerprint H csr_der in
     bindr (ra_store (requests None)) (\<lambda>rs.
     ensure (\<not> list_ex (\<lambda>r. rq_profile r = PROFILE_ENROLL_CLIENT
               \<and> requester_key (rq_requester r) = rr_name q
               \<and> rq_csr_fingerprint r \<noteq> fp \<and> rq_state r \<noteq> Rejected) rs)
       (RaOther BootstrapSecretUsed)))"

definition by_secret :: "ra_deps \<Rightarrow> bytes \<Rightarrow> string \<Rightarrow> instant \<Rightarrow> requester \<Rightarrow> bool" where
  "by_secret H csr_der signature_hex now q \<longleftrightarrow>
     rr_secret q \<noteq> []
     \<and> (case rr_secret_expires_at q of None \<Rightarrow> True | Some end \<Rightarrow> now \<le> end)
     \<and> verify_hmac H csr_der (rr_secret q) signature_hex = Inr ()"

definition submit :: "ra_deps \<Rightarrow> flow \<Rightarrow> bytes \<Rightarrow> string \<Rightarrow> string \<Rightarrow> ('x, submit_result) ra" where
  "submit H F csr_der profile_name signature_hex =
     bindr now_utc (\<lambda>now.
     bindr (lift (ok_or Unauthenticated
       (find (by_secret H csr_der signature_hex now) (fl_requesters F)))) (\<lambda>q.
     bindr (ensure (\<not> (fl_hmac_bootstrap_only F \<and> rr_client_cn q \<noteq> None
                      \<and> profile_name \<noteq> PROFILE_ENROLL_CLIENT)) Unauthenticated) (\<lambda>_.
     bindr (if profile_name = PROFILE_ENROLL_CLIENT then ensure_bootstrap_unused H q csr_der
            else ok ()) (\<lambda>_.
     submit_as H F q csr_der profile_name))))"

definition submit_mtls :: "ra_deps \<Rightarrow> flow \<Rightarrow> bytes \<Rightarrow> string \<Rightarrow> string \<Rightarrow> ('x, submit_result) ra" where
  "submit_mtls H F csr_der profile_name client_cn =
     bindr (lift (ok_or Unauthenticated
       (find (\<lambda>q. rr_client_cn q = Some client_cn) (fl_requesters F)))) (\<lambda>q.
     submit_as H F q csr_der profile_name)"

section \<open>Which calls touch the requests\<close>

definition on_requests :: "((string, request) btree \<Rightarrow> bool) \<Rightarrow> 'x ca_world_scheme \<Rightarrow> bool" where
  "on_requests P w = P (m_requests (w_store w))"

lemma runs_ra_store [run]:
  "runs (ra_store m) Q E w \<longleftrightarrow> runs (on_store m) Q (\<lambda>e. E (RaStore e)) w"
  by (simp add: ra_store_def run)

lemma runs_ra_record [run]:
  "runs (ra_record recorder event data) Q E w \<longleftrightarrow>
     (if recorder then runs (journal_append event data) Q (\<lambda>e. E (RaOther (RaJournal e))) w
      else Q () w)"
  by (simp add: ra_record_def run)

lemma keeps_on_requests_world [pres]:
  "keeps (on_requests P) now_utc" "keeps (on_requests P) (fill_bytes n)"
  "keeps (on_requests P) (record_event b ev data)" "keeps (on_requests P) (ra_record b ev data)"
  by (simp_all add: keeps_runs run on_requests_def)

lemma keeps_on_requests_store [pres]:
  "keeps (on_requests P) (on_store (reserve_serial sn p))"
  "keeps (on_requests P) (store_call (save_certificate c))"
  "keeps (on_requests P) (store_call (get_certificate sn))"
  "keeps (on_requests P) (ra_store (get_certificate sn))"
  "keeps (on_requests P) (store_call (store_revoke sn d r))"
  "keeps (on_requests P) (store_call revoked)"
  "keeps (on_requests P) (store_call issued_serials)"
  "keeps (on_requests P) (store_call revoked_authorities)"
  "keeps (on_requests P) (store_call next_crl_number)"
  "keeps (on_requests P) (store_call (save_crl l))"
  "keeps (on_requests P) (ra_store (active_by_subject dn t))"
  "keeps (on_requests P) (ra_store (requests st))"
  "keeps (on_requests P) (on_store (request_by_transaction_id tx))"
  "keeps (on_requests P) (on_store (request_by_fingerprint fp))"
  by (simp_all add: keeps_runs run on_requests_def split: option.split)

lemma keeps_on_requests_attempts [pres]: "keeps (on_requests P) (reserve_attempts D n p)"
proof (induction n)
  case (Suc n)
  then show ?case by (auto intro!: pres split: store_error.split)
qed (auto intro: pres)

lemma keeps_on_requests_issuer [pres]:
  "keeps (on_requests P) (issue D wording I csr cn p tx)"
  "keeps (on_requests P) (revoke D I sn r oper com v)"
  "keeps (on_requests P) (publish_crl D I)"
  by (auto simp: issue_def revoke_def publish_crl_def Let_def ensure_not_revoked_def
      reserve_new_serial_def intro!: pres)

lemma keeps_on_requests_owner [pres]: "keeps (on_requests P) (owner_of c)"
  unfolding owner_of_def by (auto intro!: pres split: store_error.split)

lemma keeps_on_requests_supersede [pres]: "keeps (on_requests P) (supersede H F r sn c)"
  unfolding supersede_def by (auto intro!: pres)

lemma keeps_on_requests_reads [pres]:
  "keeps (on_requests P) (issued_certificate H r)" "keeps (on_requests P) (ensure_bootstrap_unused H q csr)"
  "keeps (on_requests P) (decide_read tx oper com v)"
  unfolding issued_certificate_def ensure_bootstrap_unused_def decide_read_def Let_def
  by (auto intro!: pres split: store_error.split)

section \<open>The state machine of a request\<close>

definition state_of :: "'x ca_world_scheme \<Rightarrow> string \<Rightarrow> request_state option" where
  "state_of w tx = map_option rq_state (bt_get (m_requests (w_store w)) tx)"

text \<open>The calls, as an observer names them.\<close>

datatype ra_label = Submission | Approval string string | Rejection string string | Authority

text \<open>What a call may do to the request \<open>tx\<close>: nothing, or the transition of the call.\<close>

fun machine :: "ra_label \<Rightarrow> string \<Rightarrow> request_state option \<Rightarrow> request_state option \<Rightarrow> bool" where
  "machine Submission tx a b \<longleftrightarrow>
     a = b \<or> a = None \<and> b = Some Pending \<or> a = Some Approved \<and> b = Some Req_Issued"
| "machine (Approval t operator) tx a b \<longleftrightarrow>
     a = b \<or> t = tx \<and> operator \<noteq> [] \<and> a = Some Pending \<and> b = Some Approved"
| "machine (Rejection t operator) tx a b \<longleftrightarrow>
     a = b \<or> t = tx \<and> operator \<noteq> [] \<and> a = Some Pending \<and> b = Some Rejected"
| "machine Authority tx a b \<longleftrightarrow> a = b"

inductive ra_step :: "ra_deps \<Rightarrow> flow \<Rightarrow> 'x ca_world_scheme \<Rightarrow> ra_label \<Rightarrow> 'x ca_world_scheme \<Rightarrow> bool"
  for H F where
  ra_submit: "ra_step H F w Submission (snd (submit H F csr p sig w))"
| ra_submit_mtls: "ra_step H F w Submission (snd (submit_mtls H F csr p cn w))"
| ra_approve: "ra_step H F w (Approval tx oper)
    (snd (approve (fo_recorder (fl_options F)) tx oper com via w))"
| ra_reject: "ra_step H F w (Rejection tx oper)
    (snd (reject (fo_recorder (fl_options F)) tx oper com via w))"
| ra_revoke: "ra_step H F w Authority
    (snd (revoke (rd_deps H) (fo_issuer (fl_options F)) sn r oper com via w))"
| ra_publish: "ra_step H F w Authority (snd (publish_crl (rd_deps H) (fo_issuer (fl_options F)) w))"

inductive ra_trace ::
    "ra_deps \<Rightarrow> flow \<Rightarrow> 'x ca_world_scheme \<Rightarrow> ra_label list \<Rightarrow> 'x ca_world_scheme \<Rightarrow> bool"
  for H F where
  ra_nil: "ra_trace H F w [] w"
| ra_snoc: "ra_trace H F w ls u \<Longrightarrow> ra_step H F u l v \<Longrightarrow> ra_trace H F w (ls @ [l]) v"

text \<open>A handler that keeps, for every starting map, the relation of its label to that map,
  follows the machine.\<close>

definition moved :: "ra_label \<Rightarrow> (string, request) btree \<Rightarrow> (string, request) btree \<Rightarrow> bool" where
  "moved l m m' \<longleftrightarrow> (\<forall>tx. machine l tx (map_option rq_state (bt_get m tx)) (map_option rq_state (bt_get m' tx)))"

lemma moved_refl [simp]: "moved l m m"
  by (cases l) (simp_all add: moved_def)

lemma machine_trans: "machine l tx a b \<Longrightarrow> machine l tx b c \<Longrightarrow> machine l tx a c"
  by (cases l) auto

lemma moved_insert:
  assumes "moved l m m'" and "machine l k (map_option rq_state (bt_get m' k)) (Some (rq_state r))"
  shows "moved l m (bt_insert k r m')"
  using assms by (auto simp: moved_def dest: machine_trans)

lemma keeps_create_moved:
  assumes "rq_state r = Pending"
  shows "keeps (on_requests (moved Submission m)) (ra_store (create_request r))"
  using assms by (auto simp: keeps_runs run on_requests_def intro!: moved_insert)

lemma keeps_update_moved:
  assumes "rq_state r = Req_Issued"
  shows "keeps (on_requests (moved Submission m)) (ra_store (update_request r Approved))"
  using assms by (auto simp: keeps_runs run on_requests_def intro!: moved_insert split: option.split)

lemma keeps_submit_as_moved [pres]:
  "keeps (on_requests (moved Submission m)) (submit_as H F q csr p)"
  unfolding submit_as_def open_request_def resume_def issue_request_def Let_def
  by (auto intro!: pres keeps_create_moved keeps_update_moved simp: new_request_def
      split: store_error.split request_state.split prod.split)

lemma keeps_submit_moved:
  "keeps (on_requests (moved Submission m)) (submit H F csr p sig)"
  "keeps (on_requests (moved Submission m)) (submit_mtls H F csr p cn)"
  unfolding submit_def submit_mtls_def by (auto intro!: pres)

section \<open>The register stays well formed\<close>

lemma keeps_on_memory_ra [pres]:
  "keeps P m \<Longrightarrow> keeps (on_memory P) (ra_store m)" "keeps (on_memory P) (ra_record b ev data)"
  by (auto simp: keeps_runs run on_memory_def)

lemma keeps_mem_ok_attempts [pres]: "keeps (on_memory mem_ok) (reserve_attempts D n p)"
proof (induction n)
  case (Suc n)
  then show ?case by (auto intro!: pres split: store_error.split)
qed (auto intro: pres)

lemma keeps_mem_ok_issuer [pres]:
  "keeps (on_memory mem_ok) (issue D wording I csr cn p tx)"
  "keeps (on_memory mem_ok) (revoke D I sn r oper com v)"
  "keeps (on_memory mem_ok) (publish_crl D I)"
  by (auto simp: issue_def revoke_def publish_crl_def Let_def ensure_not_revoked_def
      reserve_new_serial_def intro!: pres)

lemma keeps_mem_ok_owner [pres]: "keeps (on_memory mem_ok) (owner_of c)"
  unfolding owner_of_def by (auto intro!: pres split: store_error.split)

lemma keeps_mem_ok_submit [pres]:
  "keeps (on_memory mem_ok) (submit H F csr p sig)" "keeps (on_memory mem_ok) (submit_mtls H F csr p cn)"
  unfolding submit_def submit_mtls_def submit_as_def open_request_def resume_def issue_request_def
    supersede_def issued_certificate_def ensure_bootstrap_unused_def Let_def
  by (auto intro!: pres split: store_error.split request_state.split prod.split)

lemma keeps_mem_ok_decide [pres]: "keeps (on_memory mem_ok) (decide b tx oper com via target)"
  unfolding decide_def decide_read_def decide_write_def Let_def
  by (auto intro!: pres split: store_error.split)

lemma step_mem_ok:
  assumes "ra_step H F w l v" and "mem_ok (w_store w)"
  shows "mem_ok (w_store v)"
  using assms(1)
  by (cases rule: ra_step.cases)
    (auto simp: approve_def reject_def intro!: on_memoryD [where P = mem_ok] assms(2) pres)

section \<open>Deciding\<close>

lemma state_text_inj: "state_text a = state_text b \<longleftrightarrow> a = b"
  by (cases a; cases b) simp_all

lemma mem_ok_request_id:
  "mem_ok s \<Longrightarrow> bt_get (m_requests s) tx = Some r \<Longrightarrow> rq_transaction_id r = tx"
  by (auto simp: mem_ok_def dest: bt_keyedD)

lemma runs_decide:
  assumes "mem_ok (w_store w)"
  shows "runs (decide b tx oper com via target)
    (\<lambda>r v. oper \<noteq> [] \<and> check_comment via com = Inr ()
       \<and> (\<exists>old. bt_get (m_requests (w_store w)) tx = Some old \<and> rq_state old = Pending
            \<and> r = decided old target oper com (w_clock w (w_tick w)))
       \<and> w_store v = (w_store w)\<lparr>m_requests := bt_insert tx r (m_requests (w_store w))\<rparr>
       \<and> (b \<longrightarrow> j_entries (w_journal v) = j_entries (w_journal w) @
            [(if target = Rejected then ''ca.request_rejected'' else ''ca.request_approved'',
              decision_event r oper com via)]))
    (\<lambda>e v. w_store v = w_store w
       \<or> (\<exists>m. e = RaOther (RaJournal m)) \<and> oper \<noteq> [] \<and> check_comment via com = Inr ()
         \<and> (\<exists>old. bt_get (m_requests (w_store w)) tx = Some old \<and> rq_state old = Pending
            \<and> w_store v = (w_store w)\<lparr>m_requests := bt_insert tx
                 (decided old target oper com (w_clock w (w_tick w))) (m_requests (w_store w))\<rparr>)) w"
  using mem_ok_request_id [OF assms]
  unfolding decide_def decide_read_def decide_write_def Let_def
  by (auto simp: run wp decided_def split: option.split)

lemma decide_read_world: "snd (decide_read tx oper com via w) = w"
proof -
  have "runs (decide_read tx oper com via) (\<lambda>_ u. u = w) (\<lambda>_ u. u = w) w"
    unfolding decide_read_def
    by (cases w) (auto simp: run split: option.split)
  then show ?thesis
    by (cases "decide_read tx oper com via w"; cases "fst (decide_read tx oper com via w)") (auto simp: runs_def)
qed

section \<open>The handlers follow the machine\<close>

lemma on_requestsD:
  "keeps (on_requests P) m \<Longrightarrow> P (m_requests (w_store w)) \<Longrightarrow> P (m_requests (w_store (snd (m w))))"
  by (simp add: keeps_def on_requests_def)

lemma decide_moves:
  assumes "mem_ok (w_store w)" and "target \<in> {Approved, Rejected}"
  shows "state_of (snd (decide b tx oper com via target w)) k = state_of w k
    \<or> k = tx \<and> oper \<noteq> [] \<and> state_of w k = Some Pending
      \<and> state_of (snd (decide b tx oper com via target w)) k = Some target"
proof (cases "decide b tx oper com via target w")
  case (Pair r v)
  then show ?thesis
    using runs_decide [OF assms(1), of b tx oper com via target]
    by (cases r) (auto simp: runs_def state_of_def decided_def split: if_splits)
qed

lemma step_machine:
  assumes "ra_step H F w l v" and "mem_ok (w_store w)"
  shows "machine l tx (state_of w tx) (state_of v tx)"
  using assms(1)
proof (cases rule: ra_step.cases)
  case (ra_submit csr p sig)
  have "moved Submission (m_requests (w_store w)) (m_requests (w_store (snd (submit H F csr p sig w))))"
    by (rule on_requestsD [OF keeps_submit_moved(1)]) simp
  then show ?thesis using ra_submit by (simp add: moved_def state_of_def)
next
  case (ra_submit_mtls csr p cn)
  have "moved Submission (m_requests (w_store w)) (m_requests (w_store (snd (submit_mtls H F csr p cn w))))"
    by (rule on_requestsD [OF keeps_submit_moved(2)]) simp
  then show ?thesis using ra_submit_mtls by (simp add: moved_def state_of_def)
next
  case (ra_approve t oper com via)
  then show ?thesis
    using decide_moves [OF assms(2), of Approved "fo_recorder (fl_options F)" t oper com via tx]
    by (auto simp: approve_def)
next
  case (ra_reject t oper com via)
  then show ?thesis
    using decide_moves [OF assms(2), of Rejected "fo_recorder (fl_options F)" t oper com via tx]
    by (auto simp: reject_def)
next
  case (ra_revoke sn r oper com via)
  have "m_requests (w_store v) = m_requests (w_store w)"
    unfolding ra_revoke(2) by (rule on_requestsD) (simp_all add: pres)
  with ra_revoke(1) show ?thesis by (simp add: state_of_def)
next
  case ra_publish
  have "m_requests (w_store v) = m_requests (w_store w)"
    unfolding ra_publish(2) by (rule on_requestsD) (simp_all add: pres)
  with ra_publish(1) show ?thesis by (simp add: state_of_def)
qed

lemma trace_mem_ok: "ra_trace H F w ls v \<Longrightarrow> mem_ok (w_store w) \<Longrightarrow> mem_ok (w_store v)"
  by (induction rule: ra_trace.induct) (auto dest: step_mem_ok)

lemma machine_decided:
  "machine l tx a b \<Longrightarrow> a \<in> {Some Approved, Some Rejected, Some Req_Issued} \<Longrightarrow>
     b \<in> {Some Approved, Some Rejected, Some Req_Issued}"
  by (cases l) auto

lemma machine_approved:
  "machine l tx a b \<Longrightarrow> b \<in> {Some Approved, Some Req_Issued} \<Longrightarrow>
     a \<in> {Some Approved, Some Req_Issued} \<or> (\<exists>oper. l = Approval tx oper \<and> oper \<noteq> [])"
  by (cases l) auto

lemma trace_decided:
  assumes "ra_trace H F w ls v" and "mem_ok (w_store w)"
    and "state_of w tx \<in> {Some Approved, Some Rejected, Some Req_Issued}"
  shows "state_of v tx \<in> {Some Approved, Some Rejected, Some Req_Issued}"
  using assms
proof (induction rule: ra_trace.induct)
  case (ra_snoc w ls u l v)
  show ?case
    by (rule machine_decided [OF step_machine [OF ra_snoc.hyps(2)]])
      (use ra_snoc trace_mem_ok in blast)+
qed

lemma trace_approved:
  assumes "ra_trace H F w ls v" and "mem_ok (w_store w)" and "state_of w tx \<in> {None, Some Pending}"
    and "state_of v tx \<in> {Some Approved, Some Req_Issued}"
  shows "\<exists>oper. Approval tx oper \<in> set ls \<and> oper \<noteq> []"
  using assms
proof (induction rule: ra_trace.induct)
  case (ra_nil w)
  then show ?case by auto
next
  case (ra_snoc w ls u l v)
  have "machine l tx (state_of u tx) (state_of v tx)"
    using ra_snoc trace_mem_ok by (intro step_machine) blast+
  from machine_approved [OF this ra_snoc.prems(3)] show ?case
  proof
    assume "state_of u tx \<in> {Some Approved, Some Req_Issued}"
    with ra_snoc.IH ra_snoc.prems(1,2) show ?thesis by auto
  next
    assume "\<exists>oper. l = Approval tx oper \<and> oper \<noteq> []"
    then show ?thesis by auto
  qed
qed

section \<open>Decisions are imputed, issued requests have their certificate\<close>

definition imputed :: "request \<Rightarrow> bool" where
  "imputed r \<longleftrightarrow> (rq_state r \<noteq> Pending \<longrightarrow> rq_operator r \<noteq> [] \<and> rq_decided_at r \<noteq> None)"

definition served :: "memory \<Rightarrow> request \<Rightarrow> bool" where
  "served s r \<longleftrightarrow> (rq_state r = Req_Issued \<longrightarrow>
     (\<exists>sn c. rq_certificate_serial r = Some sn \<and> live s (serial_key sn) = Some c
        \<and> crt_request_transaction_id c = rq_transaction_id r))"

definition accounted :: "memory \<Rightarrow> bool" where
  "accounted s \<longleftrightarrow> (\<forall>tx r. bt_get (m_requests s) tx = Some r \<longrightarrow> imputed r \<and> served s r)"

lemma accounted_frame:
  "m_requests t = m_requests s \<Longrightarrow> m_certificates t = m_certificates s \<Longrightarrow> accounted t = accounted s"
  by (simp add: accounted_def served_def live_def)

text \<open>Certificates are only added, and keep the request they were made for.\<close>

definition kept_live :: "memory \<Rightarrow> memory \<Rightarrow> bool" where
  "kept_live s t \<longleftrightarrow> (\<forall>k c. live s k = Some c \<longrightarrow> (\<exists>c'. live t k = Some c'
     \<and> crt_request_transaction_id c' = crt_request_transaction_id c))"

lemma served_more: "served s r \<Longrightarrow> kept_live s t \<Longrightarrow> served t r"
proof -
  assume s: "served s r" and k: "kept_live s t"
  show "served t r"
    unfolding served_def
  proof
    assume "rq_state r = Req_Issued"
    with s obtain sn c where c: "rq_certificate_serial r = Some sn" "live s (serial_key sn) = Some c"
      "crt_request_transaction_id c = rq_transaction_id r"
      unfolding served_def by blast
    moreover obtain c' where "live t (serial_key sn) = Some c'"
      "crt_request_transaction_id c' = crt_request_transaction_id c"
      using k c(2) unfolding kept_live_def by blast
    ultimately show "\<exists>sn c. rq_certificate_serial r = Some sn \<and> live t (serial_key sn) = Some c
        \<and> crt_request_transaction_id c = rq_transaction_id r" by auto
  qed
qed

lemma accounted_more:
  "accounted s \<Longrightarrow> m_requests t = m_requests s \<Longrightarrow> kept_live s t \<Longrightarrow> accounted t"
  unfolding accounted_def by (auto intro: served_more)

lemma keeps_accounted_world [pres]:
  "keeps (on_memory accounted) (on_store (reserve_serial sn p))"
  "keeps (on_memory accounted) (store_call (save_certificate c))"
  "keeps (on_memory accounted) (store_call (store_revoke sn d r))"
  "keeps (on_memory accounted) (store_call next_crl_number)"
  "keeps (on_memory accounted) (store_call (save_crl l))"
proof -
  have more: "accounted (s\<lparr>m_certificates := bt_insert k c (m_certificates s)\<rparr>)"
    if "accounted s" and "\<And>old. live s k = Some old \<Longrightarrow> crt_status c \<noteq> Reserved
      \<and> crt_request_transaction_id c = crt_request_transaction_id old" for s k c
    using that(1) by (rule accounted_more) (use that(2) in \<open>cases "live s k"; auto simp: kept_live_def\<close>)+
  show "keeps (on_memory accounted) (on_store (reserve_serial sn p))"
    "keeps (on_memory accounted) (store_call (save_certificate c))"
    "keeps (on_memory accounted) (store_call (store_revoke sn d r))"
    by (auto simp: keeps_runs run on_memory_def live_def intro!: more split: option.splits)
  show "keeps (on_memory accounted) (store_call next_crl_number)"
    "keeps (on_memory accounted) (store_call (save_crl l))"
    by (simp_all add: keeps_runs run on_memory_def accounted_def served_def live_def)
qed

lemma keeps_accounted_attempts [pres]: "keeps (on_memory accounted) (reserve_attempts D n p)"
proof (induction n)
  case (Suc n)
  then show ?case by (auto intro!: pres split: store_error.split)
qed (auto intro: pres)

lemma keeps_accounted_issuer [pres]:
  "keeps (on_memory accounted) (issue D wording I csr cn p tx)"
  "keeps (on_memory accounted) (revoke D I sn r oper com v)"
  "keeps (on_memory accounted) (publish_crl D I)"
  by (auto simp: issue_def revoke_def publish_crl_def Let_def ensure_not_revoked_def
      reserve_new_serial_def intro!: pres)

lemma keeps_accounted_owner [pres]: "keeps (on_memory accounted) (owner_of c)"
  unfolding owner_of_def by (auto intro!: pres split: store_error.split)

lemma keeps_accounted_supersede [pres]: "keeps (on_memory accounted) (supersede H F r sn c)"
  unfolding supersede_def by (auto intro!: pres)

lemma accounted_insert:
  assumes "accounted s" and "imputed r" and "served s r"
  shows "accounted (s\<lparr>m_requests := bt_insert tx r (m_requests s)\<rparr>)"
    and "accounted (s\<lparr>m_by_fingerprint := f, m_requests := bt_insert tx r (m_requests s)\<rparr>)"
  using assms by (auto simp: accounted_def served_def live_def)

lemma keeps_accounted_create [pres]:
  "rq_state r = Pending \<Longrightarrow> keeps (on_memory accounted) (ra_store (create_request r))"
  by (auto simp: keeps_runs run on_memory_def imputed_def served_def intro!: accounted_insert)

lemma keeps_accounted_decide [pres]:
  assumes "target \<noteq> Req_Issued"
  shows "keeps (on_memory accounted) (decide b tx oper com via target)"
proof -
  have "keeps (on_memory accounted) (decide_write b r oper com via target)" if "oper \<noteq> []" for r :: request
    using assms that unfolding decide_write_def Let_def
    by (auto simp: keeps_runs run on_memory_def decided_def imputed_def served_def
        intro!: accounted_insert split: option.split store_error.split)
  then show ?thesis
    unfolding decide_def decide_read_def
    by (auto simp: keeps_runs run on_memory_def split: option.split store_error.split)
qed

text \<open>The certificate just issued is the one the request is given.\<close>

lemma keeps_accounted_issue_request:
  assumes b: "builder_ok (rd_deps H)" and r: "imputed r" "rq_state r = Approved"
  shows "keeps (on_memory accounted) (issue_request H F r spki cn p)"
proof -
  let ?D = "rd_deps H" and ?I = "fo_issuer (fl_options F)"
  let ?tail = "\<lambda>now cert previous. bindr (ra_store (update_request (r\<lparr>rq_state := Req_Issued,
      rq_issued_at := Some now, rq_certificate_serial := Some (canonical_serial (x_serial cert))\<rparr>) Approved))
      (\<lambda>_. bindr (foreach previous (supersede H F r (canonical_serial (x_serial cert))))
      (\<lambda>_. bindr (map_err RaCa (publish_crl ?D ?I))
      (\<lambda>_. ok (delivered F (rq_transaction_id r) cert))))"
  let ?made = "\<lambda>cert v. on_memory accounted v \<and> (\<exists>c. live (w_store v)
      (serial_key (canonical_serial (x_serial cert))) = Some c
      \<and> crt_request_transaction_id c = rq_transaction_id r)"
  have made: "runs (map_err RaCa (issue ?D (rd_wording H) ?I spki cn p (rq_transaction_id r))) ?made
      (\<lambda>_. on_memory accounted) w" if "on_memory accounted w" for w :: "'b ca_world_scheme"
    unfolding runs_map_err
  proof (rule runs_mono [OF runs_conj [OF runs_keeps [OF keeps_accounted_issuer(1) that] runs_issue]])
    fix cert and v :: "'b ca_world_scheme"
    assume "on_memory accounted v \<and> (\<exists>c. live (w_store w) (serial_key (crt_serial c)) = None
        \<and> live (w_store v) = (live (w_store w))(serial_key (crt_serial c) \<mapsto> c)
        \<and> issued_by ?D ?I spki cn p (rq_transaction_id r) cert c \<and> (is_recorder ?I \<longrightarrow> (\<exists>data.
             j_entries (w_journal v) = j_entries (w_journal w) @ [(''ca.certificate_issued'', data)]
             \<and> j_get data ''serie'' = Some (JStr (hex_encode (crt_serial c)))
             \<and> j_get data ''demande'' = Some (JStr (rq_transaction_id r)))))"
    then show "?made cert v"
      using issued_byD(1,5) b by fastforce
  qed simp
  have tail: "runs (?tail now cert previous) (\<lambda>_. on_memory accounted) (\<lambda>_. on_memory accounted) w"
    if "?made cert w" for now cert previous and w :: "'b ca_world_scheme"
  proof -
    have "runs (ra_store (update_request (r\<lparr>rq_state := Req_Issued, rq_issued_at := Some now,
        rq_certificate_serial := Some (canonical_serial (x_serial cert))\<rparr>) Approved))
        (\<lambda>_. on_memory accounted) (\<lambda>_. on_memory accounted) w"
      using that r by (auto simp: run on_memory_def imputed_def served_def intro!: accounted_insert split: option.split)
    then show ?thesis
      unfolding runs_bindr [of "ra_store m" for m]
      by (rule runs_mono) (auto intro!: runs_keeps pres)
  qed
  show ?thesis
    unfolding issue_request_def Let_def
    by (auto intro!: pres keeps_bindr_then [where R = ?made] made tail)
qed

lemma keeps_accounted_resume:
  assumes "builder_ok (rd_deps H)" and "imputed r"
  shows "keeps (on_memory accounted) (resume H F r spki cn p)"
  using assms unfolding resume_def issued_certificate_def
  by (auto intro!: pres keeps_accounted_issue_request split: request_state.split)

lemma keeps_accounted_submit_as [pres]:
  assumes "builder_ok (rd_deps H)"
  shows "keeps (on_memory accounted) (submit_as H F q csr p)"
proof -
  have tail: "keeps (on_memory accounted) (bindr (attempt (on_store (request_by_fingerprint fp))) (\<lambda>existing.
     case existing of
       Inl NotFound \<Rightarrow> open_request H F csr cn pf fp (rr_name q)
     | Inl e \<Rightarrow> fail (RaStore e)
     | Inr r \<Rightarrow>
         if requester_key (rq_requester r) \<noteq> rr_name q then fail (RaOther OtherRequester)
         else if rq_profile r \<noteq> p then fail (RaOther (OtherProfile (rq_profile r) p))
         else resume H F r spki cn pf))" for fp cn spki pf
  proof (rule keeps_bindr_then [where R = "\<lambda>x v. on_memory accounted v \<and> (\<forall>r. x = Inr r \<longrightarrow> imputed r)"])
    fix w :: "'b ca_world_scheme"
    assume "on_memory accounted w"
    then show "runs (attempt (on_store (request_by_fingerprint fp)))
        (\<lambda>x v. on_memory accounted v \<and> (\<forall>r. x = Inr r \<longrightarrow> imputed r)) (\<lambda>_. on_memory accounted) w"
      by (auto simp: run on_memory_def accounted_def split: option.split)
  next
    fix x :: "store_error + request" and w :: "'b ca_world_scheme"
    assume x: "on_memory accounted w \<and> (\<forall>r. x = Inr r \<longrightarrow> imputed r)"
    show "runs (case x of Inl NotFound \<Rightarrow> open_request H F csr cn pf fp (rr_name q)
     | Inl e \<Rightarrow> fail (RaStore e)
     | Inr r \<Rightarrow>
         if requester_key (rq_requester r) \<noteq> rr_name q then fail (RaOther OtherRequester)
         else if rq_profile r \<noteq> p then fail (RaOther (OtherProfile (rq_profile r) p))
         else resume H F r spki cn pf) (\<lambda>_. on_memory accounted) (\<lambda>_. on_memory accounted) w"
      using x unfolding open_request_def Let_def
      by (intro runs_keeps) (auto intro!: pres keeps_accounted_resume assms simp: new_request_def
          split: sum.split store_error.split)
  qed
  show ?thesis
    unfolding submit_as_def Let_def
    by (rule tail pres | (split prod.split, intro allI impI))+
qed

lemma keeps_accounted_submit [pres]:
  assumes "builder_ok (rd_deps H)"
  shows "keeps (on_memory accounted) (submit H F csr p sig)"
    and "keeps (on_memory accounted) (submit_mtls H F csr p cn)"
  unfolding submit_def submit_mtls_def ensure_bootstrap_unused_def Let_def
  by (auto intro!: pres assms)

lemma step_accounted:
  assumes "ra_step H F w l v" and "builder_ok (rd_deps H)" and "accounted (w_store w)"
  shows "accounted (w_store v)"
  using assms(1)
  by (cases rule: ra_step.cases)
    (auto simp: approve_def reject_def intro!: on_memoryD [where P = accounted] assms(2,3) pres)

lemma trace_accounted:
  "ra_trace H F w ls v \<Longrightarrow> builder_ok (rd_deps H) \<Longrightarrow> accounted (w_store w) \<Longrightarrow> accounted (w_store v)"
  by (induction rule: ra_trace.induct) (auto dest: step_accounted)

section \<open>A renewal only revokes what is the requester's\<close>

text \<open>The requester of the request a certificate was made for.\<close>

definition owner_name :: "memory \<Rightarrow> certificate \<Rightarrow> string" where
  "owner_name s c = requester_key (case bt_get (m_requests s) (crt_request_transaction_id c) of
     None \<Rightarrow> [] | Some r \<Rightarrow> rq_requester r)"

definition same_requesters :: "memory \<Rightarrow> memory \<Rightarrow> bool" where
  "same_requesters s t \<longleftrightarrow> (\<forall>tx. map_option rq_requester (bt_get (m_requests t) tx)
     = map_option rq_requester (bt_get (m_requests s) tx))"

text \<open>What is active in \<open>s\<close> and revoked in \<open>t\<close> belongs to \<open>name\<close>.\<close>

definition revokes_own :: "string \<Rightarrow> memory \<Rightarrow> memory \<Rightarrow> bool" where
  "revokes_own name s t \<longleftrightarrow> (\<forall>k c. live s k = Some c \<longrightarrow>
     (\<exists>c'. live t k = Some c' \<and> crt_request_transaction_id c' = crt_request_transaction_id c
        \<and> (crt_status c' = Revoked \<longrightarrow> crt_status c = Revoked \<or> owner_name s c = name)))"

definition own_only :: "string \<Rightarrow> memory \<Rightarrow> memory \<Rightarrow> bool" where
  "own_only name s t \<longleftrightarrow> same_requesters s t \<and> revokes_own name s t"

lemma own_only_refl [simp]: "own_only name s s"
  by (simp add: own_only_def same_requesters_def revokes_own_def)

lemma owner_name_same:
  "same_requesters s t \<Longrightarrow> owner_name t c = owner_name s c"
proof -
  assume "same_requesters s t"
  then have "map_option rq_requester (bt_get (m_requests t) (crt_request_transaction_id c))
      = map_option rq_requester (bt_get (m_requests s) (crt_request_transaction_id c))"
    by (simp add: same_requesters_def)
  then show ?thesis by (auto simp: owner_name_def split: option.splits)
qed

end
