(* ===== verification/Raflow_Samples.thy ===== *)
theory Raflow_Samples
  imports Raflow
begin

text \<open>
  A concrete registration authority, and a register in which one requester obtains a
  certificate and renews it: the inputs on which the properties of \<open>Raflow_Spec\<close> are
  applied.
\<close>

text \<open>A register in which one requester renews a certificate.\<close>

definition sample_ra_deps :: ra_deps where
  "sample_ra_deps = \<lparr>rd_deps = sample_deps\<lparr>d_sha256 := (\<lambda>b. replicate 20 (if b = [] then 0 else hd b))\<rparr>,
     rd_hmac = (\<lambda>key msg. key @ msg),
     rd_csr = (\<lambda>b. Inr \<lparr>cs_subject = [(OID_CN, ''tsu-1'')], cs_public_key = b, cs_algorithm = sample_alg,
       cs_tbs = Inr b, cs_signature = b\<rparr>),
     rd_rsa_bits = (\<lambda>_. Inr 4096), rd_hash = (\<lambda>_ b. b), rd_verify = (\<lambda>_ _ _ digest sig. digest = sig),
     rd_wording = (\<lambda>_. [])\<rparr>"

definition sample_requester :: requester where
  "sample_requester = \<lparr>rr_name = ''tsa'', rr_secret = ''k'', rr_secret_expires_at = None,
     rr_client_cn = None, rr_profiles = [''tsa_signer''], rr_subject_cn = Some ''tsu-1''\<rparr>"

definition sample_flow :: flow where
  "sample_flow = \<lparr>fl_options = \<lparr>fo_issuer = sample_issuer, fo_hmac_secret = [],
      fo_requesters = [sample_requester], fo_recorder = True, fo_retry_after = seconds 5\<rparr>,
     fl_requesters = [sample_requester], fl_hmac_bootstrap_only = False\<rparr>"

definition sample_submit :: "bytes \<Rightarrow> ca_world \<Rightarrow> (raflow_error + submit_result) \<times> ca_world" where
  "sample_submit csr w = submit sample_ra_deps sample_flow csr ''tsa_signer''
     (signature sample_ra_deps csr ''k'') w"

definition sample_approve :: "bytes \<Rightarrow> ca_world \<Rightarrow> (raflow_error + request) \<times> ca_world" where
  "sample_approve csr w = approve True (transaction_id sample_ra_deps csr) ''alice'' ''ok'' WebAuthn w"

definition sample_first :: ca_world where
  "sample_first = snd (sample_submit [1] (snd (sample_approve [1] (snd (sample_submit [1]
     (sample_world memory_new))))))"

definition sample_second :: ca_world where
  "sample_second = snd (sample_approve [2] (snd (sample_submit [2] sample_first)))"

definition sample_renewed :: "(raflow_error + submit_result) \<times> ca_world" where
  "sample_renewed = sample_submit [2] sample_second"

lemma sample_revoked:
  "map_option crt_status (live (w_store (snd sample_renewed)) ''800102030405060708090a0b0c0d0e0f'') = Some Revoked"
  by code_simp

lemma sample_active:
  "map_option crt_status (live (w_store sample_second) ''800102030405060708090a0b0c0d0e0f'') = Some Issued"
  by code_simp

lemma sample_approvals:
  "ra_step sample_ra_deps sample_flow w Submission (snd (sample_submit csr w))"
  "ra_step sample_ra_deps sample_flow w (Approval (transaction_id sample_ra_deps csr) ''alice'')
     (snd (sample_approve csr w))"
  unfolding sample_submit_def sample_approve_def
   apply (rule ra_submit)
  using ra_approve [of sample_ra_deps sample_flow w "transaction_id sample_ra_deps csr" "''alice''" "''ok''" WebAuthn]
  by (simp add: sample_flow_def)

abbreviation sample_calls :: "bytes \<Rightarrow> ra_label list" where
  "sample_calls csr \<equiv> [Submission, Approval (transaction_id sample_ra_deps csr) ''alice'', Submission]"

lemma sample_first_trace:
  "ra_trace sample_ra_deps sample_flow (sample_world memory_new) (sample_calls [1]) sample_first"
  unfolding sample_first_def
  using ra_snoc [OF ra_snoc [OF ra_snoc [OF ra_nil sample_approvals(1)] sample_approvals(2)] sample_approvals(1)]
  by simp

lemma sample_second_ok: "mem_ok (w_store sample_second)"
proof -
  have "mem_ok (w_store sample_first)" by (rule trace_mem_ok [OF sample_first_trace]) simp
  then show ?thesis
    unfolding sample_second_def by (blast intro: step_mem_ok sample_approvals)
qed

lemma sample_first_issued: "state_of sample_first (transaction_id sample_ra_deps [1]) = Some Req_Issued"
  by code_simp

definition sample_pending :: ca_world where
  "sample_pending = snd (sample_submit [1] (sample_world memory_new))"

definition sample_read :: "(raflow_error + request) \<times> ca_world" where
  "sample_read = decide_read (transaction_id sample_ra_deps [1]) ''bob'' ''no'' WebAuthn sample_pending"

lemma sample_read_ok: "\<not> isl (fst sample_read)"
  by code_simp

lemma sample_read_world: "snd sample_read = sample_pending"
  unfolding sample_read_def by (rule decide_read_world)

lemma sample_approved_after:
  "state_of (snd (sample_approve [1] sample_pending)) (transaction_id sample_ra_deps [1]) = Some Approved"
  by code_simp

lemma sample_approve_ok: "\<not> isl (fst (sample_approve [1] sample_pending))"
  by code_simp

lemma sample_pending_state:
  "state_of sample_pending (transaction_id sample_ra_deps [1]) = Some Pending"
  by code_simp

lemma sample_deps_builder: "builder_ok (rd_deps sample_ra_deps)"
  by (simp add: sample_ra_deps_def builder_ok_def sample_deps_def)

end
