(* ===== verification/Raflow_Spec.thy ===== *)
theory Raflow_Spec
  imports Raflow_Samples
begin

text \<open>
  What the registration authority of \<open>Raflow\<close> promises: a request follows its state
  machine, a certificate is never issued without the approval of a named operator, one
  decision wins, a refusal of the journal opens no request, and a renewal revokes only
  what belongs to the requester who renews.
\<close>

section \<open>A renewal revokes only its own\<close>

lemma live_of_insert:
  "live (s\<lparr>m_certificates := bt_insert k c (m_certificates s)\<rparr>) =
     (if crt_status c = Reserved then (live s)(k := None) else (live s)(k \<mapsto> c))"
  by (auto simp: live_def fun_eq_iff)

lemma own_only_frame:
  "m_requests u = m_requests t \<Longrightarrow> m_certificates u = m_certificates t \<Longrightarrow>
     own_only name s u = own_only name s t"
  by (simp add: own_only_def same_requesters_def revokes_own_def live_def)

lemma own_only_live:
  "own_only name s t \<Longrightarrow> live s k = Some c0 \<Longrightarrow>
     \<exists>c. live t k = Some c \<and> crt_request_transaction_id c = crt_request_transaction_id c0
       \<and> (crt_status c = Revoked \<longrightarrow> crt_status c0 = Revoked \<or> owner_name s c0 = name)"
  by (auto simp: own_only_def revokes_own_def)

lemma own_only_insert:
  assumes "own_only name s t"
    and "\<And>c0. live s k = Some c0 \<Longrightarrow> crt_status c \<noteq> Reserved
          \<and> crt_request_transaction_id c = crt_request_transaction_id c0
          \<and> (crt_status c = Revoked \<longrightarrow> crt_status c0 = Revoked \<or> owner_name s c0 = name)"
  shows "own_only name s (t\<lparr>m_certificates := bt_insert k c (m_certificates t)\<rparr>)"
proof -
  have "\<exists>c'. live (t\<lparr>m_certificates := bt_insert k c (m_certificates t)\<rparr>) j = Some c'
      \<and> crt_request_transaction_id c' = crt_request_transaction_id c0
      \<and> (crt_status c' = Revoked \<longrightarrow> crt_status c0 = Revoked \<or> owner_name s c0 = name)"
    if "live s j = Some c0" for j c0
    using that own_only_live [OF assms(1) that] assms(2) [of c0]
    by (cases "j = k") (auto simp: live_of_insert)
  then show ?thesis
    using assms(1) by (simp add: own_only_def same_requesters_def revokes_own_def)
qed

lemma own_only_new:
  "own_only name s t \<Longrightarrow> live t k = None \<Longrightarrow>
     own_only name s (t\<lparr>m_certificates := bt_insert k c (m_certificates t)\<rparr>)"
  by (rule own_only_insert) (auto dest: own_only_live)

lemma own_only_revoked:
  assumes "own_only name s t" and "live t k = Some c"
    and "\<And>c0. live s k = Some c0 \<Longrightarrow> owner_name s c0 = name"
  shows "own_only name s (t\<lparr>m_certificates := bt_insert k
      (c\<lparr>crt_status := Revoked, crt_revoked_at := d, crt_revocation_reason := r\<rparr>) (m_certificates t)\<rparr>)"
  by (rule own_only_insert [OF assms(1)]) (use assms in \<open>auto dest!: own_only_live\<close>)

lemma keeps_own_world [pres]:
  "keeps (on_memory (own_only name s)) (on_store (reserve_serial sn p))"
  "keeps (on_memory (own_only name s)) (store_call (save_certificate c))"
  "keeps (on_memory (own_only name s)) (store_call next_crl_number)"
  "keeps (on_memory (own_only name s)) (store_call (save_crl l))"
proof -
  show "keeps (on_memory (own_only name s)) (on_store (reserve_serial sn p))"
    "keeps (on_memory (own_only name s)) (store_call (save_certificate c))"
    by (auto simp: keeps_runs run on_memory_def live_def intro!: own_only_new split: option.split)
qed (simp_all add: keeps_runs run on_memory_def own_only_def same_requesters_def revokes_own_def live_def)

lemma keeps_own_revoke:
  assumes "\<And>c0. live s (serial_key sn) = Some c0 \<Longrightarrow> owner_name s c0 = name"
  shows "keeps (on_memory (own_only name s)) (revoke D I sn r oper com v)"
proof -
  have "keeps (own_only name s) (store_revoke sn d r)" for d
    using assms
    by (auto simp: keeps_runs run live_def intro!: own_only_revoked split: option.split)
  then show ?thesis by (auto simp: revoke_def Let_def intro!: pres)
qed

lemma keeps_own_attempts [pres]: "keeps (on_memory (own_only name s)) (reserve_attempts D n p)"
proof (induction n)
  case (Suc n)
  then show ?case by (auto intro!: pres split: store_error.split)
qed (auto intro: pres)

lemma keeps_own_issuer [pres]:
  "keeps (on_memory (own_only name s)) (issue D wording I csr cn p tx)"
  "keeps (on_memory (own_only name s)) (publish_crl D I)"
  by (auto simp: issue_def publish_crl_def Let_def ensure_not_revoked_def reserve_new_serial_def intro!: pres)

text \<open>A certificate that is active in \<open>t\<close> is, in \<open>s\<close>, one of the same request.\<close>

definition same_requests :: "memory \<Rightarrow> certificate list \<Rightarrow> bool" where
  "same_requests s previous \<longleftrightarrow> (\<forall>c \<in> set previous. \<forall>c0.
     live s (serial_key (crt_serial c)) = Some c0 \<longrightarrow>
     crt_request_transaction_id c0 = crt_request_transaction_id c)"

lemma owner_name_request:
  "crt_request_transaction_id a = crt_request_transaction_id b \<Longrightarrow> owner_name s a = owner_name s b"
  by (simp add: owner_name_def)

lemma keeps_own_supersede:
  assumes "name = requester_key (rq_requester r)" and "same_requests s previous" and "c \<in> set previous"
  shows "keeps (on_memory (own_only name s)) (supersede H F r sn c)"
  unfolding supersede_def
proof (rule keeps_bindr_then [where R = "\<lambda>owner w. on_memory (own_only name s) w
    \<and> requester_key owner = owner_name s c"])
  fix w :: "'b ca_world_scheme"
  assume w: "on_memory (own_only name s) w"
  then have "owner_name (w_store w) c = owner_name s c"
    by (auto simp: on_memory_def own_only_def intro: owner_name_same)
  with w show "runs (owner_of c) (\<lambda>owner w. on_memory (own_only name s) w \<and> requester_key owner = owner_name s c)
      (\<lambda>_. on_memory (own_only name s)) w"
    by (auto simp: owner_of_def run owner_name_def split: option.splits)
next
  fix owner and w :: "'b ca_world_scheme"
  assume w: "on_memory (own_only name s) w \<and> requester_key owner = owner_name s c"
  have "keeps (on_memory (own_only name s)) (revoke D I (crt_serial c) r' oper com v)"
    if "requester_key owner = name" for D I r' oper com v
  proof (rule keeps_own_revoke)
    fix c0
    assume "live s (serial_key (crt_serial c)) = Some c0"
    with assms(2,3) have "owner_name s c0 = owner_name s c"
      by (intro owner_name_request) (simp add: same_requests_def)
    with that w show "owner_name s c0 = name" by simp
  qed
  then show "runs (if requester_key owner \<noteq> requester_key (rq_requester r) then
       ra_record (fo_recorder (fl_options F)) ''ca.renewal_revocation_skipped'' (JObj
         [(''serie_ancienne'', JStr (hex_encode (crt_serial c))),
          (''serie_nouvelle'', JStr (hex_encode sn)),
          (''demandeur_ancien'', JStr (requester_key owner)),
          (''demandeur_nouveau'', JStr (requester_key (rq_requester r)))])
     else map_err RaCa (revoke (rd_deps H) (fo_issuer (fl_options F)) (crt_serial c) SUPERSEDED
            ''raflow:renouvellement'' (replaced_by sn) Automatic))
      (\<lambda>_. on_memory (own_only name s)) (\<lambda>_. on_memory (own_only name s)) w"
    using w assms(1) by (intro runs_keeps) (auto intro!: pres)
qed

lemma keeps_own_update [pres]:
  "keeps (own_only name s) (update_request (r\<lparr>rq_state := st, rq_issued_at := i,
     rq_certificate_serial := sn\<rparr>) Approved)" if "map_option rq_requester (bt_get (m_requests s) (rq_transaction_id r)) = Some (rq_requester r)"
  using that
  by (auto simp: keeps_runs run own_only_def same_requesters_def revokes_own_def live_def
      split: option.split)

lemma active_same_requests:
  assumes "mem_ok t" and "own_only name s t"
  shows "same_requests s (sort_key crt_serial (filter P (bt_values (m_certificates t))))"
proof -
  have "crt_request_transaction_id c0 = crt_request_transaction_id c"
    if c: "c \<in> set (bt_values (m_certificates t))" and c0: "live s (serial_key (crt_serial c)) = Some c0" for c c0
  proof -
    have "bt_get (m_certificates t) (serial_key (crt_serial c)) = Some c"
      using mem_ok_certs [OF assms(1), of c] c by simp
    with own_only_live [OF assms(2) c0] show ?thesis by (auto simp: live_def split: if_splits)
  qed
  then show ?thesis unfolding same_requests_def set_sort set_filter by blast
qed

lemma runs_issue_request_own:
  assumes ok: "mem_ok (w_store w)" and r: "bt_get (m_requests (w_store w)) (rq_transaction_id r) = Some r"
  shows "runs (issue_request H F r spki cn p) (\<lambda>_. on_memory (own_only (requester_key (rq_requester r)) (w_store w)))
    (\<lambda>_. on_memory (own_only (requester_key (rq_requester r)) (w_store w))) w"
proof -
  let ?own = "on_memory (own_only (requester_key (rq_requester r)) (w_store w))"
  have rest: "runs (bindr (map_err RaCa (issue D wording I spki cn p tx)) (\<lambda>cert.
     bindr (ra_store (update_request (r\<lparr>rq_state := Req_Issued, rq_issued_at := Some now,
              rq_certificate_serial := Some (canonical_serial (x_serial cert))\<rparr>) Approved)) (\<lambda>_.
     bindr (foreach (sort_key crt_serial (filter P (bt_values (m_certificates (w_store w)))))
        (supersede H F r (canonical_serial (x_serial cert)))) (\<lambda>_.
     bindr (map_err RaCa (publish_crl D I)) (\<lambda>_. ok (f cert)))))) (\<lambda>_. ?own) (\<lambda>_. ?own) v"
    if "w_store v = w_store w" for D wording I tx now P and f :: "x509 \<Rightarrow> submit_result" and v :: "'b ca_world_scheme"
  proof (rule runs_keeps)
    show "?own v" using that by (simp add: on_memory_def)
  next
    have "same_requests (w_store w) (sort_key crt_serial (filter P (bt_values (m_certificates (w_store w)))))"
      by (rule active_same_requests [OF ok own_only_refl])
    then show "keeps ?own (bindr (map_err RaCa (issue D wording I spki cn p tx)) (\<lambda>cert.
     bindr (ra_store (update_request (r\<lparr>rq_state := Req_Issued, rq_issued_at := Some now,
              rq_certificate_serial := Some (canonical_serial (x_serial cert))\<rparr>) Approved)) (\<lambda>_.
     bindr (foreach (sort_key crt_serial (filter P (bt_values (m_certificates (w_store w)))))
        (supersede H F r (canonical_serial (x_serial cert)))) (\<lambda>_.
     bindr (map_err RaCa (publish_crl D I)) (\<lambda>_. ok (f cert))))))"
      using r by (intro pres keeps_own_update keeps_own_supersede
        [where previous = "sort_key crt_serial (filter P (bt_values (m_certificates (w_store w))))"]) simp_all
  qed
  show ?thesis
    unfolding issue_request_def Let_def
    by (auto simp: runs_bindr [of "lift m" for m] runs_bindr [of now_utc] runs_bindr [of "ra_store (active_by_subject dn t)" for dn t]
      runs_lift runs_now_utc runs_ra_store runs_on_store runs_active_by_subject on_memory_def [of "own_only n m" w for n m]
      intro!: rest split: sum.split)
qed

lemma revokes_own_refl [simp]: "revokes_own name s s"
  by (simp add: revokes_own_def)

lemma keeps_revokes_own_open [pres]:
  "keeps (on_memory (revokes_own name s)) (open_request H F csr cn p fp q)"
proof -
  have "keeps (revokes_own name s) (create_request r)" for r :: request
    by (auto simp: keeps_runs run revokes_own_def live_def)
  then show ?thesis unfolding open_request_def Let_def by (auto intro!: pres)
qed

lemma runs_resume_own:
  assumes "mem_ok (w_store w)" and "bt_get (m_requests (w_store w)) tx = Some r"
    and "requester_key (rq_requester r) = name"
  shows "runs (resume H F r spki cn p) (\<lambda>_. on_memory (revokes_own name (w_store w)))
    (\<lambda>_. on_memory (revokes_own name (w_store w))) w"
proof -
  have "rq_transaction_id r = tx" using assms(1,2) by (rule mem_ok_request_id)
  with assms have "runs (issue_request H F r spki cn p)
      (\<lambda>_. on_memory (own_only (requester_key (rq_requester r)) (w_store w)))
      (\<lambda>_. on_memory (own_only (requester_key (rq_requester r)) (w_store w))) w"
    by (intro runs_issue_request_own) simp_all
  then have "runs (issue_request H F r spki cn p) (\<lambda>_. on_memory (revokes_own name (w_store w)))
      (\<lambda>_. on_memory (revokes_own name (w_store w))) w"
    by (rule runs_mono) (simp_all add: on_memory_def own_only_def assms(3))
  then show ?thesis
    by (auto simp: resume_def issued_certificate_def run on_memory_def split: request_state.split option.split)
qed

lemma runs_submit_as_own:
  assumes "mem_ok (w_store w)"
  shows "runs (submit_as H F q csr p) (\<lambda>_. on_memory (revokes_own (rr_name q) (w_store w)))
    (\<lambda>_. on_memory (revokes_own (rr_name q) (w_store w))) w"
proof -
  have refl: "on_memory (revokes_own (rr_name q) (w_store w)) w"
    by (simp add: on_memory_def)
  note opened = runs_keeps [OF keeps_revokes_own_open refl]
  show ?thesis
    unfolding submit_as_def Let_def
    by (auto simp: runs_bindr [of "lift m" for m] runs_bindr [of "attempt m" for m] runs_lift runs_attempt
        runs_on_store runs_request_by_fingerprint runs_if runs_fail refl
        intro!: opened runs_resume_own [OF assms] split: option.split sum.split prod.split)
qed

lemma runs_submit_own:
  fixes w :: "'x ca_world_scheme"
  assumes "mem_ok (w_store w)"
  shows "runs (submit H F csr p sig)
    (\<lambda>_ v. \<exists>q \<in> set (fl_requesters F). by_secret H csr sig (w_clock w (w_tick w)) q
         \<and> revokes_own (rr_name q) (w_store w) (w_store v))
    (\<lambda>_ v. w_store v = w_store w \<or> (\<exists>q \<in> set (fl_requesters F). by_secret H csr sig (w_clock w (w_tick w)) q
         \<and> revokes_own (rr_name q) (w_store w) (w_store v))) w"
proof -
  have tail: "runs (submit_as H F q csr p)
      (\<lambda>_ v. \<exists>q \<in> set (fl_requesters F). by_secret H csr sig t q \<and> revokes_own (rr_name q) s (w_store v))
      (\<lambda>_ v. w_store v = s \<or> (\<exists>q \<in> set (fl_requesters F). by_secret H csr sig t q
         \<and> revokes_own (rr_name q) s (w_store v))) u"
    if "find (by_secret H csr sig t) (fl_requesters F) = Some q" and "w_store u = s" and "mem_ok s"
    for q t s p and u :: "'x ca_world_scheme"
  proof (rule runs_mono [OF runs_submit_as_own])
    have "q \<in> set (fl_requesters F)" "by_secret H csr sig t q"
      using that(1) by (auto simp: find_Some_iff)
    then show "on_memory (revokes_own (rr_name q) (w_store u)) v \<Longrightarrow>
        \<exists>q \<in> set (fl_requesters F). by_secret H csr sig t q \<and> revokes_own (rr_name q) s (w_store v)"
      "on_memory (revokes_own (rr_name q) (w_store u)) v \<Longrightarrow> w_store v = s \<or>
        (\<exists>q \<in> set (fl_requesters F). by_secret H csr sig t q \<and> revokes_own (rr_name q) s (w_store v))" for v
      using that(2) by (auto simp: on_memory_def)
  qed (use that in simp)
  show ?thesis
    unfolding submit_def ensure_bootstrap_unused_def Let_def
    by (auto simp: run ok_or_def assms intro!: tail split: option.splits)
qed

section \<open>Properties\<close>




text \<open>C15. The machine of a request. Whatever handler of the registration authority runs, to
  whatever result, each request goes through a transition of the abstract machine (absent to
  pending by a submission, pending to approved or rejected by a decision of a named operator,
  approved to issued by a submission, nothing else), and the register stays well formed.\<close>

theorem requests_follow_machine:
  assumes "ra_step H F w l v" and "mem_ok (w_store w)"
  shows "machine l tx (state_of w tx) (state_of v tx) \<and> mem_ok (w_store v)"
  using step_machine [OF assms] step_mem_ok [OF assms] by simp

theorem requests_follow_machine_witness:
  "\<forall>tx. machine (Approval (transaction_id sample_ra_deps [1]) ''alice'') tx
     (state_of (snd (sample_submit [1] (sample_world memory_new))) tx)
     (state_of (snd (sample_approve [1] (snd (sample_submit [1] (sample_world memory_new))))) tx)"
  using requests_follow_machine [OF sample_approvals(2), of "snd (sample_submit [1] (sample_world memory_new))"]
    step_mem_ok [OF sample_approvals(1), of "sample_world memory_new"] by simp

text \<open>C14. No certificate without an approval. Along any sequence of calls, a request that was
  absent or pending at first and is approved or issued at the end was approved in between by an
  operator whose name is not empty.\<close>

theorem issued_was_approved:
  assumes "ra_trace H F w ls v" and "mem_ok (w_store w)" and "state_of w tx \<in> {None, Some Pending}"
    and "state_of v tx \<in> {Some Approved, Some Req_Issued}"
  shows "\<exists>oper. Approval tx oper \<in> set ls \<and> oper \<noteq> []"
  using assms by (rule trace_approved)

theorem issued_was_approved_witness:
  "\<exists>oper. Approval (transaction_id sample_ra_deps [1]) oper \<in> set (sample_calls [1]) \<and> oper \<noteq> []"
  by (rule issued_was_approved [OF sample_first_trace])
    (simp_all add: sample_first_issued, simp_all add: state_of_def memory_new_def)

text \<open>C19. From an empty register on, whatever the calls: a request that is no longer pending
  carries the operator who decided it and the date, and one that is issued carries the serial
  number of a certificate of the register, in force or revoked, that this request obtained.\<close>

theorem requests_accounted:
  assumes "ra_trace H F w ls v" and "builder_ok (rd_deps H)" and "w_store w = memory_new"
    and "bt_get (m_requests (w_store v)) tx = Some r"
  shows "(rq_state r \<noteq> Pending \<longrightarrow> rq_operator r \<noteq> [] \<and> rq_decided_at r \<noteq> None)
    \<and> (rq_state r = Req_Issued \<longrightarrow> (\<exists>sn c. rq_certificate_serial r = Some sn
         \<and> live (w_store v) (serial_key sn) = Some c \<and> crt_request_transaction_id c = tx))"
proof -
  have "accounted (w_store w)" by (simp add: assms(3) accounted_def memory_new_def)
  with assms(1,2) have "accounted (w_store v)" by (rule trace_accounted)
  moreover have "rq_transaction_id r = tx"
    using trace_mem_ok [OF assms(1)] assms(3,4) by (auto intro: mem_ok_request_id)
  ultimately show ?thesis using assms(4) by (auto simp: accounted_def imputed_def served_def)
qed

theorem requests_accounted_witness:
  "\<exists>r sn c. bt_get (m_requests (w_store sample_first)) (transaction_id sample_ra_deps [1]) = Some r
     \<and> rq_operator r \<noteq> [] \<and> rq_certificate_serial r = Some sn
     \<and> live (w_store sample_first) (serial_key sn) = Some c"
proof -
  obtain r where r: "bt_get (m_requests (w_store sample_first)) (transaction_id sample_ra_deps [1]) = Some r"
    "rq_state r = Req_Issued"
    using sample_first_issued by (auto simp: state_of_def)
  from requests_accounted [OF sample_first_trace sample_deps_builder _ r(1)] r show ?thesis by auto
qed

lemma machine_present: "machine l tx (Some a) b \<Longrightarrow> b \<noteq> None"
  by (cases l) auto

lemma trace_present:
  assumes "ra_trace H F w ls v" and "mem_ok (w_store w)" and "state_of w tx \<noteq> None"
  shows "state_of v tx \<noteq> None"
  using assms
proof (induction rule: ra_trace.induct)
  case (ra_snoc w ls u l v)
  have "machine l tx (state_of u tx) (state_of v tx)"
    using ra_snoc trace_mem_ok by (intro step_machine) blast+
  then show ?case using ra_snoc.IH ra_snoc.prems by (auto dest: machine_present)
qed

text \<open>C16. Two operators have read the same pending request. If another decision was written before
  the second one writes, whatever else happened, that second one is refused with \<open>NotPending\<close> and
  leaves the register and the journal as they are.\<close>

theorem first_decision_wins:
  assumes "mem_ok (w_store w)" and "decide_read tx oper com via w = (Inr r, u)"
    and "ra_trace H F u ls v" and "state_of v tx \<noteq> Some Pending"
    and "decide_write b r oper com via target v = (res, v')"
  shows "res = Inl (NotPending ''PENDING'') \<and> w_store v' = w_store v \<and> w_journal v' = w_journal v"
proof -
  have "runs (decide_read tx oper com via)
      (\<lambda>r u. bt_get (m_requests (w_store w)) tx = Some r) (\<lambda>_ _. True) w"
    unfolding decide_read_def by (auto simp: run split: option.split)
  with assms(1,2) have r: "bt_get (m_requests (w_store w)) tx = Some r" "rq_transaction_id r = tx"
    by (auto dest: runs_okD intro: mem_ok_request_id)
  have "u = w" using decide_read_world [of tx oper com via w] assms(2) by simp
  then have "mem_ok (w_store v)" "state_of v tx \<noteq> None"
    using trace_mem_ok [OF assms(3)] trace_present [OF assms(3)] assms(1) r(1)
    by (simp_all add: state_of_def)
  with r(2) have "runs (decide_write b r oper com via target) (\<lambda>_ _. False)
      (\<lambda>e t. e = NotPending ''PENDING'' \<and> w_store t = w_store v \<and> w_journal t = w_journal v) v"
    using assms(4) unfolding decide_write_def decided_def Let_def
    by (auto simp: run state_of_def split: option.split)
  with assms(5) show ?thesis by (cases res) (auto simp: runs_def)
qed

theorem first_decision_wins_witness:
  "\<exists>r u. decide_read (transaction_id sample_ra_deps [1]) ''bob'' ''no'' WebAuthn sample_pending = (Inr r, u)
     \<and> fst (decide_write True r ''bob'' ''no'' WebAuthn Rejected (snd (sample_approve [1] u)))
         = Inl (NotPending ''PENDING'')"
proof -
  obtain r where r: "decide_read (transaction_id sample_ra_deps [1]) ''bob'' ''no'' WebAuthn sample_pending
      = (Inr r, sample_pending)"
    using sample_read_ok sample_read_world unfolding sample_read_def
    by (metis prod.collapse sum.collapse(2))
  have "mem_ok (w_store sample_pending)"
    unfolding sample_pending_def by (rule step_mem_ok [OF sample_approvals(1)]) simp
  moreover have "ra_trace sample_ra_deps sample_flow sample_pending
      ([] @ [Approval (transaction_id sample_ra_deps [1]) ''alice'']) (snd (sample_approve [1] sample_pending))"
    by (rule ra_snoc [OF ra_nil sample_approvals(2)])
  ultimately have "fst (decide_write True r ''bob'' ''no'' WebAuthn Rejected (snd (sample_approve [1] sample_pending)))
      = Inl (NotPending ''PENDING'')"
    using first_decision_wins [OF _ r, of sample_ra_deps sample_flow _ _ True Rejected] sample_approved_after
    by (metis option.inject prod.collapse request_state.distinct(1))
  with r show ?thesis by auto
qed

text \<open>What an approval does. It succeeds only for a named operator (with a comment from the
  command line) on a pending request; it changes that request only, and the journal has its
  entry. When it fails the register is as before, unless the failure is that of the journal,
  which comes after the change.\<close>

theorem decision_outcome:
  assumes "mem_ok (w_store w)" and "approve recorder tx oper com via w = (res, v)"
  shows "case res of
      Inr r \<Rightarrow> oper \<noteq> [] \<and> (\<forall>i. via = Cli i \<longrightarrow> trim com \<noteq> [])
        \<and> (\<exists>old. bt_get (m_requests (w_store w)) tx = Some old \<and> rq_state old = Pending
             \<and> r = old\<lparr>rq_state := Approved, rq_operator := oper, rq_comment := com,
                       rq_decided_at := Some (w_clock w (w_tick w))\<rparr>)
        \<and> w_store v = (w_store w)\<lparr>m_requests := bt_insert tx r (m_requests (w_store w))\<rparr>
        \<and> (recorder \<longrightarrow> j_entries (w_journal v) = j_entries (w_journal w) @
             [(''ca.request_approved'', decision_event r oper com via)])
    | Inl e \<Rightarrow> w_store v = w_store w \<or> (\<exists>m. e = RaOther (RaJournal m))"
  using assms(2) runs_decide [OF assms(1), of recorder tx oper com via Approved]
  unfolding approve_def
  by (cases res) (auto simp: runs_def decided_def require_def)

theorem decision_outcome_witness:
  "\<exists>r. fst (sample_approve [1] sample_pending) = Inr r \<and> rq_operator r = ''alice''
     \<and> last (j_entries (w_journal (snd (sample_approve [1] sample_pending))))
         = (''ca.request_approved'', decision_event r ''alice'' ''ok'' WebAuthn)"
proof -
  have ok: "mem_ok (w_store sample_pending)"
    unfolding sample_pending_def by (rule step_mem_ok [OF sample_approvals(1)]) simp
  have "approve True (transaction_id sample_ra_deps [1]) ''alice'' ''ok'' WebAuthn sample_pending
      = (fst (sample_approve [1] sample_pending), snd (sample_approve [1] sample_pending))"
    by (simp add: sample_approve_def)
  from decision_outcome [OF ok this] sample_approve_ok show ?thesis
    by (cases "fst (sample_approve [1] sample_pending)") auto
qed

text \<open>What a submission that is taken into account has shown.\<close>

definition entitled :: "ra_deps \<Rightarrow> flow \<Rightarrow> bytes \<Rightarrow> string \<Rightarrow> string \<Rightarrow> instant \<Rightarrow> bool" where
  "entitled H F csr p sig now \<longleftrightarrow> (\<exists>q \<in> set (fl_requesters F). \<exists>k cn spki bits.
     rr_secret q \<noteq> [] \<and> (\<forall>t. rr_secret_expires_at q = Some t \<longrightarrow> now \<le> t)
     \<and> hex_decode sig = Some (rd_hmac H (text_bytes (rr_secret q)) csr)
     \<and> (fl_hmac_bootstrap_only F \<and> rr_client_cn q \<noteq> None \<longrightarrow> p = PROFILE_ENROLL_CLIENT)
     \<and> allows q p \<and> admit_request H q csr p = Inr (k, cn, spki)
     \<and> rd_rsa_bits H spki = Inr bits \<and> MIN_RSA_KEY_BITS \<le> bits
     \<and> (\<forall>c. p \<noteq> PROFILE_ENROLL_CLIENT \<and> rr_subject_cn q = Some c \<longrightarrow> cn = c)
     \<and> (p = PROFILE_ENROLL_CLIENT \<longrightarrow> rr_client_cn q = Some cn))"

lemma admit_requestD:
  "admit_request H q csr p = Inr (k, cn, spki) \<Longrightarrow>
     allows q p \<and> (\<exists>bits. rd_rsa_bits H spki = Inr bits \<and> MIN_RSA_KEY_BITS \<le> bits)
     \<and> (\<forall>c. p \<noteq> PROFILE_ENROLL_CLIENT \<and> rr_subject_cn q = Some c \<longrightarrow> cn = c)
     \<and> (p = PROFILE_ENROLL_CLIENT \<longrightarrow> rr_client_cn q = Some cn)"
  unfolding admit_request_def parse_and_verify_csr_def Let_def
  by (auto simp: wp split: prod.splits if_splits option.splits)

lemma by_secretD:
  "by_secret H csr sig now q \<Longrightarrow> rr_secret q \<noteq> [] \<and> (\<forall>t. rr_secret_expires_at q = Some t \<longrightarrow> now \<le> t)
     \<and> hex_decode sig = Some (rd_hmac H (text_bytes (rr_secret q)) csr)"
  by (auto simp: by_secret_def verify_hmac_def require_def split: option.splits if_splits)

lemma runs_submit_entitled:
  fixes w :: "'x ca_world_scheme"
  shows "runs (submit H F csr p sig) (\<lambda>_ _. entitled H F csr p sig (w_clock w (w_tick w)))
     (\<lambda>_ v. entitled H F csr p sig (w_clock w (w_tick w))
        \<or> w_store v = w_store w \<and> w_journal v = w_journal w) w"
proof -
  let ?ok = "\<lambda>p. entitled H F csr p sig (w_clock w (w_tick w))"
  have tail: "runs (submit_as H F q csr p) (\<lambda>_ _. ?ok p) (\<lambda>_ v. ?ok p \<or> w_store v = s \<and> w_journal v = j) u"
    if "find (by_secret H csr sig (w_clock w (w_tick w))) (fl_requesters F) = Some q"
      and "fl_hmac_bootstrap_only F \<and> rr_client_cn q \<noteq> None \<longrightarrow> p = PROFILE_ENROLL_CLIENT"
      and "w_store u = s" and "w_journal u = j" for q s j p and u :: "'x ca_world_scheme"
  proof -
    have q: "q \<in> set (fl_requesters F)" "by_secret H csr sig (w_clock w (w_tick w)) q"
      using that(1) by (auto simp: find_Some_iff)
    have "?ok p" if "admit_request H q csr p = Inr (k, cn, spki)" for k cn spki
      using admit_requestD [OF that] by_secretD [OF q(2)] q(1) \<open>_ \<longrightarrow> p = PROFILE_ENROLL_CLIENT\<close> that
      unfolding entitled_def by blast
    then consider e where "admit_request H q csr p = Inl e" | "?ok p"
      by (cases "admit_request H q csr p") auto
    then show ?thesis
    proof cases
      case 1
      then show ?thesis using that(3,4) by (simp add: submit_as_def run)
    qed (simp add: runs_def split: prod.split sum.split)
  qed
  show ?thesis
    unfolding submit_def ensure_bootstrap_unused_def Let_def
    by (auto simp: run ok_or_def intro!: tail split: option.splits)
qed



text \<open>A request that was not there appears only in \<open>open_request\<close>, after its entry.\<close>

lemma keeps_absent_resume [pres]:
  "keeps (on_requests (\<lambda>m. bt_get m tx = None)) (resume H F r spki cn p)"
proof -
  have "keeps (on_requests (\<lambda>m. bt_get m tx = None)) (ra_store (update_request q st))" for q :: request and st
    by (auto simp: keeps_runs run on_requests_def split: option.split)
  then show ?thesis
    unfolding resume_def issue_request_def Let_def
    by (auto intro!: pres split: request_state.split)
qed

definition received :: "bool \<Rightarrow> string \<Rightarrow> 'x ca_world_scheme \<Rightarrow> 'x ca_world_scheme \<Rightarrow> bool" where
  "received recorder tx w v \<longleftrightarrow> (\<forall>r. bt_get (m_requests (w_store v)) tx = Some r \<longrightarrow>
     rq_state r = Pending \<and> (recorder \<longrightarrow> (\<exists>data.
       j_entries (w_journal v) = j_entries (w_journal w) @ [(''ca.request_received'', data)]
       \<and> j_get data ''transaction'' = Some (JStr tx)
       \<and> j_get data ''demandeur'' = Some (JStr (rq_requester r))
       \<and> j_get data ''empreinte'' = Some (JStr (rq_csr_fingerprint r)))))"

lemma received_absent: "bt_get (m_requests (w_store v)) tx = None \<Longrightarrow> received recorder tx w v"
  by (simp add: received_def)

lemma runs_open_received:
  assumes "bt_get (m_requests (w_store w)) tx = None"
  shows "runs (open_request H F csr cn p fp q) (\<lambda>_. received (fo_recorder (fl_options F)) tx w)
    (\<lambda>_. received (fo_recorder (fl_options F)) tx w) w"
  using assms unfolding open_request_def Let_def
  by (auto simp: run received_def new_request_def)

lemma runs_submit_as_received:
  assumes "bt_get (m_requests (w_store w)) tx = None"
  shows "runs (submit_as H F q csr p) (\<lambda>_. received (fo_recorder (fl_options F)) tx w)
    (\<lambda>_. received (fo_recorder (fl_options F)) tx w) w"
proof -
  have resumed: "runs (resume H F r spki cn k) (\<lambda>_. received (fo_recorder (fl_options F)) tx w)
      (\<lambda>_. received (fo_recorder (fl_options F)) tx w) w" for r spki cn k
    by (rule runs_mono [OF runs_keeps [OF keeps_absent_resume]])
      (use assms in \<open>auto simp: on_requests_def intro: received_absent\<close>)
  show ?thesis
    unfolding submit_as_def Let_def
    by (auto simp: runs_bindr [of "lift m" for m] runs_bindr [of "attempt m" for m] runs_lift runs_attempt
        runs_on_store runs_request_by_fingerprint runs_if runs_fail
        intro!: runs_open_received resumed assms received_absent split: option.split sum.split prod.split)
qed

lemma received_from:
  "received b tx u v \<Longrightarrow> w_journal u = w_journal w \<Longrightarrow> received b tx w v"
  by (simp add: received_def)

lemma runs_submit_received:
  fixes w :: "'x ca_world_scheme"
  assumes "bt_get (m_requests (w_store w)) tx = None"
  shows "runs (submit H F csr p sig) (\<lambda>_. received (fo_recorder (fl_options F)) tx w)
    (\<lambda>_. received (fo_recorder (fl_options F)) tx w) w"
proof -
  have tail: "runs (submit_as H F q csr p) (\<lambda>_. received (fo_recorder (fl_options F)) tx w)
      (\<lambda>_. received (fo_recorder (fl_options F)) tx w) u"
    if "w_store u = w_store w" and "w_journal u = w_journal w" for q p and u :: "'x ca_world_scheme"
    by (rule runs_mono [OF runs_submit_as_received [where w = u]])
      (use that assms in \<open>auto intro: received_from\<close>)
  show ?thesis
    unfolding submit_def ensure_bootstrap_unused_def Let_def
    by (auto simp: run ok_or_def received_absent assms intro!: tail split: option.splits)
qed

text \<open>A request that a submission adds to the register is pending, and its entry
  \<open>ca.request_received\<close>, with its transaction, fingerprint and requester, was accepted by the
  journal in the same call.\<close>

theorem request_opened_after_its_entry:
  assumes "submit H F csr p sig w = (res, v)" and "fo_recorder (fl_options F)"
    and "bt_get (m_requests (w_store w)) tx = None" and "bt_get (m_requests (w_store v)) tx = Some r"
  shows "rq_state r = Pending \<and> (\<exists>data.
       j_entries (w_journal v) = j_entries (w_journal w) @ [(''ca.request_received'', data)]
       \<and> j_get data ''transaction'' = Some (JStr tx)
       \<and> j_get data ''demandeur'' = Some (JStr (rq_requester r))
       \<and> j_get data ''empreinte'' = Some (JStr (rq_csr_fingerprint r)))"
  using runs_submit_received [OF assms(3), of H F csr p sig] assms(1,2,4)
  by (cases res) (auto simp: runs_def received_def)

theorem request_opened_after_its_entry_witness:
  "\<exists>data. j_entries (w_journal sample_pending) = [(''ca.request_received'', data)]
     \<and> j_get data ''transaction'' = Some (JStr (transaction_id sample_ra_deps [1]))"
proof -
  obtain r where r: "bt_get (m_requests (w_store sample_pending)) (transaction_id sample_ra_deps [1]) = Some r"
    using sample_pending_state by (auto simp: state_of_def)
  have "submit sample_ra_deps sample_flow [1] ''tsa_signer'' (signature sample_ra_deps [1] ''k'')
      (sample_world memory_new) = (fst (sample_submit [1] (sample_world memory_new)), sample_pending)"
    by (simp add: sample_pending_def sample_submit_def)
  from request_opened_after_its_entry [OF this _ _ r]
  show ?thesis by (auto simp: sample_flow_def sample_world_def memory_new_def)
qed

section \<open>Two submissions of one approved request\<close>

text \<open>\<open>issue\<close> signs and registers before it marks the request: of two submissions that
  have read the request as approved, the second is refused, but its certificate stays
  active beside that of the first.\<close>

definition sample_approved :: request where
  "sample_approved = \<lparr>rq_transaction_id = ''tx'', rq_csr_fingerprint = ''fp'', rq_csr_der = [1],
     rq_profile = ''tsa_signer'', rq_subject_cn = ''tsu-1'', rq_state = Approved, rq_created_at = 0,
     rq_decided_at = Some 0, rq_operator = ''alice'', rq_comment = [], rq_issued_at = None,
     rq_certificate_serial = None, rq_requester = ''tsa''\<rparr>"

definition issue_sample :: "ca_world \<Rightarrow> (raflow_error + submit_result) \<times> ca_world" where
  "issue_sample = issue_request sample_ra_deps sample_flow sample_approved [1] ''tsu-1'' (tsa_signer sample_deps)"

definition issued_once :: ca_world where
  "issued_once = snd (issue_sample (sample_world
     (memory_new\<lparr>m_requests := [(''tx'', sample_approved)], m_by_fingerprint := [(''fp'', ''tx'')]\<rparr>)))"

definition active_certificates :: "ca_world \<Rightarrow> nat" where
  "active_certificates w = length (filter (\<lambda>(k, c). crt_status c = Issued) (m_certificates (w_store w)))"

lemma issued_once_state: "state_of issued_once ''tx'' = Some Req_Issued \<and> active_certificates issued_once = 1"
  by code_simp

lemma issued_twice_active: "active_certificates (snd (issue_sample issued_once)) = 2"
  by code_simp

lemma runs_late_update:
  assumes "state_of w (rq_transaction_id r) \<noteq> Some Approved"
  shows "runs (ra_store (update_request (r\<lparr>rq_state := st, rq_issued_at := i, rq_certificate_serial := sn\<rparr>) Approved))
    (\<lambda>_ _. False) (\<lambda>_ v. w_store v = w_store w) w"
  using assms by (auto simp: run state_of_def split: option.split)

lemma runs_late_issue:
  fixes w :: "'x ca_world_scheme"
  assumes "state_of w (rq_transaction_id r) \<noteq> Some Approved"
  shows "runs (issue_request H F r spki cn p) (\<lambda>_ _. False)
    (\<lambda>_ v. m_requests (w_store v) = m_requests (w_store w) \<and> (live (w_store v) = live (w_store w)
      \<or> (\<exists>c. live (w_store w) (serial_key (crt_serial c)) = None
           \<and> live (w_store v) = (live (w_store w))(serial_key (crt_serial c) \<mapsto> c)
           \<and> crt_status c = Issued \<and> crt_request_transaction_id c = rq_transaction_id r))) w"
    (is "runs _ _ ?left w")
proof -
  let ?I = "fo_issuer (fl_options F)"
  have late: "runs (bindr (ra_store (update_request (r\<lparr>rq_state := st, rq_issued_at := i,
      rq_certificate_serial := sn\<rparr>) Approved)) k) (\<lambda>_ _. False) ?left v"
    if "?left e v" for st i sn e v and k :: "unit \<Rightarrow> ('x, submit_result) ra"
    unfolding runs_bindr
    by (rule runs_mono [OF runs_late_update])
      (use that assms in \<open>auto simp: state_of_def\<close>)
  have issued: "runs (issue (rd_deps H) (rd_wording H) ?I spki cn p (rq_transaction_id r))
      (\<lambda>_. ?left undefined) (\<lambda>_. ?left undefined) u"
    if "w_store u = w_store w" for u :: "'x ca_world_scheme"
  proof (rule runs_mono [OF runs_conj [OF runs_issue
        runs_keeps [OF keeps_on_requests_issuer(1) [of "\<lambda>m. m = m_requests (w_store w)"]]]])
    show "on_requests (\<lambda>m. m = m_requests (w_store w)) u" using that by (simp add: on_requests_def)
  qed (use that in \<open>auto simp: on_requests_def same_issued_def dest: issued_byD(1,2)\<close>)
  show ?thesis
    unfolding issue_request_def Let_def
    by (auto simp: runs_bindr [of "lift m" for m] runs_bindr [of now_utc] runs_lift runs_now_utc
      runs_bindr [of "ra_store (active_by_subject dn t)" for dn t] runs_ra_store runs_on_store
      runs_active_by_subject runs_bindr [of "map_err RaCa m" for m] runs_map_err
      intro!: runs_mono [OF issued] late)
qed

text \<open>C20. Issuing for a request that is no longer approved (another submission served it) ends
  in an error and leaves the requests as they are; the witness shows that the certificate signed
  in the meantime is nevertheless registered, active beside the first one.\<close>

theorem late_issue_outcome:
  assumes "issue_request H F r spki cn p w = (res, v)"
    and "state_of w (rq_transaction_id r) \<noteq> Some Approved"
  shows "(\<exists>e. res = Inl e) \<and> m_requests (w_store v) = m_requests (w_store w)
    \<and> (live (w_store v) = live (w_store w)
      \<or> (\<exists>c. live (w_store w) (serial_key (crt_serial c)) = None
           \<and> live (w_store v) = (live (w_store w))(serial_key (crt_serial c) \<mapsto> c)
           \<and> crt_status c = Issued \<and> crt_request_transaction_id c = rq_transaction_id r))"
  using runs_late_issue [OF assms(2), of H F spki cn p] assms(1) by (cases res) (auto simp: runs_def)

theorem late_issue_outcome_witness:
  "(\<exists>e. fst (issue_sample issued_once) = Inl e)
     \<and> m_requests (w_store (snd (issue_sample issued_once))) = m_requests (w_store issued_once)
     \<and> active_certificates issued_once = 1 \<and> active_certificates (snd (issue_sample issued_once)) = 2"
proof -
  have "issue_request sample_ra_deps sample_flow sample_approved [1] ''tsu-1'' (tsa_signer sample_deps) issued_once
      = (fst (issue_sample issued_once), snd (issue_sample issued_once))"
    by (simp add: issue_sample_def)
  from late_issue_outcome [OF this] show ?thesis
    using issued_once_state issued_twice_active by (simp add: sample_approved_def)
qed

end
