(* ===== verification/Webauthn.thy ===== *)
theory Webauthn
  imports Raflow
begin

text \<open>
  The rules the project adds to the WebAuthn library: \<open>crates/oe-webauthn/src/lib.rs\<close>
  (\<open>bound_challenge\<close>, \<open>Verifier\<close>) and the identifier of a key, \<open>credential_id\<close> of
  \<open>crates/oe-actions/src/registry.rs\<close>. The library \<open>webauthn-rs\<close> is a parameter.
\<close>

section \<open>JSON pointers\<close>

text \<open>\<open>Value::pointer\<close> and an assignment through \<open>Value::pointer_mut\<close>, on objects.\<close>

fun j_pointer :: "json \<Rightarrow> string list \<Rightarrow> json option" where
  "j_pointer j [] = Some j"
| "j_pointer j (k # ks) = (case j_get j k of None \<Rightarrow> None | Some v \<Rightarrow> j_pointer v ks)"

fun j_assign :: "json \<Rightarrow> string list \<Rightarrow> json \<Rightarrow> json option" where
  "j_assign j [] v = Some v"
| "j_assign (JObj fs) (k # ks) v =
     (case map_of fs k of
        None \<Rightarrow> None
      | Some w \<Rightarrow> (case j_assign w ks v of
          None \<Rightarrow> None
        | Some w' \<Rightarrow> Some (JObj (j_insert k w' fs))))"
| "j_assign _ (k # ks) v = None"

section \<open>The library\<close>

text \<open>A key, as the library serialises it and the registry keeps it. The state of a
  ceremony and the two messages of an authenticator are the library's.\<close>

type_synonym passkey = json

record auth_options =
  ao_challenge :: bytes
  ao_rest :: json

record assertion =
  as_raw_id :: bytes
  as_authenticator_data :: bytes
  as_client_data :: bytes
  as_signature :: bytes

record auth_result =
  ar_cred_id :: bytes
  ar_user_verified :: bool
  ar_backup_eligible :: bool
  ar_backup_state :: bool
  ar_counter :: nat

record attestation =
  at_raw :: bytes
  at_object :: bytes

datatype attestation_form = Basic | AttCa | AnonCa | SelfSigned | NoAttestation

text \<open>\<open>wa_start\<close> takes the random challenge the library draws. \<open>wa_state\<close> and
  \<open>wa_of_state\<close> are the serialisation of the state of a ceremony.\<close>

record webauthn =
  wa_start :: "passkey list \<Rightarrow> bytes \<Rightarrow> string + auth_options \<times> bytes"
  wa_state :: "bytes \<Rightarrow> string + json"
  wa_of_state :: "json \<Rightarrow> string + bytes"
  wa_finish :: "assertion \<Rightarrow> bytes \<Rightarrow> string + auth_result"
  wa_start_reg :: "string \<Rightarrow> string \<Rightarrow> bytes list \<Rightarrow> bytes \<Rightarrow> string + json \<times> bytes"
  wa_finish_reg :: "attestation \<Rightarrow> bytes \<Rightarrow> string + passkey"
  wa_cred_id :: "passkey \<Rightarrow> bytes"
  wa_form :: "passkey \<Rightarrow> attestation_form"
  wa_aaguid :: "passkey \<Rightarrow> string option"
  wa_readable :: "json \<Rightarrow> bool"
  wa_json_text :: "json \<Rightarrow> string"
  wa_base64 :: "bytes \<Rightarrow> string"
  wa_sha256 :: "bytes \<Rightarrow> bytes"

section \<open>The project's rules\<close>

datatype wa_error =
    WaConfig string
  | NoTrustedModel
  | RpIdIsNotHost string
  | HttpsRequired
  | StateWithoutChallenge
  | AttestationMissing
  | AaguidMissing
  | WaRejected string
  | CopyableKey
  | UserNotVerified
  | CounterRegression nat nat

text \<open>\<open>Verifier::new\<close>: the host and the scheme are those of the origin, \<open>models\<close> the white
  list.\<close>

definition verifier_new ::
    "string \<Rightarrow> string option \<Rightarrow> string \<Rightarrow> 'm list \<Rightarrow> string + unit \<Rightarrow> wa_error + string" where
  "verifier_new rp_id host scheme models built =
     sbind (require (models \<noteq> []) NoTrustedModel) (\<lambda>_.
     sbind (require (host = Some rp_id) (RpIdIsNotHost rp_id)) (\<lambda>_.
     sbind (require (\<not> (scheme \<noteq> ''https'' \<and> rp_id \<noteq> ''localhost'')) HttpsRequired) (\<lambda>_.
     sbind (or_else_err WaConfig built) (\<lambda>_.
     Inr rp_id))))"

definition summarize_attestation :: "webauthn \<Rightarrow> passkey \<Rightarrow> wa_error + string \<times> string" where
  "summarize_attestation W key =
     sbind (case wa_form W key of
         Basic \<Rightarrow> Inr ''basic'' | AttCa \<Rightarrow> Inr ''attca'' | AnonCa \<Rightarrow> Inr ''anonca''
       | SelfSigned \<Rightarrow> Inr ''self'' | NoAttestation \<Rightarrow> Inl AttestationMissing) (\<lambda>form.
     sbind (ok_or AaguidMissing (wa_aaguid W key)) (\<lambda>aaguid.
     Inr (aaguid, form)))"

definition BOUND_CHALLENGE_DOMAIN :: bytes where
  "BOUND_CHALLENGE_DOMAIN = text_bytes ''open-eidas/action-challenge/v1''"

definition bound_challenge :: "webauthn \<Rightarrow> bytes \<Rightarrow> bytes \<Rightarrow> bytes" where
  "bound_challenge W body_hash nonce = wa_sha256 W (BOUND_CHALLENGE_DOMAIN @ body_hash @ nonce)"

definition start_authentication ::
    "webauthn \<Rightarrow> passkey list \<Rightarrow> bytes \<Rightarrow> wa_error + auth_options \<times> bytes" where
  "start_authentication W keys random = or_else_err WaRejected (wa_start W keys random)"

definition start_bound_authentication ::
    "webauthn \<Rightarrow> passkey list \<Rightarrow> bytes \<Rightarrow> bytes \<Rightarrow> wa_error + auth_options \<times> bytes \<times> bytes" where
  "start_bound_authentication W keys body_hash random =
     sbind (start_authentication W keys random) (\<lambda>(options, state).
     let nonce = ao_challenge options; bound = bound_challenge W body_hash nonce in
     sbind (or_else_err WaConfig (wa_state W state)) (\<lambda>json.
     sbind (ok_or StateWithoutChallenge
              (j_assign json [''ast'', ''challenge''] (JStr (wa_base64 W bound)))) (\<lambda>json'.
     sbind (or_else_err WaConfig (wa_of_state W json')) (\<lambda>state'.
     Inr (options\<lparr>ao_challenge := bound\<rparr>, state', nonce)))))"

definition finish_authentication ::
    "webauthn \<Rightarrow> assertion \<Rightarrow> bytes \<Rightarrow> nat \<Rightarrow> wa_error + bytes \<times> nat" where
  "finish_authentication W response state last_counter =
     sbind (or_else_err WaRejected (wa_finish W response state)) (\<lambda>res.
     sbind (require (ar_user_verified res) UserNotVerified) (\<lambda>_.
     sbind (require (\<not> (ar_backup_eligible res \<or> ar_backup_state res)) CopyableKey) (\<lambda>_.
     let seen = ar_counter res in
     sbind (require (\<not> (0 < last_counter \<and> seen \<le> last_counter))
              (CounterRegression seen last_counter)) (\<lambda>_.
     Inr (ar_cred_id res, seen)))))"

section \<open>The identifier of a key\<close>

definition url_alphabet :: string where
  "url_alphabet = ''ABCDEFGHIJKLMNOPQRSTUVWXYZabcdefghijklmnopqrstuvwxyz0123456789-_''"

fun chunk_word :: "bytes \<Rightarrow> 32 word" where
  "chunk_word [a, b, c] = push_bit 16 (ucast a) OR push_bit 8 (ucast b) OR ucast c"
| "chunk_word [a, b] = push_bit 16 (ucast a) OR push_bit 8 (ucast b)"
| "chunk_word (a # _) = push_bit 16 (ucast a)"
| "chunk_word [] = 0"

definition url_symbol :: "32 word \<Rightarrow> nat \<Rightarrow> char" where
  "url_symbol n i = url_alphabet ! unat (drop_bit (18 - 6 * i) n AND 0x3f)"

definition chunk_symbols :: "bytes \<Rightarrow> string" where
  "chunk_symbols chunk = map (url_symbol (chunk_word chunk)) [0 ..< length chunk + 1]"

fun credential_id :: "bytes \<Rightarrow> string" where
  "credential_id (a # b # c # rest) = chunk_symbols [a, b, c] @ credential_id rest"
| "credential_id [] = []"
| "credential_id chunk = chunk_symbols chunk"

text \<open>The vectors of RFC 4648 in the repository's own test.\<close>

lemma credential_id_vectors:
  "credential_id (text_bytes ''foobar'') = ''Zm9vYmFy''" "credential_id (text_bytes ''fo'') = ''Zm8''"
  "credential_id [0xfb, 0xff, 0xfe] = ''-__-''"
  by code_simp+

end
