(* ===== verification/Registry.thy ===== *)
theory Registry
  imports Webauthn
begin

text \<open>
  The register of the operators: the tables of \<open>crates/oe-castore/migrations/\<close> (0002 to
  0005 and 0011) with their constraints, the reads and writes of
  \<open>crates/oe-actions/src/registry.rs\<close>, and the world of the service of signed actions.
\<close>

section \<open>Roles\<close>

datatype role = Auditeur | RaOperateur | CaOperateur | Admin

fun role_text :: "role \<Rightarrow> string" where
  "role_text Auditeur = ''auditeur''"
| "role_text RaOperateur = ''ra_operateur''"
| "role_text CaOperateur = ''ca_operateur''"
| "role_text Admin = ''admin''"

definition role_parse :: "string \<Rightarrow> role option" where
  "role_parse s =
     (if s = ''auditeur'' then Some Auditeur
      else if s = ''ra_operateur'' then Some RaOperateur
      else if s = ''ca_operateur'' then Some CaOperateur
      else if s = ''admin'' then Some Admin
      else None)"

lemma role_parse_text [simp]: "role_parse (role_text r) = Some r"
  by (cases r) (simp_all add: role_parse_def)

lemma role_text_inj [simp]: "role_text a = role_text b \<longleftrightarrow> a = b"
  by (cases a; cases b) simp_all

section \<open>The tables\<close>

type_synonym uuid = string

record operator_row =
  ow_id :: uuid
  ow_name :: string
  ow_role :: string
  ow_created_at :: instant
  ow_created_by :: string
  ow_disabled_at :: "instant option"

record credential_row =
  kw_id :: string
  kw_operator :: uuid
  kw_sign_count :: int
  kw_aaguid :: string
  kw_format :: string
  kw_attestation :: bytes
  kw_label :: string
  kw_last_used_at :: "instant option"
  kw_initiated_by :: string
  kw_initiated_at :: instant
  kw_confirmed_by :: "string option"
  kw_confirmed_at :: "instant option"
  kw_revoked_at :: "instant option"
  kw_revoked_by :: "string option"
  kw_revoked_reason :: "string option"
  kw_passkey :: passkey

record invite_row =
  iw_id :: uuid
  iw_operator :: uuid
  iw_token_hash :: bytes
  iw_created_by :: string
  iw_created_at :: instant
  iw_expires_at :: instant
  iw_consumed_at :: "instant option"

record pending_row =
  pw_id :: string
  pw_operator :: uuid
  pw_aaguid :: string
  pw_format :: string
  pw_attestation :: bytes
  pw_invite :: uuid
  pw_registered_at :: instant
  pw_expires_at :: instant
  pw_passkey :: passkey

record action_row =
  aw_id :: uuid
  aw_body :: json
  aw_body_hash :: bytes
  aw_created_at :: instant
  aw_expires_at :: instant
  aw_executed_at :: "instant option"
  aw_required :: nat

record challenge_row =
  hw_id :: uuid
  hw_action :: uuid
  hw_challenge :: bytes
  hw_nonce :: bytes
  hw_hint :: uuid
  hw_issued_at :: instant
  hw_expires_at :: instant
  hw_consumed_at :: "instant option"

record evidence_row =
  ew_id :: uuid
  ew_challenge :: uuid
  ew_action :: uuid
  ew_operator :: uuid
  ew_credential :: string
  ew_authenticator_data :: bytes
  ew_client_data :: bytes
  ew_signature :: bytes
  ew_verified_at :: instant

record registry =
  rg_operators :: "operator_row list"
  rg_credentials :: "credential_row list"
  rg_invites :: "invite_row list"
  rg_pending :: "pending_row list"
  rg_actions :: "action_row list"
  rg_challenges :: "challenge_row list"
  rg_evidence :: "evidence_row list"

definition registry_new :: registry where
  "registry_new = \<lparr>rg_operators = [], rg_credentials = [], rg_invites = [], rg_pending = [],
     rg_actions = [], rg_challenges = [], rg_evidence = []\<rparr>"

section \<open>Insertions\<close>

text \<open>What the database refuses: a key or a UNIQUE taken, a CHECK, a reference to no row.\<close>

datatype sql_error = UniqueViolation string | CheckViolation string | ForeignKey string | RowNotFound | DecodeError

type_synonym 'a sql = "(registry, sql_error, 'a) res"

definition has_operator :: "registry \<Rightarrow> uuid \<Rightarrow> bool" where
  "has_operator g i \<longleftrightarrow> list_ex (\<lambda>o'. ow_id o' = i) (rg_operators g)"

definition insert_operator :: "operator_row \<Rightarrow> unit sql" where
  "insert_operator row =
     bindr (gets rg_operators) (\<lambda>rows.
     bindr (ensure (\<not> list_ex (\<lambda>r. ow_id r = ow_id row) rows) (UniqueViolation ''operators_pkey'')) (\<lambda>_.
     bindr (ensure (\<not> list_ex (\<lambda>r. ow_name r = ow_name row) rows)
              (UniqueViolation ''operators_name_key'')) (\<lambda>_.
     bindr (ensure (role_parse (ow_role row) \<noteq> None) (CheckViolation ''operators_role_check'')) (\<lambda>_.
     modify (\<lambda>g. g\<lparr>rg_operators := rg_operators g @ [row]\<rparr>)))))"

definition insert_credential_row :: "credential_row \<Rightarrow> unit sql" where
  "insert_credential_row row =
     bindr (gets (\<lambda>g. g)) (\<lambda>g.
     bindr (ensure (\<not> list_ex (\<lambda>r. kw_id r = kw_id row) (rg_credentials g))
              (UniqueViolation ''webauthn_credentials_pkey'')) (\<lambda>_.
     bindr (ensure (has_operator g (kw_operator row))
              (ForeignKey ''webauthn_credentials_operator_id_fkey'')) (\<lambda>_.
     bindr (ensure (kw_revoked_at row \<noteq> None
                \<or> kw_confirmed_by row \<noteq> None \<and> kw_confirmed_at row \<noteq> None
                \<or> kw_initiated_by row = ''bootstrap-admin'')
              (CheckViolation ''credential_confirmed_before_active'')) (\<lambda>_.
     bindr (ensure (kw_format row \<noteq> ''none'') (CheckViolation ''attestation_required'')) (\<lambda>_.
     modify (\<lambda>g. g\<lparr>rg_credentials := rg_credentials g @ [row]\<rparr>))))))"

definition insert_invite :: "invite_row \<Rightarrow> unit sql" where
  "insert_invite row =
     bindr (gets (\<lambda>g. g)) (\<lambda>g.
     bindr (ensure (\<not> list_ex (\<lambda>r. iw_id r = iw_id row) (rg_invites g))
              (UniqueViolation ''operator_invites_pkey'')) (\<lambda>_.
     bindr (ensure (\<not> list_ex (\<lambda>r. iw_token_hash r = iw_token_hash row) (rg_invites g))
              (UniqueViolation ''operator_invites_token_hash_key'')) (\<lambda>_.
     bindr (ensure (has_operator g (iw_operator row))
              (ForeignKey ''operator_invites_operator_id_fkey'')) (\<lambda>_.
     modify (\<lambda>g. g\<lparr>rg_invites := rg_invites g @ [row]\<rparr>)))))"

definition insert_pending :: "pending_row \<Rightarrow> unit sql" where
  "insert_pending row =
     bindr (gets (\<lambda>g. g)) (\<lambda>g.
     bindr (ensure (\<not> list_ex (\<lambda>r. pw_id r = pw_id row) (rg_pending g))
              (UniqueViolation ''pending_credentials_pkey'')) (\<lambda>_.
     bindr (ensure (has_operator g (pw_operator row))
              (ForeignKey ''pending_credentials_operator_id_fkey'')) (\<lambda>_.
     bindr (ensure (list_ex (\<lambda>r. iw_id r = pw_invite row) (rg_invites g))
              (ForeignKey ''pending_credentials_invite_id_fkey'')) (\<lambda>_.
     bindr (ensure (pw_format row \<noteq> ''none'') (CheckViolation ''attestation_format'')) (\<lambda>_.
     modify (\<lambda>g. g\<lparr>rg_pending := rg_pending g @ [row]\<rparr>))))))"

definition insert_action :: "action_row \<Rightarrow> unit sql" where
  "insert_action row =
     bindr (gets rg_actions) (\<lambda>rows.
     bindr (ensure (\<not> list_ex (\<lambda>r. aw_id r = aw_id row) rows) (UniqueViolation ''actions_pkey'')) (\<lambda>_.
     bindr (ensure (1 \<le> aw_required row) (CheckViolation ''actions_required_signatures_check'')) (\<lambda>_.
     modify (\<lambda>g. g\<lparr>rg_actions := rg_actions g @ [row]\<rparr>))))"

definition insert_challenge :: "challenge_row \<Rightarrow> unit sql" where
  "insert_challenge row =
     bindr (gets (\<lambda>g. g)) (\<lambda>g.
     bindr (ensure (\<not> list_ex (\<lambda>r. hw_id r = hw_id row) (rg_challenges g))
              (UniqueViolation ''action_challenges_pkey'')) (\<lambda>_.
     bindr (ensure (\<not> list_ex (\<lambda>r. hw_challenge r = hw_challenge row) (rg_challenges g))
              (UniqueViolation ''action_challenges_challenge_key'')) (\<lambda>_.
     bindr (ensure (list_ex (\<lambda>r. aw_id r = hw_action row) (rg_actions g))
              (ForeignKey ''action_challenges_action_id_fkey'')) (\<lambda>_.
     bindr (ensure (has_operator g (hw_hint row))
              (ForeignKey ''action_challenges_operator_hint_fkey'')) (\<lambda>_.
     modify (\<lambda>g. g\<lparr>rg_challenges := rg_challenges g @ [row]\<rparr>))))))"

definition insert_evidence :: "evidence_row \<Rightarrow> unit sql" where
  "insert_evidence row =
     bindr (gets (\<lambda>g. g)) (\<lambda>g.
     bindr (ensure (\<not> list_ex (\<lambda>r. ew_id r = ew_id row) (rg_evidence g))
              (UniqueViolation ''decision_evidence_pkey'')) (\<lambda>_.
     bindr (ensure (\<not> list_ex (\<lambda>r. ew_challenge r = ew_challenge row) (rg_evidence g))
              (UniqueViolation ''decision_evidence_challenge_id_key'')) (\<lambda>_.
     bindr (ensure (\<not> list_ex (\<lambda>r. ew_action r = ew_action row \<and> ew_operator r = ew_operator row)
                      (rg_evidence g))
              (UniqueViolation ''decision_evidence_action_id_operator_id_key'')) (\<lambda>_.
     bindr (ensure (list_ex (\<lambda>r. hw_id r = ew_challenge row) (rg_challenges g)
                \<and> list_ex (\<lambda>r. aw_id r = ew_action row) (rg_actions g)
                \<and> has_operator g (ew_operator row)
                \<and> list_ex (\<lambda>r. kw_id r = ew_credential row) (rg_credentials g))
              (ForeignKey ''decision_evidence_fkey'')) (\<lambda>_.
     modify (\<lambda>g. g\<lparr>rg_evidence := rg_evidence g @ [row]\<rparr>))))))"

text \<open>\<open>UPDATE ... WHERE\<close>: every row that matches is changed.\<close>

definition update_where :: "('r \<Rightarrow> bool) \<Rightarrow> ('r \<Rightarrow> 'r) \<Rightarrow> 'r list \<Rightarrow> 'r list" where
  "update_where p f rows = map (\<lambda>r. if p r then f r else r) rows"


section \<open>The world of the service\<close>

text \<open>Why an action is refused, one constructor per message of the source.\<close>

datatype denied =
    QuorumRequired
  | PendingKeyUnknown
  | PendingKeyExpired
  | OperatorDisabled
  | OwnKey
  | SignedFingerprintDiffers
  | KeyUnknown
  | KeyAlreadyRevoked
  | NoAdminLeft
  | OperatorUnknown
  | OwnRole
  | ActiveAdminExists
  | BootstrapInviteUseless
  | InvalidInvite
  | TooManyCeremonies
  | KeyAlreadyRegistered
  | RequestUnknown
  | RequestNotPending string
  | CsrFingerprintDiffers
  | CaOperatorOnly
  | RoleCannotSign string string
  | NoActiveKey
  | AlreadySigned
  | KeyNotInRegistry
  | KeyRevoked
  | SignerNoLongerEntitled string
  | RevocationNotConfigured
  | CertificateUnknown
  | CertificateRevoked
  | CertificateNeverIssued
  | TooFewHolders nat nat string

datatype bad_request =
    InviteTtl
  | NameTaken string
  | InvalidName
  | ReasonMissing
  | RecoveryReason
  | RoleUnchanged string string
  | NotARegistryAction
  | NotARevocation
  | UnreadableBody string
  | NoPublicKey
  | CsrFingerprintRequired string
  | RejectionReason
  | UnrelatedTarget
  | TargetMissing
  | ReasonNotAdmitted int
  | RevocationComment
  | SerialForm
  | DivergenceReason
  | NothingToAcknowledge string

datatype effect =
    EffStore store_error
  | EffRaflow raflow_error
  | EffRevoker ca_error
  | EffUnreadableKey
  | EffNoRevoker

datatype mismatch =
    OtherAction uuid uuid
  | OtherKind string string
  | OtherTarget string string

datatype act_error =
    Denied denied
  | BadRequest bad_request
  | ChallengeUnknown
  | ChallengeExpired
  | AlreadyUsed
  | StateLost
  | JournalUnavailable string
  | Verification wa_error
  | Db sql_error
  | Effect effect
  | Blocked "string list"
  | Mismatch mismatch
  | Panicked

definition is_unique_violation :: "act_error \<Rightarrow> bool" where
  "is_unique_violation e = (case e of Db (UniqueViolation _) \<Rightarrow> True | _ \<Rightarrow> False)"

text \<open>The ceremonies in memory, and the certification authority the service acts upon, are
  part of the world; so is the guard.\<close>

record registration =
  gr_invite :: uuid
  gr_operator :: uuid
  gr_state :: bytes
  gr_expires_at :: instant

record oa_world = ca_world +
  w_registry :: registry
  w_ceremonies :: "(uuid, bytes) btree"
  w_registrations :: "(uuid, registration) btree"
  w_guard :: "string list option"

type_synonym ('x, 'a) act = "('x oa_world_scheme, act_error, 'a) res"

definition sql :: "'a sql \<Rightarrow> ('x, 'a) act" where
  "sql m = (\<lambda>w. case m (w_registry w) of
     (Inl e, g) \<Rightarrow> (Inl (Db e), w\<lparr>w_registry := g\<rparr>)
   | (Inr x, g) \<Rightarrow> (Inr x, w\<lparr>w_registry := g\<rparr>))"

definition query :: "(registry \<Rightarrow> 'a) \<Rightarrow> ('x, 'a) act" where
  "query f = gets (\<lambda>w. f (w_registry w))"

text \<open>A transaction: an error on the way, or a rollback, leaves the registry as it was at
  its beginning. What was journaled on the way stays journaled.\<close>

definition transaction :: "('x, bool \<times> 'a) act \<Rightarrow> ('x, 'a) act" where
  "transaction m = (\<lambda>w. case m w of
     (Inl e, v) \<Rightarrow> (Inl e, v\<lparr>w_registry := w_registry w\<rparr>)
   | (Inr (commit, x), v) \<Rightarrow> (Inr x, if commit then v else v\<lparr>w_registry := w_registry w\<rparr>))"

definition journal :: "string \<Rightarrow> json \<Rightarrow> ('x, unit) act" where
  "journal event data = map_err JournalUnavailable (journal_append event data)"

text \<open>\<open>if apply\<close>: a control that will be rolled back writes nothing.\<close>

definition journal_if :: "bool \<Rightarrow> string \<Rightarrow> json \<Rightarrow> ('x, unit) act" where
  "journal_if apply_it event data = (if apply_it then journal event data else ok ())"

record act_deps =
  ad_ra :: ra_deps
  ad_webauthn :: webauthn
  ad_uuid :: "bytes \<Rightarrow> uuid"
  ad_rfc3339 :: "instant \<Rightarrow> string option"
  ad_json_parse :: "string \<Rightarrow> string + json"
  ad_ca_wording :: "ca_error \<Rightarrow> string"

text \<open>\<open>format(...).unwrap_or_default()\<close>\<close>

definition rfc3339 :: "act_deps \<Rightarrow> instant \<Rightarrow> string" where
  "rfc3339 A t = (case ad_rfc3339 A t of None \<Rightarrow> [] | Some s \<Rightarrow> s)"

text \<open>\<open>Uuid::new_v4\<close>: made from sixteen random bytes.\<close>

definition new_uuid :: "act_deps \<Rightarrow> ('x, uuid) act" where
  "new_uuid A = bindr (fill_bytes 16) (\<lambda>raw. ok (ad_uuid A raw))"

section \<open>Reads and writes of the registry\<close>

record operator =
  op_id :: uuid
  op_name :: string
  op_role :: role
  op_disabled :: bool

definition operator_of_row :: "operator_row \<Rightarrow> operator option" where
  "operator_of_row r =
     (case role_parse (ow_role r) of
        None \<Rightarrow> None
      | Some role \<Rightarrow> Some \<lparr>op_id = ow_id r, op_name = ow_name r, op_role = role,
          op_disabled = (ow_disabled_at r \<noteq> None)\<rparr>)"

record key =
  ky_id :: string
  ky_operator :: uuid
  ky_sign_count :: nat
  ky_revoked :: bool
  ky_passkey :: passkey

definition u32_or_max :: "int \<Rightarrow> nat" where
  "u32_or_max n = (if 0 \<le> n \<and> n < 2 ^ 32 then nat n else 2 ^ 32 - 1)"

definition key_from_row :: "act_deps \<Rightarrow> credential_row \<Rightarrow> act_error + key" where
  "key_from_row A r =
     sbind (require (wa_readable (ad_webauthn A) (kw_passkey r)) (Db DecodeError)) (\<lambda>_.
     Inr \<lparr>ky_id = kw_id r, ky_operator = kw_operator r, ky_sign_count = u32_or_max (kw_sign_count r),
          ky_revoked = (kw_revoked_at r \<noteq> None), ky_passkey = kw_passkey r\<rparr>)"

definition add_operator ::
    "act_deps \<Rightarrow> string \<Rightarrow> role \<Rightarrow> string \<Rightarrow> instant \<Rightarrow> ('x, uuid) act" where
  "add_operator A name role created_by now =
     bindr (new_uuid A) (\<lambda>i.
     bindr (sql (insert_operator \<lparr>ow_id = i, ow_name = name, ow_role = role_text role,
       ow_created_at = now, ow_created_by = created_by, ow_disabled_at = None\<rparr>)) (\<lambda>_.
     ok i))"

definition operator_by_id :: "uuid \<Rightarrow> ('x, operator option) act" where
  "operator_by_id i = query (\<lambda>g. case find (\<lambda>r. ow_id r = i) (rg_operators g) of
     None \<Rightarrow> None | Some r \<Rightarrow> operator_of_row r)"

definition operator_by_name :: "string \<Rightarrow> ('x, operator option) act" where
  "operator_by_name name = query (\<lambda>g. case find (\<lambda>r. ow_name r = name) (rg_operators g) of
     None \<Rightarrow> None | Some r \<Rightarrow> operator_of_row r)"

definition active_keys :: "act_deps \<Rightarrow> uuid \<Rightarrow> ('x, key list) act" where
  "active_keys A operator_id =
     bindr (query (\<lambda>g. sort_key kw_id (filter (\<lambda>r. kw_operator r = operator_id
              \<and> kw_revoked_at r = None) (rg_credentials g)))) (\<lambda>rows.
     lift (traverse (key_from_row A) rows))"

definition key_by_id :: "act_deps \<Rightarrow> string \<Rightarrow> ('x, key option) act" where
  "key_by_id A cid =
     bindr (query (\<lambda>g. find (\<lambda>r. kw_id r = cid) (rg_credentials g))) (\<lambda>row.
     case row of
       None \<Rightarrow> ok None
     | Some r \<Rightarrow> bindr (lift (key_from_row A r)) (\<lambda>k. ok (Some k)))"

definition registry_revoke_key :: "string \<Rightarrow> string \<Rightarrow> string \<Rightarrow> instant \<Rightarrow> ('x, unit) act" where
  "registry_revoke_key cid by reason now = sql (modify (\<lambda>g. g\<lparr>rg_credentials :=
     update_where (\<lambda>r. kw_id r = cid \<and> kw_revoked_at r = None)
       (\<lambda>r. r\<lparr>kw_revoked_at := Some now, kw_revoked_by := Some by, kw_revoked_reason := Some reason\<rparr>)
       (rg_credentials g)\<rparr>))"

definition registry_set_role :: "uuid \<Rightarrow> role \<Rightarrow> ('x, unit) act" where
  "registry_set_role i role = sql (modify (\<lambda>g. g\<lparr>rg_operators :=
     update_where (\<lambda>r. ow_id r = i) (\<lambda>r. r\<lparr>ow_role := role_text role\<rparr>) (rg_operators g)\<rparr>))"

record new_credential =
  nc_operator :: uuid
  nc_passkey :: passkey
  nc_aaguid :: string
  nc_format :: string
  nc_attestation :: bytes
  nc_label :: string
  nc_initiated_by :: string
  nc_confirmed_by :: "string option"

definition insert_credential :: "act_deps \<Rightarrow> new_credential \<Rightarrow> instant \<Rightarrow> ('x, unit) act" where
  "insert_credential A c now = sql (insert_credential_row
     \<lparr>kw_id = credential_id (wa_cred_id (ad_webauthn A) (nc_passkey c)),
      kw_operator = nc_operator c, kw_sign_count = 0, kw_aaguid = nc_aaguid c,
      kw_format = nc_format c, kw_attestation = nc_attestation c, kw_label = nc_label c,
      kw_last_used_at = None, kw_initiated_by = nc_initiated_by c, kw_initiated_at = now,
      kw_confirmed_by = nc_confirmed_by c,
      kw_confirmed_at = map_option (\<lambda>_. now) (nc_confirmed_by c),
      kw_revoked_at = None, kw_revoked_by = None, kw_revoked_reason = None,
      kw_passkey = nc_passkey c\<rparr>)"

text \<open>The joins the handlers ask for.\<close>

definition is_active_admin :: "operator_row \<Rightarrow> credential_row \<Rightarrow> bool" where
  "is_active_admin o' c \<longleftrightarrow> kw_operator c = ow_id o' \<and> ow_role o' = ''admin''
     \<and> ow_disabled_at o' = None \<and> kw_revoked_at c = None"

definition active_admin :: "registry \<Rightarrow> bool" where
  "active_admin g \<longleftrightarrow>
     list_ex (\<lambda>o'. list_ex (is_active_admin o') (rg_credentials g)) (rg_operators g)"

definition holders :: "registry \<Rightarrow> string list \<Rightarrow> nat" where
  "holders g roles = length (remdups (map ow_id (filter (\<lambda>o'. ow_role o' \<in> set roles
     \<and> ow_disabled_at o' = None
     \<and> list_ex (\<lambda>c. kw_operator c = ow_id o' \<and> kw_revoked_at c = None) (rg_credentials g))
     (rg_operators g))))"

end
