(* ===== verification/Onboarding.thy ===== *)
theory Onboarding
  imports Registry
begin

text \<open>
  The two local acts that make an administrator: \<open>bootstrap_admin\<close> and \<open>recover_admin\<close> of
  \<open>crates/oe-actions/src/onboarding.rs\<close>.
\<close>

section \<open>Names and tokens\<close>

definition MIN_INVITE_TTL :: duration where "MIN_INVITE_TTL = minutes 1"
definition MAX_INVITE_TTL :: duration where "MAX_INVITE_TTL = hours 24"

definition RECOVERY :: string where "RECOVERY = ''recover-admin''"
definition BOOTSTRAP :: string where "BOOTSTRAP = ''bootstrap-admin''"

text \<open>\<open>chars().count()\<close> of a UTF-8 string: its bytes that do not continue a character; and
  \<open>char::is_control\<close>: the C0 controls, DEL, and the C1 controls, written C2 80 to C2 9F.\<close>

definition chars_count :: "string \<Rightarrow> nat" where
  "chars_count s = length (filter (\<lambda>c. \<not> (128 \<le> (of_char c :: nat) \<and> (of_char c :: nat) < 192)) s)"

fun has_control :: "string \<Rightarrow> bool" where
  "has_control [] = False"
| "has_control [c] = ((of_char c :: nat) < 32 \<or> (of_char c :: nat) = 127)"
| "has_control (c # d # s) = ((of_char c :: nat) < 32 \<or> (of_char c :: nat) = 127
     \<or> c = CHR 0xC2 \<and> 128 \<le> (of_char d :: nat) \<and> (of_char d :: nat) < 160 \<or> has_control (d # s))"

definition valid_name :: "string \<Rightarrow> act_error + unit" where
  "valid_name name =
     (let n = trim name in
      require (\<not> (n = [] \<or> 100 < chars_count n \<or> has_control n \<or> n \<noteq> name))
        (BadRequest InvalidName))"

definition new_token :: "('x, string) act" where
  "new_token = bindr (fill_bytes 32) (\<lambda>raw. ok (credential_id raw))"

record invite =
  in_operator :: uuid
  in_id :: uuid
  in_token :: string
  in_expires_at :: instant

section \<open>Steps that both acts share\<close>

text \<open>The operator of that name, made an administrator if there is none; a name held by
  another role, or by someone disabled, is refused.\<close>

definition claim_admin :: "act_deps \<Rightarrow> string \<Rightarrow> string \<Rightarrow> instant \<Rightarrow> ('x, uuid) act" where
  "claim_admin A name created_by now =
     bindr (query (\<lambda>g. find (\<lambda>r. ow_name r = name) (rg_operators g))) (\<lambda>existing.
     case existing of
       Some row \<Rightarrow>
         bindr (ensure (\<not> (ow_role row \<noteq> role_text Admin \<or> ow_disabled_at row \<noteq> None))
                  (BadRequest (NameTaken name))) (\<lambda>_.
         ok (ow_id row))
     | None \<Rightarrow>
         bindr (new_uuid A) (\<lambda>i.
         bindr (sql (insert_operator \<lparr>ow_id = i, ow_name = name, ow_role = ''admin'',
           ow_created_at = now, ow_created_by = created_by, ow_disabled_at = None\<rparr>)) (\<lambda>_.
         ok i)))"

definition expire_invites :: "uuid \<Rightarrow> instant \<Rightarrow> ('x, unit) act" where
  "expire_invites operator_id now = sql (modify (\<lambda>g. g\<lparr>rg_invites :=
     update_where (\<lambda>r. iw_operator r = operator_id \<and> iw_consumed_at r = None \<and> now < iw_expires_at r)
       (\<lambda>r. r\<lparr>iw_expires_at := now\<rparr>) (rg_invites g)\<rparr>))"

definition new_invite ::
    "act_deps \<Rightarrow> uuid \<Rightarrow> string \<Rightarrow> duration \<Rightarrow> instant \<Rightarrow> ('x, invite) act" where
  "new_invite A operator_id created_by ttl now =
     bindr new_token (\<lambda>token.
     bindr (new_uuid A) (\<lambda>invite_id.
     bindr (sql (insert_invite \<lparr>iw_id = invite_id, iw_operator = operator_id,
       iw_token_hash = wa_sha256 (ad_webauthn A) (text_bytes token), iw_created_by = created_by,
       iw_created_at = now, iw_expires_at = now + ttl, iw_consumed_at = None\<rparr>)) (\<lambda>_.
     ok \<lparr>in_operator = operator_id, in_id = invite_id, in_token = token, in_expires_at = now + ttl\<rparr>)))"

section \<open>The two acts\<close>

text \<open>"un administrateur actif existe deja", with its accents.\<close>

definition active_admin_exists :: string where
  "active_admin_exists = ''un administrateur actif existe d'' @ [CHR 0xC3, CHR 0xA9, CHR ''j'', CHR 0xC3, CHR 0xA0]"

definition bootstrap_admin ::
    "act_deps \<Rightarrow> string \<Rightarrow> duration \<Rightarrow> instant \<Rightarrow> ('x, invite) act" where
  "bootstrap_admin A name ttl now =
     bindr (lift (valid_name name)) (\<lambda>_.
     bindr (ensure (\<not> (ttl < MIN_INVITE_TTL \<or> MAX_INVITE_TTL < ttl)) (BadRequest InviteTtl)) (\<lambda>_.
     transaction (
       bindr (query active_admin) (\<lambda>active.
       bindr (if active then
           bindr (attempt (journal_append ''operators.bootstrap_admin_refused'' (JObj
             [(''nom'', JStr name), (''motif'', JStr active_admin_exists)]))) (\<lambda>_.
           fail (Denied ActiveAdminExists))
         else ok ()) (\<lambda>_.
       bindr (claim_admin A name BOOTSTRAP now) (\<lambda>operator_id.
       bindr (expire_invites operator_id now) (\<lambda>_.
       bindr (new_invite A operator_id BOOTSTRAP ttl now) (\<lambda>invite.
       bindr (journal ''operators.bootstrap_admin_invited'' (JObj
         [(''operateur'', JStr name), (''operator_id'', JStr operator_id),
          (''invite_id'', JStr (in_id invite)),
          (''expire_a'', JStr (rfc3339 A (in_expires_at invite)))])) (\<lambda>_.
       ok (True, invite))))))))))"

definition recover_admin ::
    "act_deps \<Rightarrow> string \<Rightarrow> string \<Rightarrow> duration \<Rightarrow> instant \<Rightarrow> ('x, invite) act" where
  "recover_admin A name reason_text ttl now =
     bindr (lift (valid_name name)) (\<lambda>_.
     let reason = trim reason_text in
     bindr (ensure (\<not> (reason = [] \<or> 1000 < chars_count reason)) (BadRequest RecoveryReason)) (\<lambda>_.
     bindr (ensure (\<not> (ttl < MIN_INVITE_TTL \<or> MAX_INVITE_TTL < ttl)) (BadRequest InviteTtl)) (\<lambda>_.
     transaction (
       bindr (query (\<lambda>g. holders g [''admin''])) (\<lambda>active_admins.
       bindr (claim_admin A name RECOVERY now) (\<lambda>operator_id.
       bindr (expire_invites operator_id now) (\<lambda>_.
       bindr (new_invite A operator_id RECOVERY ttl now) (\<lambda>invite.
       bindr (journal ''operators.admin_recovery'' (JObj
         [(''operateur'', JStr name), (''operator_id'', JStr operator_id),
          (''invite_id'', JStr (in_id invite)), (''motif'', JStr reason),
          (''administrateurs_actifs'', JNum (int active_admins)),
          (''expire_a'', JStr (rfc3339 A (in_expires_at invite)))])) (\<lambda>_.
       ok (True, invite))))))))))"

end
