(* ===== verification/Registry_Actions.thy ===== *)
theory Registry_Actions
  imports Onboarding
begin

text \<open>
  The actions an operator signs (\<open>Action\<close> of \<open>crates/oe-actions/src/lib.rs\<close>) and those that
  change the registry of operators (\<open>crates/oe-actions/src/registry_actions.rs\<close>), played for
  good or rolled back.
\<close>

section \<open>Actions\<close>

datatype action =
    ApproveRequest string "string option" string
  | RejectRequest string string
  | InviteOperator string role int
  | ConfirmKey string string
  | RevokeKey string string
  | SetRole string role
  | RevokeCertificate string int string

fun action_kind :: "action \<Rightarrow> string" where
  "action_kind (ApproveRequest _ _ _) = ''approve_request''"
| "action_kind (RejectRequest _ _) = ''reject_request''"
| "action_kind (InviteOperator _ _ _) = ''invite_operator''"
| "action_kind (ConfirmKey _ _) = ''confirm_key''"
| "action_kind (RevokeKey _ _) = ''revoke_key''"
| "action_kind (SetRole _ _) = ''set_role''"
| "action_kind (RevokeCertificate _ _ _) = ''revoke_certificate''"

fun allowed_roles :: "action \<Rightarrow> role list" where
  "allowed_roles (ApproveRequest _ _ _) = [RaOperateur, CaOperateur]"
| "allowed_roles (RejectRequest _ _) = [RaOperateur, CaOperateur]"
| "allowed_roles (InviteOperator _ _ _) = [Admin]"
| "allowed_roles (ConfirmKey _ _) = [Admin]"
| "allowed_roles (RevokeKey _ _) = [Admin]"
| "allowed_roles (SetRole _ _) = [Admin]"
| "allowed_roles (RevokeCertificate _ _ _) = [CaOperateur]"

fun action_transaction_id :: "action \<Rightarrow> string option" where
  "action_transaction_id (ApproveRequest tx _ _) = Some tx"
| "action_transaction_id (RejectRequest tx _) = Some tx"
| "action_transaction_id _ = None"

definition QUORUM :: nat where "QUORUM = 2"

section \<open>The fingerprint read aloud\<close>

definition upper :: "char \<Rightarrow> char" where
  "upper c = (if is_lower c then char_of ((of_char c :: nat) - 32) else c)"

fun groups_of_four :: "string \<Rightarrow> string list" where
  "groups_of_four (a # b # c # d # rest) = [a, b, c, d] # groups_of_four rest"
| "groups_of_four [] = []"
| "groups_of_four part = [part]"

definition key_fingerprint :: "act_deps \<Rightarrow> passkey \<Rightarrow> act_error + string" where
  "key_fingerprint A passkey =
     sbind (ok_or (BadRequest NoPublicKey) (j_pointer passkey [''cred'', ''cred''])) (\<lambda>cose.
     let canonical = wa_json_text (ad_webauthn A) cose;
         hex = map upper (hex_encode (wa_sha256 (ad_webauthn A) (text_bytes canonical))) in
     Inr (join '' '' (groups_of_four hex)))"

section \<open>Inviting\<close>

text \<open>\<open>Duration::minutes\<close> panics when the seconds overflow an \<open>i64\<close>.\<close>

definition duration_minutes :: "int \<Rightarrow> act_error + duration" where
  "duration_minutes n = sbind (require (- (2 ^ 63) \<le> n * 60 \<and> n * 60 < 2 ^ 63) Panicked)
     (\<lambda>_. Inr (minutes n))"


definition invite_operator ::
    "act_deps \<Rightarrow> operator \<Rightarrow> instant \<Rightarrow> bool \<Rightarrow> nat \<Rightarrow> string \<Rightarrow> role \<Rightarrow> int \<Rightarrow> ('x, json) act" where
  "invite_operator A actor now apply_it quorum name role ttl_minutes =
     bindr (lift (valid_name name)) (\<lambda>_.
     bindr (ensure (\<not> (role = Admin \<and> quorum < QUORUM)) (Denied QuorumRequired)) (\<lambda>_.
     bindr (lift (duration_minutes ttl_minutes)) (\<lambda>ttl.
     bindr (ensure (MIN_INVITE_TTL \<le> ttl \<and> ttl \<le> MAX_INVITE_TTL) (BadRequest InviteTtl)) (\<lambda>_.
     bindr (query (\<lambda>g. list_ex (\<lambda>r. ow_name r = name) (rg_operators g))) (\<lambda>taken.
     bindr (ensure (\<not> taken) (BadRequest (NameTaken name))) (\<lambda>_.
     bindr (add_operator A name role (op_name actor) now) (\<lambda>operator_id.
     bindr (new_invite A operator_id (op_name actor) ttl now) (\<lambda>invite.
     bindr (journal_if apply_it ''operators.invited'' (JObj
         [(''operateur'', JStr name), (''operator_id'', JStr operator_id),
          (''role'', JStr (role_text role)), (''invite_id'', JStr (in_id invite)),
          (''par'', JStr (op_name actor)),
          (''expire_a'', JStr (rfc3339 A (in_expires_at invite)))])) (\<lambda>_.
     ok (JObj [(''operator'', JStr name), (''operator_id'', JStr operator_id),
       (''invite_token'', JStr (in_token invite)),
       (''expires_at'', JStr (rfc3339 A (in_expires_at invite)))]))))))))))"

section \<open>Confirming a key\<close>

text \<open>The pending key, its invitation and its owner: the join of the source.\<close>

definition pending_join :: "registry \<Rightarrow> string \<Rightarrow> (pending_row \<times> invite_row \<times> operator_row) option" where
  "pending_join g cid =
     (case find (\<lambda>p. pw_id p = cid) (rg_pending g) of
        None \<Rightarrow> None
      | Some p \<Rightarrow> (case (find (\<lambda>i. iw_id i = pw_invite p) (rg_invites g),
                       find (\<lambda>r. ow_id r = pw_operator p) (rg_operators g)) of
          (Some i, Some r) \<Rightarrow> Some (p, i, r)
        | _ \<Rightarrow> None))"

definition confirm_key ::
    "act_deps \<Rightarrow> operator \<Rightarrow> instant \<Rightarrow> bool \<Rightarrow> string \<Rightarrow> string \<Rightarrow> ('x, json) act" where
  "confirm_key A actor now apply_it cid signed_fingerprint =
     bindr (query (\<lambda>g. pending_join g cid)) (\<lambda>row.
     bindr (lift (ok_or (Denied PendingKeyUnknown) row)) (\<lambda>(p, i, owner).
     bindr (ensure (\<not> pw_expires_at p \<le> now) (Denied PendingKeyExpired)) (\<lambda>_.
     bindr (ensure (ow_disabled_at owner = None) (Denied OperatorDisabled)) (\<lambda>_.
     bindr (ensure (pw_operator p \<noteq> op_id actor) (Denied OwnKey)) (\<lambda>_.
     bindr (ensure (wa_readable (ad_webauthn A) (pw_passkey p)) (Effect EffUnreadableKey)) (\<lambda>_.
     bindr (lift (key_fingerprint A (pw_passkey p))) (\<lambda>fp.
     bindr (ensure (fp = signed_fingerprint) (Denied SignedFingerprintDiffers)) (\<lambda>_.
     bindr (insert_credential A
       \<lparr>nc_operator = pw_operator p, nc_passkey = pw_passkey p, nc_aaguid = pw_aaguid p,
        nc_format = pw_format p, nc_attestation = pw_attestation p, nc_label = [],
        nc_initiated_by = iw_created_by i, nc_confirmed_by = Some (op_name actor)\<rparr> now) (\<lambda>_.
     bindr (sql (modify (\<lambda>g. g\<lparr>rg_pending := filter (\<lambda>r. pw_id r \<noteq> cid) (rg_pending g)\<rparr>))) (\<lambda>_.
     bindr (journal_if apply_it ''operators.key_confirmed'' (JObj
         [(''operateur'', JStr (ow_name owner)), (''operator_id'', JStr (pw_operator p)),
          (''credential_id'', JStr cid), (''empreinte'', JStr signed_fingerprint),
          (''initiee_par'', JStr (iw_created_by i)), (''confirmee_par'', JStr (op_name actor))])) (\<lambda>_.
     ok (JObj [(''operator'', JStr (ow_name owner)), (''credential_id'', JStr cid)]))))))))))))"

section \<open>Revoking a key\<close>

definition credential_join :: "registry \<Rightarrow> string \<Rightarrow> (credential_row \<times> operator_row) option" where
  "credential_join g cid =
     (case find (\<lambda>c. kw_id c = cid) (rg_credentials g) of
        None \<Rightarrow> None
      | Some c \<Rightarrow> (case find (\<lambda>r. ow_id r = kw_operator c) (rg_operators g) of
          None \<Rightarrow> None | Some r \<Rightarrow> Some (c, r)))"

text \<open>The active keys of active administrators, this one set aside.\<close>

definition other_admin_keys :: "registry \<Rightarrow> string \<Rightarrow> nat" where
  "other_admin_keys g cid = length (filter (\<lambda>c. kw_id c \<noteq> cid
     \<and> list_ex (\<lambda>r. is_active_admin r c) (rg_operators g)) (rg_credentials g))"

definition revoke_key ::
    "operator \<Rightarrow> instant \<Rightarrow> bool \<Rightarrow> string \<Rightarrow> string \<Rightarrow> ('x, json) act" where
  "revoke_key actor now apply_it cid reason =
     bindr (ensure (trim reason \<noteq> []) (BadRequest ReasonMissing)) (\<lambda>_.
     bindr (query (\<lambda>g. credential_join g cid)) (\<lambda>row.
     bindr (lift (ok_or (Denied KeyUnknown) row)) (\<lambda>(c, owner).
     bindr (ensure (kw_revoked_at c = None) (Denied KeyAlreadyRevoked)) (\<lambda>_.
     bindr (if ow_role owner = role_text Admin then
         bindr (query (\<lambda>g. other_admin_keys g cid)) (\<lambda>others.
         ensure (others \<noteq> 0) (Denied NoAdminLeft))
       else ok ()) (\<lambda>_.
     bindr (sql (modify (\<lambda>g. g\<lparr>rg_credentials :=
         update_where (\<lambda>r. kw_id r = cid)
           (\<lambda>r. r\<lparr>kw_revoked_at := Some now, kw_revoked_by := Some (op_name actor),
                  kw_revoked_reason := Some reason\<rparr>) (rg_credentials g)\<rparr>))) (\<lambda>_.
     bindr (journal_if apply_it ''operators.key_revoked'' (JObj
         [(''operateur'', JStr (ow_name owner)), (''credential_id'', JStr cid),
          (''motif'', JStr reason), (''par'', JStr (op_name actor))])) (\<lambda>_.
     ok (JObj [(''operator'', JStr (ow_name owner)), (''credential_id'', JStr cid)]))))))))"

section \<open>Changing a role\<close>

definition set_role ::
    "operator \<Rightarrow> bool \<Rightarrow> nat \<Rightarrow> string \<Rightarrow> role \<Rightarrow> ('x, json) act" where
  "set_role actor apply_it quorum name role =
     bindr (ensure (\<not> (role = Admin \<and> quorum < QUORUM)) (Denied QuorumRequired)) (\<lambda>_.
     bindr (query (\<lambda>g. find (\<lambda>r. ow_name r = name) (rg_operators g))) (\<lambda>found.
     bindr (lift (ok_or (Denied OperatorUnknown) found)) (\<lambda>row.
     let current = ow_role row in
     bindr (ensure (ow_disabled_at row = None) (Denied OperatorDisabled)) (\<lambda>_.
     bindr (ensure (ow_id row \<noteq> op_id actor) (Denied OwnRole)) (\<lambda>_.
     bindr (ensure (\<not> (current = role_text Admin \<and> quorum < QUORUM)) (Denied QuorumRequired)) (\<lambda>_.
     bindr (ensure (current \<noteq> role_text role) (BadRequest (RoleUnchanged name (role_text role)))) (\<lambda>_.
     bindr (sql (modify (\<lambda>g. g\<lparr>rg_operators :=
         update_where (\<lambda>r. ow_id r = ow_id row) (\<lambda>r. r\<lparr>ow_role := role_text role\<rparr>)
           (rg_operators g)\<rparr>))) (\<lambda>_.
     bindr (journal_if apply_it ''operators.role_changed'' (JObj
         [(''operateur'', JStr name), (''ancien_role'', JStr current),
          (''nouveau_role'', JStr (role_text role)), (''par'', JStr (op_name actor))])) (\<lambda>_.
     ok (JObj [(''operator'', JStr name), (''role'', JStr (role_text role))]))))))))))"

section \<open>One path for the control and the execution\<close>

fun registry_action ::
    "act_deps \<Rightarrow> action \<Rightarrow> operator \<Rightarrow> instant \<Rightarrow> bool \<Rightarrow> nat \<Rightarrow> ('x, json) act" where
  "registry_action A (InviteOperator name role ttl) actor now apply_it quorum =
     invite_operator A actor now apply_it quorum name role ttl"
| "registry_action A (ConfirmKey cid fp) actor now apply_it quorum =
     confirm_key A actor now apply_it cid fp"
| "registry_action A (RevokeKey cid reason) actor now apply_it quorum =
     revoke_key actor now apply_it cid reason"
| "registry_action A (SetRole name role) actor now apply_it quorum =
     set_role actor apply_it quorum name role"
| "registry_action A _ actor now apply_it quorum = fail (BadRequest NotARegistryAction)"

definition run_registry_action ::
    "act_deps \<Rightarrow> action \<Rightarrow> operator \<Rightarrow> instant \<Rightarrow> bool \<Rightarrow> nat \<Rightarrow> ('x, json) act" where
  "run_registry_action A action actor now apply_it quorum = transaction (
     bindr (registry_action A action actor now apply_it quorum) (\<lambda>result.
     ok (apply_it, result)))"

end
