(* ===== verification/Enrollment.thy ===== *)
theory Enrollment
  imports Registry_Actions
begin

text \<open>
  The registration of an operator's key with his invitation:
  \<open>crates/oe-actions/src/enrollment.rs\<close>, and the guard of the registry
  (\<open>crates/oe-actions/src/guard.rs\<close>).
\<close>

section \<open>The guard\<close>

definition guard_block :: "string list \<Rightarrow> ('x, unit) act" where
  "guard_block reasons = modify (\<lambda>w. w\<lparr>w_guard := Some (if reasons = []
     then [''registre bloqu'' @ [CHR 0xC3, CHR 0xA9] @ '', sans d'' @ [CHR 0xC3, CHR 0xA9] @ ''tail'']
     else reasons)\<rparr>)"

definition guard_open :: "('x, unit) act" where
  "guard_open = modify (\<lambda>w. w\<lparr>w_guard := None\<rparr>)"

definition ensure_open :: "('x, unit) act" where
  "ensure_open = bindr (gets w_guard) (\<lambda>guard.
     case guard of Some reasons \<Rightarrow> fail (Blocked reasons) | None \<Rightarrow> ok ())"

section \<open>Invitations\<close>

definition CHALLENGE_TTL :: duration where "CHALLENGE_TTL = minutes 5"
definition PENDING_TTL :: duration where "PENDING_TTL = hours 72"
definition MAX_CEREMONIES :: nat where "MAX_CEREMONIES = 1024"

datatype invite_key = ByToken string | ByInviteId uuid

fun invite_matches :: "act_deps \<Rightarrow> invite_key \<Rightarrow> invite_row \<Rightarrow> bool" where
  "invite_matches A (ByToken t) i \<longleftrightarrow>
     iw_token_hash i = wa_sha256 (ad_webauthn A) (text_bytes t)"
| "invite_matches A (ByInviteId k) i \<longleftrightarrow> iw_id i = k"

definition live_invite :: "act_deps \<Rightarrow> invite_key \<Rightarrow> instant \<Rightarrow> ('x, invite_row \<times> operator_row) act" where
  "live_invite A by now =
     bindr (query (\<lambda>g. find_map (\<lambda>i.
         if invite_matches A by i \<and> iw_consumed_at i = None \<and> now < iw_expires_at i then
           (case find (\<lambda>r. ow_id r = iw_operator i) (rg_operators g) of
              None \<Rightarrow> None
            | Some r \<Rightarrow> if ow_disabled_at r = None then Some (i, r) else None)
         else None) (rg_invites g))) (\<lambda>row.
     lift (ok_or (Denied InvalidInvite) row))"

section \<open>Opening the ceremony\<close>

record registration_begun =
  rb_ceremony :: uuid
  rb_operator :: string
  rb_options :: json

definition begin_registration :: "act_deps \<Rightarrow> string \<Rightarrow> ('x, registration_begun) act" where
  "begin_registration A token =
     bindr ensure_open (\<lambda>_.
     bindr now_utc (\<lambda>now.
     bindr (live_invite A (ByToken token) now) (\<lambda>(invite, owner).
     bindr (active_keys A (iw_operator invite)) (\<lambda>keys.
     let known = map (\<lambda>k. wa_cred_id (ad_webauthn A) (ky_passkey k)) keys in
     bindr (fill_bytes 32) (\<lambda>random.
     bindr (lift (or_else_err (\<lambda>e. Verification (WaRejected e))
       (wa_start_reg (ad_webauthn A) (iw_operator invite) (ow_name owner) known random))) (\<lambda>(options, state).
     bindr (new_uuid A) (\<lambda>ceremony_id.
     let expires_at = min (now + CHALLENGE_TTL) (iw_expires_at invite) in
     bindr (modify (\<lambda>w. w\<lparr>w_registrations := filter (\<lambda>(k, p). now < gr_expires_at p
         \<and> gr_invite p \<noteq> iw_id invite) (w_registrations w)\<rparr>)) (\<lambda>_.
     bindr (gets w_registrations) (\<lambda>open_ones.
     bindr (ensure (\<not> MAX_CEREMONIES \<le> length open_ones) (Denied TooManyCeremonies)) (\<lambda>_.
     bindr (modify (\<lambda>w. w\<lparr>w_registrations := bt_insert ceremony_id
         \<lparr>gr_invite = iw_id invite, gr_operator = iw_operator invite, gr_state = state,
          gr_expires_at = expires_at\<rparr> (w_registrations w)\<rparr>)) (\<lambda>_.
     ok \<lparr>rb_ceremony = ceremony_id, rb_operator = ow_name owner, rb_options = options\<rparr>)))))))))))"

section \<open>Finishing it\<close>

datatype key_status = Active | PendingConfirmation

fun status_text :: "key_status \<Rightarrow> string" where
  "status_text Active = ''active''"
| "status_text PendingConfirmation = ''pending_confirmation''"

record registered =
  rd_operator :: string
  rd_credential :: string
  rd_status :: key_status
  rd_fingerprint :: string
  rd_aaguid :: string

text \<open>The state of a ceremony leaves the memory at the first attempt.\<close>

definition take_registration :: "uuid \<Rightarrow> ('x, registration) act" where
  "take_registration ceremony_id =
     bindr (gets (\<lambda>w. bt_get (w_registrations w) ceremony_id)) (\<lambda>found.
     bindr (modify (\<lambda>w. w\<lparr>w_registrations :=
       filter (\<lambda>(k, p). k \<noteq> ceremony_id) (w_registrations w)\<rparr>)) (\<lambda>_.
     lift (ok_or StateLost found)))"

text \<open>A key that enters the register at once, and one that waits for its confirmation.\<close>

definition store_key ::
    "act_deps \<Rightarrow> invite_row \<Rightarrow> passkey \<Rightarrow> string \<Rightarrow> string \<Rightarrow> bytes \<Rightarrow> instant \<Rightarrow> ('x, unit) act" where
  "store_key A invite passkey aaguid form attestation_object now =
     (let bootstrap = (iw_created_by invite = BOOTSTRAP);
          recovery = (iw_created_by invite = RECOVERY) in
      if bootstrap \<or> recovery then
        insert_credential A \<lparr>nc_operator = iw_operator invite, nc_passkey = passkey,
          nc_aaguid = aaguid, nc_format = form, nc_attestation = attestation_object,
          nc_label = (if bootstrap then ''amor'' @ [CHR 0xC3, CHR 0xA7] @ ''age''
            else ''r'' @ [CHR 0xC3, CHR 0xA9] @ ''cup'' @ [CHR 0xC3, CHR 0xA9] @ ''ration''),
          nc_initiated_by = iw_created_by invite,
          nc_confirmed_by = (if recovery then Some RECOVERY else None)\<rparr> now
      else sql (insert_pending
        \<lparr>pw_id = credential_id (wa_cred_id (ad_webauthn A) passkey),
         pw_operator = iw_operator invite, pw_aaguid = aaguid, pw_format = form,
         pw_attestation = attestation_object, pw_invite = iw_id invite,
         pw_registered_at = now, pw_expires_at = now + PENDING_TTL, pw_passkey = passkey\<rparr>))"

definition consume_invite :: "uuid \<Rightarrow> instant \<Rightarrow> ('x, unit) act" where
  "consume_invite i now =
     (let due = (\<lambda>r. iw_id r = i \<and> iw_consumed_at r = None \<and> now < iw_expires_at r) in
     bindr (query (\<lambda>g. length (filter due (rg_invites g)))) (\<lambda>affected.
     bindr (sql (modify (\<lambda>g. g\<lparr>rg_invites :=
       update_where due (\<lambda>r. r\<lparr>iw_consumed_at := Some now\<rparr>) (rg_invites g)\<rparr>))) (\<lambda>_.
     ensure (affected = 1) (Denied InvalidInvite))))"

definition finish_registration :: "act_deps \<Rightarrow> uuid \<Rightarrow> attestation \<Rightarrow> ('x, registered) act" where
  "finish_registration A ceremony_id credential =
     bindr ensure_open (\<lambda>_.
     bindr now_utc (\<lambda>now.
     bindr (take_registration ceremony_id) (\<lambda>pending.
     bindr (ensure (\<not> gr_expires_at pending < now) ChallengeExpired) (\<lambda>_.
     bindr (live_invite A (ByInviteId (gr_invite pending)) now) (\<lambda>(invite, owner).
     bindr (ensure (iw_operator invite = gr_operator pending) (Denied InvalidInvite)) (\<lambda>_.
     bindr (lift (or_else_err (\<lambda>e. Verification (WaRejected e))
       (wa_finish_reg (ad_webauthn A) credential (gr_state pending)))) (\<lambda>passkey.
     bindr (lift (or_else_err Verification
       (summarize_attestation (ad_webauthn A) passkey))) (\<lambda>(aaguid, form).
     let cred_id = credential_id (wa_cred_id (ad_webauthn A) passkey) in
     bindr (lift (key_fingerprint A passkey)) (\<lambda>fp.
     let bootstrap = (iw_created_by invite = BOOTSTRAP);
         recovery = (iw_created_by invite = RECOVERY);
         direct = (bootstrap \<or> recovery);
         status = (if direct then Active else PendingConfirmation) in
     transaction (
       bindr (query active_admin) (\<lambda>active.
       bindr (ensure (\<not> (bootstrap \<and> active)) (Denied BootstrapInviteUseless)) (\<lambda>_.
       bindr (consume_invite (iw_id invite) now) (\<lambda>_.
       bindr (attempt (store_key A invite passkey aaguid form (at_object credential) now)) (\<lambda>stored.
       bindr (case stored of
           Inr _ \<Rightarrow> ok ()
         | Inl e \<Rightarrow> if is_unique_violation e then fail (Denied KeyAlreadyRegistered) else fail e) (\<lambda>_.
       bindr (journal ''operators.credential_registered'' (JObj
         [(''operateur'', JStr (ow_name owner)), (''operator_id'', JStr (iw_operator invite)),
          (''invite_id'', JStr (iw_id invite)), (''credential_id'', JStr cred_id),
          (''statut'', JStr (status_text status)), (''empreinte'', JStr fp),
          (''aaguid'', JStr aaguid), (''attestation'', JStr form)])) (\<lambda>_.
       ok (True, \<lparr>rd_operator = ow_name owner, rd_credential = cred_id, rd_status = status,
         rd_fingerprint = fp, rd_aaguid = aaguid\<rparr>)))))))))))))))))"

end
