(* ===== verification/Replay.thy ===== *)
theory Replay
  imports Enrollment
begin

text \<open>
  The journal replayed against the registry, and \<open>operators reconcile\<close>:
  \<open>crates/oe-actions/src/replay.rs\<close>.
\<close>

section \<open>What the journal attests\<close>

datatype divergence =
    RevokedInJournal string string
  | RoleDiffers string string string
  | MissingKey string string

record key_facts =
  kf_operator :: string
  kf_revoked :: bool

record replay =
  rp_keys :: "(string, key_facts) btree"
  rp_roles :: "(string, string) btree"
  rp_acknowledged :: "string list"

definition replay_new :: replay where
  "replay_new = \<lparr>rp_keys = [], rp_roles = [], rp_acknowledged = []\<rparr>"

definition text_field :: "json \<Rightarrow> string \<Rightarrow> string option" where
  "text_field data k = (case j_get data k of None \<Rightarrow> None | Some v \<Rightarrow> j_str v)"

text \<open>\<open>entry(id).or_default()\<close>\<close>

definition facts_of :: "replay \<Rightarrow> string \<Rightarrow> key_facts" where
  "facts_of r i = (case bt_get (rp_keys r) i of
     None \<Rightarrow> \<lparr>kf_operator = [], kf_revoked = False\<rparr> | Some f \<Rightarrow> f)"

definition note_owner :: "json \<Rightarrow> replay \<Rightarrow> replay" where
  "note_owner data r = (case (text_field data ''credential_id'', text_field data ''operateur'') of
     (Some i, Some name) \<Rightarrow>
       r\<lparr>rp_keys := bt_insert i ((facts_of r i)\<lparr>kf_operator := name\<rparr>) (rp_keys r)\<rparr>
   | _ \<Rightarrow> r)"

definition note_revoked :: "json \<Rightarrow> replay \<Rightarrow> replay" where
  "note_revoked data r = (case text_field data ''credential_id'' of
     None \<Rightarrow> r
   | Some i \<Rightarrow>
       let k = (facts_of r i)\<lparr>kf_revoked := True\<rparr>;
           k' = (if kf_operator k = [] then
                   k\<lparr>kf_operator := (case text_field data ''operateur'' of None \<Rightarrow> [] | Some n \<Rightarrow> n)\<rparr>
                 else k) in
       r\<lparr>rp_keys := bt_insert i k' (rp_keys r)\<rparr>)"

definition note_role :: "string \<Rightarrow> json \<Rightarrow> replay \<Rightarrow> replay" where
  "note_role field data r = (case (text_field data ''operateur'', text_field data field) of
     (Some name, Some role) \<Rightarrow> r\<lparr>rp_roles := bt_insert name role (rp_roles r)\<rparr>
   | _ \<Rightarrow> r)"

definition note_admin :: "json \<Rightarrow> replay \<Rightarrow> replay" where
  "note_admin data r = (case text_field data ''operateur'' of
     None \<Rightarrow> r
   | Some name \<Rightarrow>
       (case bt_get (rp_roles r) name of
          Some role \<Rightarrow> r
        | None \<Rightarrow> r\<lparr>rp_roles := bt_insert name ''admin'' (rp_roles r)\<rparr>))"

definition note_acknowledged :: "json \<Rightarrow> replay \<Rightarrow> replay" where
  "note_acknowledged data r = (case text_field data ''credential_id'' of
     None \<Rightarrow> r | Some i \<Rightarrow> r\<lparr>rp_acknowledged := i # rp_acknowledged r\<rparr>)"

definition replay_event :: "string \<times> json \<Rightarrow> replay \<Rightarrow> replay" where
  "replay_event e r = (case e of (event, data) \<Rightarrow>
     if event = ''operators.credential_registered'' \<and> text_field data ''statut'' = Some ''active''
       then note_owner data r
     else if event = ''operators.key_confirmed'' then note_owner data r
     else if event = ''operators.key_revoked'' then note_revoked data r
     else if event = ''operators.invited'' then note_role ''role'' data r
     else if event \<in> {''operators.bootstrap_admin_invited'', ''operators.admin_recovery''}
       then note_admin data r
     else if event = ''operators.role_changed'' then note_role ''nouveau_role'' data r
     else if event = ''operators.reconciled''
         \<and> text_field data ''resultat'' = Some ''acknowledged_missing''
       then note_acknowledged data r
     else r)"

definition from_events :: "(string \<times> json) list \<Rightarrow> replay" where
  "from_events events = foldl (\<lambda>r e. replay_event e r) replay_new events"

section \<open>Against the registry\<close>

definition key_divergence :: "registry \<Rightarrow> replay \<Rightarrow> string \<times> key_facts \<Rightarrow> divergence list" where
  "key_divergence g r kf = (case kf of (i, facts) \<Rightarrow>
     (case (find (\<lambda>c. kw_id c = i) (rg_credentials g), kf_revoked facts) of
        (Some c, True) \<Rightarrow> if kw_revoked_at c = None then [RevokedInJournal i (kf_operator facts)] else []
      | (None, False) \<Rightarrow> if i \<notin> set (rp_acknowledged r) then [MissingKey i (kf_operator facts)] else []
      | _ \<Rightarrow> []))"

definition role_divergence :: "registry \<Rightarrow> string \<times> string \<Rightarrow> divergence list" where
  "role_divergence g nr = (case nr of (name, journal_role) \<Rightarrow>
     (case find (\<lambda>o'. ow_name o' = name) (rg_operators g) of
        Some o' \<Rightarrow> if ow_role o' \<noteq> journal_role then [RoleDiffers name journal_role (ow_role o')] else []
      | None \<Rightarrow> []))"

definition divergences :: "registry \<Rightarrow> replay \<Rightarrow> divergence list" where
  "divergences g r = concat (map (key_divergence g r) (rp_keys r))
     @ concat (map (role_divergence g) (rp_roles r))"

definition find_divergences :: "replay \<Rightarrow> ('x, divergence list) act" where
  "find_divergences r = query (\<lambda>g. divergences g r)"

section \<open>Reconciling\<close>

datatype resolution = Reapplied divergence | ReappliedRole divergence | Acknowledged divergence

record outcome =
  oc_resolved :: "(bool \<times> resolution) list"
  oc_unresolved :: "divergence list"

text \<open>One divergence: the flag of the resolution tells a dry run.\<close>

definition replay_reason :: "string \<Rightarrow> string" where
  "replay_reason reason = ''rejeu du journal : '' @ reason"

definition reapply_role :: "string \<Rightarrow> string \<Rightarrow> unit sql" where
  "reapply_role name role =
     bindr (gets (\<lambda>g. list_ex (\<lambda>r. ow_name r = name) (rg_operators g))) (\<lambda>found.
     bindr (ensure (\<not> (found \<and> role_parse role = None)) (CheckViolation ''operators_role_check'')) (\<lambda>_.
     modify (\<lambda>g. g\<lparr>rg_operators :=
       update_where (\<lambda>r. ow_name r = name) (\<lambda>r. r\<lparr>ow_role := role\<rparr>) (rg_operators g)\<rparr>)))"

fun reconcile_one ::
    "string \<Rightarrow> string list \<Rightarrow> bool \<Rightarrow> instant \<Rightarrow> divergence \<Rightarrow> outcome \<Rightarrow> ('x, outcome) act" where
  "reconcile_one reason acks dry now (RevokedInJournal i name) out =
     (if dry then ok (out\<lparr>oc_resolved := oc_resolved out @ [(True, Reapplied (RevokedInJournal i name))]\<rparr>)
      else bindr (transaction (
        bindr (sql (modify (\<lambda>g. g\<lparr>rg_credentials :=
          update_where (\<lambda>r. kw_id r = i \<and> kw_revoked_at r = None)
            (\<lambda>r. r\<lparr>kw_revoked_at := Some now, kw_revoked_by := Some ''reconcile'',
                   kw_revoked_reason := Some (replay_reason reason)\<rparr>) (rg_credentials g)\<rparr>))) (\<lambda>_.
        bindr (journal ''operators.reconciled'' (JObj
          [(''resultat'', JStr ''reapplied_revocation''), (''credential_id'', JStr i),
           (''operateur'', JStr name), (''motif'', JStr reason)])) (\<lambda>_.
        ok (True, ()))))) (\<lambda>_.
      ok (out\<lparr>oc_resolved := oc_resolved out @ [(False, Reapplied (RevokedInJournal i name))]\<rparr>)))"
| "reconcile_one reason acks dry now (RoleDiffers name journal_role db_role) out =
     (if dry then ok (out\<lparr>oc_resolved := oc_resolved out
          @ [(True, ReappliedRole (RoleDiffers name journal_role db_role))]\<rparr>)
      else bindr (transaction (
        bindr (sql (reapply_role name journal_role)) (\<lambda>_.
        bindr (journal ''operators.reconciled'' (JObj
          [(''resultat'', JStr ''reapplied_role''), (''operateur'', JStr name),
           (''role'', JStr journal_role), (''motif'', JStr reason)])) (\<lambda>_.
        ok (True, ()))))) (\<lambda>_.
      ok (out\<lparr>oc_resolved := oc_resolved out
        @ [(False, ReappliedRole (RoleDiffers name journal_role db_role))]\<rparr>)))"
| "reconcile_one reason acks dry now (MissingKey i name) out =
     (if i \<notin> set acks then ok (out\<lparr>oc_unresolved := oc_unresolved out @ [MissingKey i name]\<rparr>)
      else if dry then ok (out\<lparr>oc_resolved := oc_resolved out @ [(True, Acknowledged (MissingKey i name))]\<rparr>)
      else bindr (journal ''operators.reconciled'' (JObj
          [(''resultat'', JStr ''acknowledged_missing''), (''credential_id'', JStr i),
           (''operateur'', JStr name), (''motif'', JStr reason)])) (\<lambda>_.
      ok (out\<lparr>oc_resolved := oc_resolved out @ [(False, Acknowledged (MissingKey i name))]\<rparr>)))"

fun reconcile_all ::
    "string \<Rightarrow> string list \<Rightarrow> bool \<Rightarrow> instant \<Rightarrow> divergence list \<Rightarrow> outcome \<Rightarrow> ('x, outcome) act" where
  "reconcile_all reason acks dry now [] out = ok out"
| "reconcile_all reason acks dry now (d # ds) out =
     bindr (reconcile_one reason acks dry now d out) (\<lambda>out'.
     reconcile_all reason acks dry now ds out')"

definition is_missing :: "string \<Rightarrow> divergence \<Rightarrow> bool" where
  "is_missing i d = (case d of MissingKey j _ \<Rightarrow> j = i | _ \<Rightarrow> False)"

definition reconcile ::
    "replay \<Rightarrow> string \<Rightarrow> string list \<Rightarrow> bool \<Rightarrow> instant \<Rightarrow> ('x, outcome) act" where
  "reconcile r reason_text acks dry now =
     (let reason = trim reason_text in
     bindr (ensure (reason \<noteq> []) (BadRequest DivergenceReason)) (\<lambda>_.
     bindr (find_divergences r) (\<lambda>ds.
     bindr (lift (case find (\<lambda>i. \<not> list_ex (is_missing i) ds) acks of
         Some i \<Rightarrow> Inl (BadRequest (NothingToAcknowledge i)) | None \<Rightarrow> Inr ())) (\<lambda>_.
     reconcile_all reason acks dry now ds \<lparr>oc_resolved = [], oc_unresolved = []\<rparr>))))"

end
