(* ===== verification/Actions.thy ===== *)
theory Actions
  imports Replay
begin

text \<open>
  The service of signed actions: \<open>crates/oe-actions/src/lib.rs\<close> (\<open>Service\<close>),
  \<open>quorum.rs\<close> and \<open>revocation.rs\<close>, with the revoker of \<open>bin/ca-server/src/revoker.rs\<close>.
\<close>

section \<open>The frozen body\<close>

text \<open>The fields in the order of the declaration, the tag first: what the derived
  serialisation writes, and what the derived deserialisation accepts.\<close>

fun action_fields :: "action \<Rightarrow> (string \<times> json) list" where
  "action_fields (ApproveRequest tx fp comment) =
     (''transaction_id'', JStr tx)
     # (case fp of None \<Rightarrow> [] | Some f \<Rightarrow> [(''csr_fingerprint'', JStr f)])
     @ [(''comment'', JStr comment)]"
| "action_fields (RejectRequest tx comment) =
     [(''transaction_id'', JStr tx), (''comment'', JStr comment)]"
| "action_fields (InviteOperator name role ttl) =
     [(''name'', JStr name), (''role'', JStr (role_text role)), (''ttl_minutes'', JNum ttl)]"
| "action_fields (ConfirmKey cid fp) =
     [(''credential_id'', JStr cid), (''key_fingerprint'', JStr fp)]"
| "action_fields (RevokeKey cid reason) =
     [(''credential_id'', JStr cid), (''reason'', JStr reason)]"
| "action_fields (SetRole name role) =
     [(''operator'', JStr name), (''role'', JStr (role_text role))]"
| "action_fields (RevokeCertificate serial reason comment) =
     [(''serial'', JStr serial), (''reason'', JNum reason), (''comment'', JStr comment)]"

definition body_json :: "action \<Rightarrow> string \<Rightarrow> json" where
  "body_json action expires_at =
     JObj ((''action'', JStr (action_kind action)) # action_fields action
           @ [(''expires_at'', JStr expires_at)])"

definition field_string :: "json \<Rightarrow> string \<Rightarrow> string + string" where
  "field_string j k = ok_or k (text_field j k)"

definition field_role :: "json \<Rightarrow> string \<Rightarrow> string + role" where
  "field_role j k = sbind (field_string j k) (\<lambda>s. ok_or k (role_parse s))"

fun j_number :: "int \<Rightarrow> json \<Rightarrow> int option" where
  "j_number bound (JNum n) = (if - bound \<le> n \<and> n < bound then Some n else None)"
| "j_number bound _ = None"

definition field_number :: "int \<Rightarrow> json \<Rightarrow> string \<Rightarrow> string + int" where
  "field_number bound j k = sbind (ok_or k (j_get j k)) (\<lambda>v. ok_or k (j_number bound v))"

definition default_invite_ttl_minutes :: int where "default_invite_ttl_minutes = 60"

definition read_action :: "json \<Rightarrow> string + action" where
  "read_action j = sbind (field_string j ''action'') (\<lambda>kind.
     if kind = ''approve_request'' then
       sbind (field_string j ''transaction_id'') (\<lambda>tx.
       sbind (case j_get j ''csr_fingerprint'' of
           None \<Rightarrow> Inr None | Some JNull \<Rightarrow> Inr None
         | Some v \<Rightarrow> sbind (ok_or ''csr_fingerprint'' (j_str v)) (\<lambda>f. Inr (Some f))) (\<lambda>fp.
       sbind (field_string j ''comment'') (\<lambda>comment.
       Inr (ApproveRequest tx fp comment))))
     else if kind = ''reject_request'' then
       sbind (field_string j ''transaction_id'') (\<lambda>tx.
       sbind (field_string j ''comment'') (\<lambda>comment.
       Inr (RejectRequest tx comment)))
     else if kind = ''invite_operator'' then
       sbind (field_string j ''name'') (\<lambda>name.
       sbind (field_role j ''role'') (\<lambda>role.
       sbind (if j_get j ''ttl_minutes'' = None then Inr default_invite_ttl_minutes
              else field_number (2 ^ 63) j ''ttl_minutes'') (\<lambda>ttl.
       Inr (InviteOperator name role ttl))))
     else if kind = ''confirm_key'' then
       sbind (field_string j ''credential_id'') (\<lambda>cid.
       sbind (field_string j ''key_fingerprint'') (\<lambda>fp.
       Inr (ConfirmKey cid fp)))
     else if kind = ''revoke_key'' then
       sbind (field_string j ''credential_id'') (\<lambda>cid.
       sbind (field_string j ''reason'') (\<lambda>reason.
       Inr (RevokeKey cid reason)))
     else if kind = ''set_role'' then
       sbind (field_string j ''operator'') (\<lambda>name.
       sbind (field_role j ''role'') (\<lambda>role.
       Inr (SetRole name role)))
     else if kind = ''revoke_certificate'' then
       sbind (field_string j ''serial'') (\<lambda>serial.
       sbind (field_number (2 ^ 31) j ''reason'') (\<lambda>reason.
       sbind (field_string j ''comment'') (\<lambda>comment.
       Inr (RevokeCertificate serial reason comment))))
     else Inl kind)"

definition read_body :: "json \<Rightarrow> act_error + action \<times> string" where
  "read_body j = or_else_err (\<lambda>e. BadRequest (UnreadableBody e))
     (sbind (read_action j) (\<lambda>action.
      sbind (field_string j ''expires_at'') (\<lambda>expires_at.
      Inr (action, expires_at))))"

section \<open>The policy of signatures\<close>

definition QUORUM_WINDOW :: duration where "QUORUM_WINDOW = hours 24"

definition TWO_PERSON_PROFILES :: "string list" where "TWO_PERSON_PROFILES = [''tsa_signer'']"

definition FINGERPRINT_REQUIRED_PROFILES :: "string list" where
  "FINGERPRINT_REQUIRED_PROFILES = [''tsa_signer'', ''internal_client'', ''internal_server'']"

definition CA_ONLY_PROFILE :: string where "CA_ONLY_PROFILE = ''internal_client''"

definition find_request :: "string \<Rightarrow> ('x, store_error + request) act" where
  "find_request tx = attempt (on_store (request_by_transaction_id tx))"

fun required_signatures :: "action \<Rightarrow> ('x, nat) act" where
  "required_signatures (RevokeCertificate _ _ _) = ok QUORUM"
| "required_signatures (ApproveRequest tx _ _) =
     bindr (find_request tx) (\<lambda>found.
     case found of
       Inr r \<Rightarrow> if rq_profile r \<in> set TWO_PERSON_PROFILES then ok QUORUM else ok 1
     | Inl NotFound \<Rightarrow> ok 1
     | Inl e \<Rightarrow> fail (Effect (EffStore e)))"
| "required_signatures (InviteOperator _ role _) = ok (if role = Admin then QUORUM else 1)"
| "required_signatures (SetRole name role) =
     (if role = Admin then ok QUORUM
      else bindr (query (\<lambda>g. find (\<lambda>r. ow_name r = name) (rg_operators g))) (\<lambda>current.
           ok (if map_option ow_role current = Some (role_text Admin) then QUORUM else 1)))"
| "required_signatures _ = ok 1"

definition ensure_enough_holders :: "action \<Rightarrow> nat \<Rightarrow> ('x, unit) act" where
  "ensure_enough_holders action required =
     (let roles = map role_text (allowed_roles action) in
     bindr (query (\<lambda>g. holders g roles)) (\<lambda>n.
     ensure (\<not> n < required) (Denied (TooFewHolders required n (join '' ou '' roles)))))"

section \<open>Revoking a certificate\<close>

definition ALLOWED_REASONS :: "int list" where "ALLOWED_REASONS = [1, 3, 4, 5, 9]"

definition decode_serial :: "string \<Rightarrow> act_error + bytes" where
  "decode_serial serial =
     sbind (require (serial \<noteq> [] \<and> list_all (\<lambda>c. is_digit c \<or> 97 \<le> (of_char c :: nat) \<and> (of_char c :: nat) \<le> 102) serial
              \<and> length serial mod 2 = 0) (BadRequest SerialForm)) (\<lambda>_.
     ok_or (BadRequest SerialForm) (hex_decode serial))"

record service =
  sv_decider_recorder :: bool
  sv_issuer :: "issuer option"

definition check_revocation :: "service \<Rightarrow> action \<Rightarrow> ('x, unit) act" where
  "check_revocation S action = (case action of
     RevokeCertificate serial reason comment \<Rightarrow>
       bindr (ensure (sv_issuer S \<noteq> None) (Denied RevocationNotConfigured)) (\<lambda>_.
       bindr (ensure (reason \<in> set ALLOWED_REASONS) (BadRequest (ReasonNotAdmitted reason))) (\<lambda>_.
       bindr (ensure (trim comment \<noteq> []) (BadRequest RevocationComment)) (\<lambda>_.
       bindr (lift (decode_serial serial)) (\<lambda>bytes.
       bindr (attempt (on_store (get_certificate bytes))) (\<lambda>found.
       case found of
         Inl NotFound \<Rightarrow> fail (Denied CertificateUnknown)
       | Inl e \<Rightarrow> fail (Effect (EffStore e))
       | Inr cert \<Rightarrow> (case crt_status cert of
           Issued \<Rightarrow> ok ()
         | Revoked \<Rightarrow> fail (Denied CertificateRevoked)
         | Reserved \<Rightarrow> fail (Denied CertificateNeverIssued)))))))
   | _ \<Rightarrow> fail (BadRequest NotARevocation))"

definition revoke_certificate ::
    "act_deps \<Rightarrow> service \<Rightarrow> string \<Rightarrow> int \<Rightarrow> string \<Rightarrow> string \<Rightarrow> ('x, json) act" where
  "revoke_certificate A S serial reason operator comment =
     (let D = rd_deps (ad_ra A) in
     bindr (lift (ok_or (Effect EffNoRevoker) (sv_issuer S))) (\<lambda>I.
     bindr (lift (decode_serial serial)) (\<lambda>bytes.
     bindr (map_err (\<lambda>e. Effect (EffRevoker e))
              (revoke D I bytes reason operator comment WebAuthn)) (\<lambda>_.
     bindr (attempt (publish_crl D I)) (\<lambda>published.
     case published of
       Inr crl \<Rightarrow> ok (JObj [(''serial'', JStr serial), (''reason'', JNum reason),
         (''crl_number'', JNum (rl_number crl)), (''crl_published'', JBool True)])
     | Inl e \<Rightarrow>
         bindr (attempt (journal_append ''operators.crl_publication_failed'' (JObj
           [(''serie'', JStr serial), (''erreur'', JStr (ad_ca_wording A e))]))) (\<lambda>_.
         ok (JObj [(''serial'', JStr serial), (''reason'', JNum reason),
           (''crl_published'', JBool False)])))))))"

end
