(* ===== verification/Service.thy ===== *)
theory Service
  imports Actions
begin

text \<open>
  \<open>Service\<close> of \<open>crates/oe-actions/src/lib.rs\<close>: the controls on the current state, the
  challenge that freezes an action, the challenge of a further signatory, and the
  execution of the frozen body.
\<close>

section \<open>Controls on the current state\<close>

definition check_target :: "action \<Rightarrow> ('x, unit) act" where
  "check_target action = (case action_transaction_id action of
     None \<Rightarrow> ok ()
   | Some tx \<Rightarrow>
       bindr (find_request tx) (\<lambda>found.
       case found of
         Inl NotFound \<Rightarrow> fail (Denied RequestUnknown)
       | Inl e \<Rightarrow> fail (Effect (EffStore e))
       | Inr request \<Rightarrow>
           bindr (ensure (rq_state request = Pending)
                    (Denied (RequestNotPending (state_text (rq_state request))))) (\<lambda>_.
           bindr (case action of
               ApproveRequest _ (Some fp) _ \<Rightarrow>
                 ensure (fp = rq_csr_fingerprint request) (Denied CsrFingerprintDiffers)
             | ApproveRequest _ None _ \<Rightarrow>
                 ensure (rq_profile request \<notin> set FINGERPRINT_REQUIRED_PROFILES)
                   (BadRequest (CsrFingerprintRequired (rq_profile request)))
             | _ \<Rightarrow> ok ()) (\<lambda>_.
           case action of
             RejectRequest _ comment \<Rightarrow> ensure (trim comment \<noteq> []) (BadRequest RejectionReason)
           | _ \<Rightarrow> ok ()))))"

definition is_registry_action :: "action \<Rightarrow> bool" where
  "is_registry_action action = (case action of
     ApproveRequest _ _ _ \<Rightarrow> False | RejectRequest _ _ \<Rightarrow> False | RevokeCertificate _ _ _ \<Rightarrow> False
   | _ \<Rightarrow> True)"

definition check_action :: "act_deps \<Rightarrow> service \<Rightarrow> action \<Rightarrow> operator \<Rightarrow> nat \<Rightarrow> ('x, unit) act" where
  "check_action A S action actor required = (case action of
     ApproveRequest tx _ _ \<Rightarrow>
       bindr (check_target action) (\<lambda>_.
       bindr (find_request tx) (\<lambda>found.
       bindr (lift (or_else_err (\<lambda>e. Effect (EffStore e)) found)) (\<lambda>request.
       ensure (\<not> (rq_profile request = CA_ONLY_PROFILE \<and> op_role actor \<noteq> CaOperateur))
         (Denied CaOperatorOnly))))
   | RejectRequest _ _ \<Rightarrow> check_target action
   | RevokeCertificate _ _ _ \<Rightarrow> check_revocation S action
   | _ \<Rightarrow>
       bindr now_utc (\<lambda>now.
       bindr (run_registry_action A action actor now False required) (\<lambda>_. ok ())))"

definition may_sign :: "action \<Rightarrow> operator \<Rightarrow> bool" where
  "may_sign action actor \<longleftrightarrow> \<not> op_disabled actor \<and> op_role actor \<in> set (allowed_roles action)"

definition eligible_signer :: "uuid \<Rightarrow> action \<Rightarrow> ('x, operator) act" where
  "eligible_signer hint action =
     bindr (operator_by_id hint) (\<lambda>found.
     bindr (lift (ok_or (Denied OperatorUnknown) found)) (\<lambda>actor.
     bindr (ensure (may_sign action actor)
       (Denied (RoleCannotSign (role_text (op_role actor)) (action_kind action)))) (\<lambda>_.
     ok actor)))"

definition start_ceremony ::
    "act_deps \<Rightarrow> uuid \<Rightarrow> bytes \<Rightarrow> ('x, auth_options \<times> bytes \<times> bytes) act" where
  "start_ceremony A hint body_hash =
     bindr (active_keys A hint) (\<lambda>keys.
     bindr (ensure (keys \<noteq> []) (Denied NoActiveKey)) (\<lambda>_.
     bindr (fill_bytes 32) (\<lambda>random.
     lift (or_else_err Verification
       (start_bound_authentication (ad_webauthn A) (map ky_passkey keys) body_hash random)))))"

definition signatures_of :: "registry \<Rightarrow> uuid \<Rightarrow> evidence_row list" where
  "signatures_of g action_id = filter (\<lambda>e. ew_action e = action_id) (rg_evidence g)"

definition count_signatures :: "uuid \<Rightarrow> ('x, nat) act" where
  "count_signatures action_id = query (\<lambda>g. length (signatures_of g action_id))"

section \<open>Challenges\<close>

record issued =
  is_challenge_id :: uuid
  is_action_id :: uuid
  is_body :: json
  is_body_hash :: string
  is_required :: nat
  is_signatures :: nat
  is_options :: auth_options

definition j_member :: "json \<Rightarrow> string \<Rightarrow> json" where
  "j_member j k = (case j_get j k of None \<Rightarrow> JNull | Some v \<Rightarrow> v)"

definition remember_ceremony :: "uuid \<Rightarrow> bytes \<Rightarrow> ('x, unit) act" where
  "remember_ceremony challenge_id state = modify (\<lambda>w. w\<lparr>w_ceremonies :=
     bt_insert challenge_id state (w_ceremonies w)\<rparr>)"

definition issue_challenge :: "act_deps \<Rightarrow> service \<Rightarrow> action \<Rightarrow> uuid \<Rightarrow> ('x, issued) act" where
  "issue_challenge A S action hint =
     bindr ensure_open (\<lambda>_.
     bindr (eligible_signer hint action) (\<lambda>actor.
     bindr (required_signatures action) (\<lambda>required.
     bindr (if 1 < required then ensure_enough_holders action required else ok ()) (\<lambda>_.
     bindr (check_action A S action actor required) (\<lambda>_.
     bindr now_utc (\<lambda>now.
     let action_expires_at = now + (if 1 < required then QUORUM_WINDOW else CHALLENGE_TTL) in
     bindr (lift (ok_or (BadRequest (UnreadableBody ''expires_at''))
              (ad_rfc3339 A action_expires_at))) (\<lambda>expires_at.
     let canonical = wa_json_text (ad_webauthn A) (body_json action expires_at);
         body_digest = wa_sha256 (ad_webauthn A) (text_bytes canonical);
         body_hash = hex_encode body_digest in
     bindr (lift (or_else_err (\<lambda>e. BadRequest (UnreadableBody e)) (ad_json_parse A canonical))) (\<lambda>body.
     bindr (start_ceremony A hint body_digest) (\<lambda>(options, state, nonce).
     bindr (new_uuid A) (\<lambda>action_id.
     bindr (new_uuid A) (\<lambda>challenge_id.
     let challenge_expires_at = min (now + CHALLENGE_TTL) action_expires_at in
     bindr (journal ''operators.action_challenge_issued'' (JObj
       [(''action_id'', JStr action_id), (''challenge_id'', JStr challenge_id),
        (''action'', j_member body ''action''), (''body'', JStr canonical),
        (''body_hash'', JStr body_hash), (''signatures_exigees'', JNum (int required)),
        (''operator_hint'', JStr (op_name actor))])) (\<lambda>_.
     bindr (transaction (
       bindr (sql (insert_action \<lparr>aw_id = action_id, aw_body = body, aw_body_hash = body_digest,
         aw_created_at = now, aw_expires_at = action_expires_at, aw_executed_at = None,
         aw_required = required\<rparr>)) (\<lambda>_.
       bindr (sql (insert_challenge \<lparr>hw_id = challenge_id, hw_action = action_id,
         hw_challenge = ao_challenge options, hw_nonce = nonce, hw_hint = hint,
         hw_issued_at = now, hw_expires_at = challenge_expires_at, hw_consumed_at = None\<rparr>)) (\<lambda>_.
       ok (True, ()))))) (\<lambda>_.
     bindr (remember_ceremony challenge_id state) (\<lambda>_.
     ok \<lparr>is_challenge_id = challenge_id, is_action_id = action_id, is_body = body,
         is_body_hash = body_hash, is_required = required, is_signatures = 0,
         is_options = options\<rparr>))))))))))))))"

definition issue_challenge_for :: "act_deps \<Rightarrow> service \<Rightarrow> uuid \<Rightarrow> uuid \<Rightarrow> ('x, issued) act" where
  "issue_challenge_for A S action_id hint =
     bindr ensure_open (\<lambda>_.
     bindr now_utc (\<lambda>now.
     bindr (query (\<lambda>g. find (\<lambda>r. aw_id r = action_id) (rg_actions g))) (\<lambda>found.
     bindr (lift (ok_or ChallengeUnknown found)) (\<lambda>row.
     bindr (ensure (aw_executed_at row = None) AlreadyUsed) (\<lambda>_.
     bindr (ensure (\<not> aw_expires_at row < now) ChallengeExpired) (\<lambda>_.
     bindr (lift (read_body (aw_body row))) (\<lambda>(action, expires_at).
     bindr (eligible_signer hint action) (\<lambda>actor.
     bindr (query (\<lambda>g. list_ex (\<lambda>e. ew_operator e = op_id actor) (signatures_of g action_id))) (\<lambda>already.
     bindr (ensure (\<not> already) (Denied AlreadySigned)) (\<lambda>_.
     bindr (check_action A S action actor (aw_required row)) (\<lambda>_.
     bindr (start_ceremony A hint (aw_body_hash row)) (\<lambda>(options, state, nonce).
     bindr (new_uuid A) (\<lambda>challenge_id.
     bindr (journal ''operators.action_challenge_issued'' (JObj
       [(''action_id'', JStr action_id), (''challenge_id'', JStr challenge_id),
        (''action'', j_member (aw_body row) ''action''),
        (''body_hash'', JStr (hex_encode (aw_body_hash row))),
        (''signatures_exigees'', JNum (int (aw_required row))),
        (''operator_hint'', JStr (op_name actor))])) (\<lambda>_.
     bindr (sql (insert_challenge \<lparr>hw_id = challenge_id, hw_action = action_id,
       hw_challenge = ao_challenge options, hw_nonce = nonce, hw_hint = hint, hw_issued_at = now,
       hw_expires_at = min (now + CHALLENGE_TTL) (aw_expires_at row), hw_consumed_at = None\<rparr>)) (\<lambda>_.
     bindr (remember_ceremony challenge_id state) (\<lambda>_.
     bindr (count_signatures action_id) (\<lambda>n.
     ok \<lparr>is_challenge_id = challenge_id, is_action_id = action_id, is_body = aw_body row,
         is_body_hash = hex_encode (aw_body_hash row), is_required = aw_required row,
         is_signatures = n, is_options = options\<rparr>)))))))))))))))))"

section \<open>What the caller expects\<close>

record expect =
  ex_action :: string
  ex_transaction_id :: "string option"
  ex_serial :: "string option"
  ex_action_id :: "uuid option"
  ex_credential_id :: "string option"
  ex_operator :: "string option"

fun frozen_target :: "action \<Rightarrow> (string \<times> string) option" where
  "frozen_target (ApproveRequest tx _ _) = Some (''transaction_id'', tx)"
| "frozen_target (RejectRequest tx _) = Some (''transaction_id'', tx)"
| "frozen_target (RevokeCertificate serial _ _) = Some (''serial'', serial)"
| "frozen_target (ConfirmKey cid _) = Some (''credential_id'', cid)"
| "frozen_target (RevokeKey cid _) = Some (''credential_id'', cid)"
| "frozen_target (SetRole name _) = Some (''operator'', name)"
| "frozen_target (InviteOperator _ _ _) = None"

definition expect_targets :: "expect \<Rightarrow> (string \<times> string option) list" where
  "expect_targets x = [(''transaction_id'', ex_transaction_id x), (''serial'', ex_serial x),
     (''credential_id'', ex_credential_id x), (''operator'', ex_operator x)]"

definition expect_check :: "expect \<Rightarrow> action \<Rightarrow> uuid \<Rightarrow> act_error + unit" where
  "expect_check x action action_id =
     sbind (case ex_action_id x of
         Some e \<Rightarrow> require (e = action_id) (Mismatch (OtherAction e action_id))
       | None \<Rightarrow> Inr ()) (\<lambda>_.
     sbind (require (ex_action x = action_kind action)
              (Mismatch (OtherKind (ex_action x) (action_kind action)))) (\<lambda>_.
     sbind (require (\<not> list_ex (\<lambda>(name, value). value \<noteq> None
                \<and> map_option fst (frozen_target action) \<noteq> Some name) (expect_targets x))
              (BadRequest UnrelatedTarget)) (\<lambda>_.
     case frozen_target action of
       None \<Rightarrow> Inr ()
     | Some (field, frozen) \<Rightarrow>
         (case find (\<lambda>(name, value). name = field) (expect_targets x) of
            Some (name, Some expected) \<Rightarrow>
              require (expected = frozen) (Mismatch (OtherTarget expected frozen))
          | _ \<Rightarrow> Inl (BadRequest TargetMissing)))))"

section \<open>Executing\<close>

record executed =
  xe_action_id :: uuid
  xe_challenge_id :: uuid
  xe_operator :: string
  xe_role :: role
  xe_result :: "json option"
  xe_executed :: bool
  xe_signatures :: nat
  xe_required :: nat

definition challenge_join :: "registry \<Rightarrow> uuid \<Rightarrow> (challenge_row \<times> action_row) option" where
  "challenge_join g challenge_id =
     (case find (\<lambda>c. hw_id c = challenge_id) (rg_challenges g) of
        None \<Rightarrow> None
      | Some c \<Rightarrow> (case find (\<lambda>a. aw_id a = hw_action c) (rg_actions g) of
          None \<Rightarrow> None | Some a \<Rightarrow> Some (c, a)))"

definition take_ceremony :: "uuid \<Rightarrow> ('x, bytes) act" where
  "take_ceremony challenge_id =
     bindr (gets (\<lambda>w. bt_get (w_ceremonies w) challenge_id)) (\<lambda>found.
     bindr (modify (\<lambda>w. w\<lparr>w_ceremonies :=
       filter (\<lambda>(k, p). k \<noteq> challenge_id) (w_ceremonies w)\<rparr>)) (\<lambda>_.
     lift (ok_or StateLost found)))"

text \<open>The signatories of an action, in the order of their signatures, with the state of
  their account and of their key now.\<close>

definition signers :: "registry \<Rightarrow> uuid \<Rightarrow> (operator_row \<times> credential_row) list" where
  "signers g action_id = List.map_filter (\<lambda>e.
     case (find (\<lambda>r. ow_id r = ew_operator e) (rg_operators g),
           find (\<lambda>c. kw_id c = ew_credential e) (rg_credentials g)) of
       (Some r, Some c) \<Rightarrow> Some (r, c) | _ \<Rightarrow> None)
     (sort_key ew_verified_at (sort_key (\<lambda>e. case find (\<lambda>r. ow_id r = ew_operator e) (rg_operators g) of
        None \<Rightarrow> [] | Some r \<Rightarrow> ow_name r) (signatures_of g action_id)))"

definition still_entitled :: "action \<Rightarrow> operator_row \<times> credential_row \<Rightarrow> bool" where
  "still_entitled action s = (case s of (r, c) \<Rightarrow>
     ow_disabled_at r = None \<and> kw_revoked_at c = None
     \<and> ow_role r \<in> set (map role_text (allowed_roles action)))"

text \<open>\<open>UPDATE\<close> of one row: the number of rows affected is asked for before the change.\<close>

definition consume_challenge :: "uuid \<Rightarrow> instant \<Rightarrow> ('x, unit) act" where
  "consume_challenge challenge_id now =
     (let due = (\<lambda>r. hw_id r = challenge_id \<and> hw_consumed_at r = None) in
     bindr (query (\<lambda>g. length (filter due (rg_challenges g)))) (\<lambda>affected.
     bindr (sql (modify (\<lambda>g. g\<lparr>rg_challenges :=
       update_where due (\<lambda>r. r\<lparr>hw_consumed_at := Some now\<rparr>) (rg_challenges g)\<rparr>))) (\<lambda>_.
     ensure (affected = 1) AlreadyUsed)))"

definition mark_executed :: "uuid \<Rightarrow> instant \<Rightarrow> ('x, unit) act" where
  "mark_executed action_id now =
     (let due = (\<lambda>r. aw_id r = action_id \<and> aw_executed_at r = None) in
     bindr (query (\<lambda>g. length (filter due (rg_actions g)))) (\<lambda>affected.
     bindr (sql (modify (\<lambda>g. g\<lparr>rg_actions :=
       update_where due (\<lambda>r. r\<lparr>aw_executed_at := Some now\<rparr>) (rg_actions g)\<rparr>))) (\<lambda>_.
     ensure (affected = 1) AlreadyUsed)))"

definition add_evidence ::
    "act_deps \<Rightarrow> uuid \<Rightarrow> uuid \<Rightarrow> operator \<Rightarrow> key \<Rightarrow> assertion \<Rightarrow> instant \<Rightarrow> ('x, unit) act" where
  "add_evidence A challenge_id action_id actor k assertion now =
     bindr (new_uuid A) (\<lambda>i.
     bindr (attempt (sql (insert_evidence \<lparr>ew_id = i, ew_challenge = challenge_id, ew_action = action_id,
       ew_operator = op_id actor, ew_credential = ky_id k,
       ew_authenticator_data = as_authenticator_data assertion,
       ew_client_data = as_client_data assertion, ew_signature = as_signature assertion,
       ew_verified_at = now\<rparr>))) (\<lambda>stored.
     case stored of
       Inr _ \<Rightarrow> ok ()
     | Inl e \<Rightarrow> if is_unique_violation e then fail (Denied AlreadySigned) else fail e))"

text \<open>The transaction that takes the signature: the names of the signatories when their
  number is reached, nothing otherwise.\<close>

definition take_signature ::
    "act_deps \<Rightarrow> challenge_row \<Rightarrow> action_row \<Rightarrow> action \<Rightarrow> operator \<Rightarrow> key \<Rightarrow> nat \<Rightarrow> assertion
       \<Rightarrow> instant \<Rightarrow> ('x, nat \<times> string list option) act" where
  "take_signature A c a action actor k counter assertion now = transaction (
     bindr (query (\<lambda>g. find (\<lambda>r. aw_id r = aw_id a) (rg_actions g))) (\<lambda>found.
     bindr (lift (ok_or (Db RowNotFound) found)) (\<lambda>locked.
     bindr (ensure (aw_executed_at locked = None) AlreadyUsed) (\<lambda>_.
     bindr (consume_challenge (hw_id c) now) (\<lambda>_.
     bindr (sql (modify (\<lambda>g. g\<lparr>rg_credentials := update_where (\<lambda>r. kw_id r = ky_id k)
       (\<lambda>r. r\<lparr>kw_sign_count := int counter, kw_last_used_at := Some now\<rparr>) (rg_credentials g)\<rparr>))) (\<lambda>_.
     bindr (add_evidence A (hw_id c) (aw_id a) actor k assertion now) (\<lambda>_.
     bindr (query (\<lambda>g. signers g (aw_id a))) (\<lambda>ss.
     let signatures = length ss in
     if signatures < aw_required a then
       bindr (journal ''operators.action_signed'' (JObj
         [(''action_id'', JStr (aw_id a)), (''challenge_id'', JStr (hw_id c)),
          (''action'', JStr (action_kind action)),
          (''body_hash'', JStr (hex_encode (aw_body_hash a))),
          (''operateur'', JStr (op_name actor)), (''role'', JStr (role_text (op_role actor))),
          (''credential_id'', JStr (ky_id k)), (''signatures'', JNum (int signatures)),
          (''signatures_exigees'', JNum (int (aw_required a)))])) (\<lambda>_.
       ok (True, (signatures, None)))
     else
       bindr (case find (\<lambda>s. \<not> still_entitled action s) ss of
           Some s \<Rightarrow> fail (Denied (SignerNoLongerEntitled (ow_name (fst s))))
         | None \<Rightarrow> ok ()) (\<lambda>_.
       bindr (mark_executed (aw_id a) now) (\<lambda>_.
       ok (True, (signatures, Some (map (\<lambda>s. ow_name (fst s)) ss)))))))))))))"

fun apply_effect ::
    "act_deps \<Rightarrow> service \<Rightarrow> action \<Rightarrow> operator \<Rightarrow> string list \<Rightarrow> instant \<Rightarrow> nat \<Rightarrow> ('x, json option) act" where
  "apply_effect A S (ApproveRequest tx _ comment) actor names now required =
     bindr (map_err (\<lambda>e. Effect (EffRaflow e))
       (approve (sv_decider_recorder S) tx (join '', '' names) comment WebAuthn)) (\<lambda>_. ok None)"
| "apply_effect A S (RejectRequest tx comment) actor names now required =
     bindr (map_err (\<lambda>e. Effect (EffRaflow e))
       (reject (sv_decider_recorder S) tx (op_name actor) comment WebAuthn)) (\<lambda>_. ok None)"
| "apply_effect A S (RevokeCertificate serial reason comment) actor names now required =
     bindr (revoke_certificate A S serial reason (join '', '' names) comment) (\<lambda>result.
     ok (Some result))"
| "apply_effect A S act actor names now required =
     bindr (run_registry_action A act actor now True required) (\<lambda>result.
     ok (Some result))"

text \<open>The journal before the effect; a signature that is not the last one ends here.\<close>

definition conclude ::
    "act_deps \<Rightarrow> service \<Rightarrow> challenge_row \<Rightarrow> action_row \<Rightarrow> action \<Rightarrow> operator \<Rightarrow> key \<Rightarrow> instant
       \<Rightarrow> nat \<Rightarrow> string list option \<Rightarrow> ('x, executed) act" where
  "conclude A S c a action actor k now signatures names =
     (let answer = (\<lambda>result executed. \<lparr>xe_action_id = aw_id a, xe_challenge_id = hw_id c,
       xe_operator = op_name actor, xe_role = op_role actor, xe_result = result,
       xe_executed = executed, xe_signatures = signatures, xe_required = aw_required a\<rparr>) in
     case names of
       None \<Rightarrow> ok (answer None False)
     | Some ns \<Rightarrow>
         bindr (journal ''operators.action_executed'' (JObj
           [(''action_id'', JStr (aw_id a)), (''challenge_id'', JStr (hw_id c)),
            (''action'', JStr (action_kind action)),
            (''body_hash'', JStr (hex_encode (aw_body_hash a))),
            (''operateur'', JStr (op_name actor)), (''role'', JStr (role_text (op_role actor))),
            (''credential_id'', JStr (ky_id k)), (''signataires'', JArr (map JStr ns))])) (\<lambda>_.
         bindr (apply_effect A S action actor ns now (aw_required a)) (\<lambda>result.
         ok (answer result True))))"

definition execute_inner ::
    "act_deps \<Rightarrow> service \<Rightarrow> uuid \<Rightarrow> assertion \<Rightarrow> expect option \<Rightarrow> ('x, executed) act" where
  "execute_inner A S challenge_id assertion expected =
     bindr ensure_open (\<lambda>_.
     bindr now_utc (\<lambda>now.
     bindr (query (\<lambda>g. challenge_join g challenge_id)) (\<lambda>found.
     bindr (lift (ok_or ChallengeUnknown found)) (\<lambda>(c, a).
     bindr (ensure (\<not> (hw_consumed_at c \<noteq> None \<or> aw_executed_at a \<noteq> None)) AlreadyUsed) (\<lambda>_.
     bindr (ensure (\<not> (hw_expires_at c < now \<or> aw_expires_at a < now)) ChallengeExpired) (\<lambda>_.
     bindr (lift (read_body (aw_body a))) (\<lambda>(action, expires_at).
     bindr (lift (case expected of
         Some x \<Rightarrow> expect_check x action (aw_id a) | None \<Rightarrow> Inr ())) (\<lambda>_.
     bindr (take_ceremony challenge_id) (\<lambda>state.
     bindr (key_by_id A (credential_id (as_raw_id assertion))) (\<lambda>known.
     bindr (lift (ok_or (Denied KeyNotInRegistry) known)) (\<lambda>k.
     bindr (ensure (\<not> ky_revoked k) (Denied KeyRevoked)) (\<lambda>_.
     bindr (operator_by_id (ky_operator k)) (\<lambda>owner.
     bindr (lift (ok_or (Denied OperatorUnknown) owner)) (\<lambda>actor.
     bindr (ensure (may_sign action actor)
       (Denied (RoleCannotSign (role_text (op_role actor)) (action_kind action)))) (\<lambda>_.
     bindr (lift (or_else_err Verification (finish_authentication (ad_webauthn A) assertion state
       (ky_sign_count k)))) (\<lambda>(cred, counter).
     bindr (check_action A S action actor (aw_required a)) (\<lambda>_.
     bindr (take_signature A c a action actor k counter assertion now) (\<lambda>(signatures, names).
     conclude A S c a action actor k now signatures names))))))))))))))))))"

definition execute :: "act_deps \<Rightarrow> service \<Rightarrow> uuid \<Rightarrow> assertion \<Rightarrow> ('x, executed) act" where
  "execute A S challenge_id assertion = execute_inner A S challenge_id assertion None"

definition execute_expecting ::
    "act_deps \<Rightarrow> service \<Rightarrow> uuid \<Rightarrow> assertion \<Rightarrow> expect \<Rightarrow> ('x, executed) act" where
  "execute_expecting A S challenge_id assertion x = execute_inner A S challenge_id assertion (Some x)"

end
