(* ===== verification/Service_Rules.thy ===== *)
theory Service_Rules
  imports Service
begin

text \<open>
  How the steps of the service of signed actions run: the rules with which the
  properties of \<open>Service_Spec\<close> and \<open>Replay_Spec\<close> are proved.
\<close>

section \<open>Statements of the database\<close>

lemma runs_sql [run]:
  "runs (sql m) Q E w \<longleftrightarrow> runs m (\<lambda>x g. Q x (w\<lparr>w_registry := g\<rparr>))
     (\<lambda>e g. E (Db e) (w\<lparr>w_registry := g\<rparr>)) (w_registry w)"
  by (simp add: runs_def sql_def split: prod.splits sum.splits)

lemma runs_query [run]: "runs (query f) Q E w \<longleftrightarrow> Q (f (w_registry w)) w"
  by (simp add: query_def run)

lemma runs_transaction [run]:
  "runs (transaction m) Q E w \<longleftrightarrow>
     runs m (\<lambda>(commit, x) v. Q x (if commit then v else v\<lparr>w_registry := w_registry w\<rparr>))
       (\<lambda>e v. E e (v\<lparr>w_registry := w_registry w\<rparr>)) w"
  by (simp add: runs_def transaction_def split: prod.splits sum.splits)

lemma runs_journal [run]:
  "runs (journal event data) Q E w \<longleftrightarrow>
     runs (journal_append event data) Q (\<lambda>e. E (JournalUnavailable e)) w"
  by (simp add: journal_def run)

lemma runs_new_uuid [run]:
  "runs (new_uuid A) Q E w \<longleftrightarrow> runs (fill_bytes 16) (\<lambda>raw. Q (ad_uuid A raw)) E w"
  by (simp add: new_uuid_def run)

lemma runs_ensure_open [run]:
  "runs ensure_open Q E w \<longleftrightarrow> (case w_guard w of Some reasons \<Rightarrow> E (Blocked reasons) w | None \<Rightarrow> Q () w)"
  by (simp add: ensure_open_def run split: option.split)

lemma runs_insert_operator [run]:
  "runs (insert_operator row) Q E g \<longleftrightarrow>
     (if \<exists>r \<in> set (rg_operators g). ow_id r = ow_id row then E (UniqueViolation ''operators_pkey'') g
      else if \<exists>r \<in> set (rg_operators g). ow_name r = ow_name row
        then E (UniqueViolation ''operators_name_key'') g
      else if role_parse (ow_role row) = None then E (CheckViolation ''operators_role_check'') g
      else Q () (g\<lparr>rg_operators := rg_operators g @ [row]\<rparr>))"
  by (auto simp: insert_operator_def run list_ex_iff)

lemma find_update_where:
  assumes "\<And>r. k (f r) = k r"
  shows "find (\<lambda>r. k r = i) (update_where p f rows)
    = map_option (\<lambda>r. if p r then f r else r) (find (\<lambda>r. k r = i) rows)"
  by (induction rows) (auto simp: update_where_def assms)

lemma find_append:
  "find p (xs @ ys) = (case find p xs of None \<Rightarrow> find p ys | Some x \<Rightarrow> Some x)"
  by (induction xs) auto

lemma set_update_where: "set (update_where p f rows) = (\<lambda>r. if p r then f r else r) ` set rows"
  by (simp add: update_where_def)

section \<open>What leaves the registry alone\<close>

definition on_registry :: "(registry \<Rightarrow> bool) \<Rightarrow> 'x oa_world_scheme \<Rightarrow> bool" where
  "on_registry P w \<longleftrightarrow> P (w_registry w)"

lemma on_registryD: "keeps (on_registry P) m \<Longrightarrow> P (w_registry w) \<Longrightarrow> P (w_registry (snd (m w)))"
  by (simp add: keeps_def on_registry_def)

lemma keeps_on_registry_world [pres]:
  fixes P :: "registry \<Rightarrow> bool"
  shows "keeps (on_registry P) now_utc" "keeps (on_registry P) (fill_bytes n)"
    "keeps (on_registry P) (journal_append ev data)" "keeps (on_registry P) (record_event b ev data)"
    "keeps (on_registry P) (ra_record b ev data)" "keeps (on_registry P) (on_store m)"
    "keeps (on_registry P) (query f)" "keeps (on_registry P) (new_uuid A)"
    "keeps (on_registry P) (journal ev data)" "keeps (on_registry P) ensure_open"
  by (simp_all add: keeps_runs run on_registry_def split: option.split)
    (simp add: runs_def split: prod.split sum.split)

lemma keeps_on_registry_sql [pres]: "keeps P m \<Longrightarrow> keeps (on_registry P) (sql m)"
  by (auto simp: keeps_runs run on_registry_def)

lemma keeps_on_registry_transaction [pres]:
  "keeps (on_registry P) m \<Longrightarrow> keeps (on_registry P) (transaction m)"
proof (unfold keeps_runs runs_transaction, intro allI impI)
  fix w :: "'a oa_world_scheme"
  assume m: "\<forall>w. on_registry P w \<longrightarrow> runs m (\<lambda>_. on_registry P) (\<lambda>_. on_registry P) w"
    and w: "on_registry P w"
  then have "runs m (\<lambda>_. on_registry P) (\<lambda>_. on_registry P) w" by blast
  then show "runs m (\<lambda>(commit, x) v. on_registry P (if commit then v else v\<lparr>w_registry := w_registry w\<rparr>))
      (\<lambda>e v. on_registry P (v\<lparr>w_registry := w_registry w\<rparr>)) w"
    by (rule runs_mono) (use w in \<open>auto simp: on_registry_def\<close>)
qed

section \<open>The constraints hold\<close>

text \<open>What the keys and the UNIQUE constraints of the tables maintain.\<close>

definition reg_ok :: "registry \<Rightarrow> bool" where
  "reg_ok g \<longleftrightarrow> distinct (map ow_id (rg_operators g)) \<and> distinct (map ow_name (rg_operators g))
     \<and> distinct (map kw_id (rg_credentials g)) \<and> distinct (map aw_id (rg_actions g))
     \<and> distinct (map hw_id (rg_challenges g))
     \<and> distinct (map (\<lambda>e. (ew_action e, ew_operator e)) (rg_evidence g))
     \<and> list_all (\<lambda>c. has_operator g (kw_operator c)) (rg_credentials g)
     \<and> list_all (\<lambda>e. has_operator g (ew_operator e)
          \<and> list_ex (\<lambda>c. kw_id c = ew_credential e) (rg_credentials g)) (rg_evidence g)"

lemma reg_ok_new [simp]: "reg_ok registry_new"
  by (simp add: reg_ok_def registry_new_def)

lemma map_update_where: "(\<And>r. k (f r) = k r) \<Longrightarrow> map k (update_where p f rows) = map k rows"
  by (simp add: update_where_def)

lemma list_ex_update_where:
  "(\<And>r. q (f r) = q r) \<Longrightarrow> list_ex q (update_where p f rows) = list_ex q rows"
  by (induction rows) (simp_all add: update_where_def)

lemma list_all_update_where:
  "(\<And>r. q (f r) = q r) \<Longrightarrow> list_all q (update_where p f rows) = list_all q rows"
  by (induction rows) (simp_all add: update_where_def)

lemmas update_keys = map_update_where list_ex_update_where list_all_update_where

lemma keeps_reg_ok_inserts [pres]:
  "keeps reg_ok (insert_operator o')" "keeps reg_ok (insert_credential_row c)"
  "keeps reg_ok (insert_invite i)" "keeps reg_ok (insert_pending p)"
  "keeps reg_ok (insert_action a)" "keeps reg_ok (insert_challenge h)"
  "keeps reg_ok (insert_evidence e)"
proof -
  show "keeps reg_ok (insert_operator o')"
    by (auto simp: keeps_runs insert_operator_def run reg_ok_def has_operator_def list_ex_iff list_all_iff)
  show "keeps reg_ok (insert_credential_row c)"
    by (auto simp: keeps_runs insert_credential_row_def run reg_ok_def has_operator_def list_ex_iff list_all_iff)
  show "keeps reg_ok (insert_evidence e)"
    by (auto simp: keeps_runs insert_evidence_def run reg_ok_def has_operator_def list_ex_iff list_all_iff)
qed (auto simp: keeps_runs insert_invite_def insert_pending_def insert_action_def
    insert_challenge_def run reg_ok_def has_operator_def list_ex_iff list_all_iff)

lemma keeps_reg_ok_updates [pres]:
  "keeps reg_ok (modify (\<lambda>g. g\<lparr>rg_invites := f g\<rparr>))"
  "keeps reg_ok (modify (\<lambda>g. g\<lparr>rg_pending := f' g\<rparr>))"
  "(\<And>r. ow_id (u r) = ow_id r \<and> ow_name (u r) = ow_name r) \<Longrightarrow>
     keeps reg_ok (modify (\<lambda>g. g\<lparr>rg_operators := update_where p u (rg_operators g)\<rparr>))"
  "(\<And>r. kw_id (v r) = kw_id r \<and> kw_operator (v r) = kw_operator r) \<Longrightarrow>
     keeps reg_ok (modify (\<lambda>g. g\<lparr>rg_credentials := update_where q v (rg_credentials g)\<rparr>))"
  "(\<And>r. aw_id (x r) = aw_id r) \<Longrightarrow>
     keeps reg_ok (modify (\<lambda>g. g\<lparr>rg_actions := update_where s x (rg_actions g)\<rparr>))"
  "(\<And>r. hw_id (y r) = hw_id r) \<Longrightarrow>
     keeps reg_ok (modify (\<lambda>g. g\<lparr>rg_challenges := update_where t y (rg_challenges g)\<rparr>))"
  by (simp_all add: keeps_runs run reg_ok_def has_operator_def update_keys)

end
