(* ===== verification/Service_Steps.thy ===== *)
theory Service_Steps
  imports Service_Rules
begin

text \<open>
  Everything that can happen to the register of operators, as one step relation, and the
  predicates of the register that every statement keeps, and so every step.
\<close>

section \<open>The authorities leave the register of operators alone\<close>

lemma keeps_on_registry_more [pres]:
  "keeps (on_registry P) (journal_if b ev data)" "keeps (on_registry P) (store_call m)"
  "keeps (on_registry P) (ra_store m)" "keeps (on_registry P) (gets h)"
  unfolding journal_if_def store_call_def ra_store_def by (auto intro!: pres)

lemma keeps_on_registry_attempts [pres]: "keeps (on_registry P) (reserve_attempts D n p)"
proof (induction n)
  case (Suc n)
  then show ?case by (auto intro!: pres split: store_error.split)
qed (auto intro: pres)

lemma keeps_on_registry_issuer [pres]:
  "keeps (on_registry P) (issue D wording I csr cn p tx)"
  "keeps (on_registry P) (revoke D I sn r oper com v)"
  "keeps (on_registry P) (publish_crl D I)"
  by (auto simp: issue_def revoke_def publish_crl_def Let_def ensure_not_revoked_def
      reserve_new_serial_def intro!: pres)

lemma keeps_on_registry_owner [pres]: "keeps (on_registry P) (owner_of c)"
  unfolding owner_of_def by (auto intro!: pres split: store_error.split)

lemma keeps_on_registry_submit [pres]:
  "keeps (on_registry P) (submit H F csr p sig)" "keeps (on_registry P) (submit_mtls H F csr p cn)"
  unfolding submit_def submit_mtls_def submit_as_def open_request_def resume_def issue_request_def
    supersede_def issued_certificate_def ensure_bootstrap_unused_def Let_def
  by (auto intro!: pres split: store_error.split request_state.split prod.split)

lemma keeps_on_registry_decide [pres]: "keeps (on_registry P) (decide b tx oper com via target)"
  unfolding decide_def decide_read_def decide_write_def Let_def
  by (auto intro!: pres split: store_error.split)

lemma keeps_on_registry_decisions [pres]:
  "keeps (on_registry P) (approve b tx oper com via)" "keeps (on_registry P) (reject b tx oper com via)"
  by (auto simp: approve_def reject_def intro!: pres)

lemma keeps_on_registry_certificate [pres]: "keeps (on_registry P) (revoke_certificate A S serial reason oper com)"
  unfolding revoke_certificate_def Let_def by (auto intro!: pres split: sum.split)

section \<open>Everything that can happen to the register of operators\<close>

inductive oa_step :: "act_deps \<Rightarrow> service \<Rightarrow> flow \<Rightarrow> oa_world \<Rightarrow> oa_world \<Rightarrow> bool" for A S F where
  oa_bootstrap: "oa_step A S F w (snd (bootstrap_admin A name ttl now w))"
| oa_recover: "oa_step A S F w (snd (recover_admin A name why ttl now w))"
| oa_begin: "oa_step A S F w (snd (begin_registration A token w))"
| oa_finish: "oa_step A S F w (snd (finish_registration A ceremony att w))"
| oa_issue: "oa_step A S F w (snd (issue_challenge A S act hint w))"
| oa_issue_for: "oa_step A S F w (snd (issue_challenge_for A S i hint w))"
| oa_execute: "oa_step A S F w (snd (execute A S challenge assertion w))"
| oa_execute_expecting: "oa_step A S F w (snd (execute_expecting A S challenge assertion x w))"
| oa_block: "oa_step A S F w (snd (guard_block reasons w :: (act_error + unit) \<times> oa_world))"
| oa_open: "oa_step A S F w (snd (guard_open w :: (act_error + unit) \<times> oa_world))"
| oa_authority: "ra_step (ad_ra A) F w l v \<Longrightarrow> oa_step A S F w v"

abbreviation oa_steps :: "act_deps \<Rightarrow> service \<Rightarrow> flow \<Rightarrow> oa_world \<Rightarrow> oa_world \<Rightarrow> bool" where
  "oa_steps A S F \<equiv> (oa_step A S F)\<^sup>*\<^sup>*"


lemma registry_left:
  "keeps (on_registry (\<lambda>g. g = w_registry w)) m \<Longrightarrow> w_registry (snd (m w)) = w_registry w"
  by (simp add: keeps_def on_registry_def)

lemma ra_step_registry: "ra_step H F w l v \<Longrightarrow> w_registry v = w_registry w"
  by (cases rule: ra_step.cases)
    (auto intro!: registry_left keeps_on_registry_submit keeps_on_registry_decisions keeps_on_registry_issuer)

lemma keeps_on_registry_memory [pres]:
  "keeps (on_registry P) (modify (\<lambda>w. w\<lparr>w_ceremonies := f w\<rparr>))"
  "keeps (on_registry P) (modify (\<lambda>w. w\<lparr>w_registrations := f' w\<rparr>))"
  "keeps (on_registry P) (modify (\<lambda>w. w\<lparr>w_guard := f'' w\<rparr>))"
  by (simp_all add: keeps_runs run on_registry_def)

section \<open>What every statement keeps\<close>

text \<open>The statements of the service, as it sends them to the database.\<close>

locale registry_invariant =
  fixes P :: "registry \<Rightarrow> bool"
  assumes inserts: "keeps P (insert_operator o')" "keeps P (insert_credential_row k)"
      "keeps P (insert_invite i)" "keeps P (insert_pending p)" "keeps P (insert_action a)"
      "keeps P (insert_challenge h)" "keeps P (insert_evidence e)"
    and invites: "keeps P (modify (\<lambda>g. g\<lparr>rg_invites := update_where q (\<lambda>r. r\<lparr>iw_expires_at := t\<rparr>) (rg_invites g)\<rparr>) :: unit sql)"
      "keeps P (modify (\<lambda>g. g\<lparr>rg_invites := update_where q (\<lambda>r. r\<lparr>iw_consumed_at := u\<rparr>) (rg_invites g)\<rparr>) :: unit sql)"
    and pending: "keeps P (modify (\<lambda>g. g\<lparr>rg_pending := filter f (rg_pending g)\<rparr>) :: unit sql)"
    and operators: "keeps P (modify (\<lambda>g. g\<lparr>rg_operators :=
      update_where q1 (\<lambda>r. r\<lparr>ow_role := role\<rparr>) (rg_operators g)\<rparr>) :: unit sql)"
    and keys: "keeps P (modify (\<lambda>g. g\<lparr>rg_credentials := update_where q2
        (\<lambda>r. r\<lparr>kw_revoked_at := Some t, kw_revoked_by := b, kw_revoked_reason := m\<rparr>) (rg_credentials g)\<rparr>) :: unit sql)"
      "keeps P (modify (\<lambda>g. g\<lparr>rg_credentials := update_where q2
        (\<lambda>r. r\<lparr>kw_sign_count := n, kw_last_used_at := u\<rparr>) (rg_credentials g)\<rparr>) :: unit sql)"
    and actions: "keeps P (modify (\<lambda>g. g\<lparr>rg_actions := update_where q3
        (\<lambda>r. r\<lparr>aw_executed_at := Some t\<rparr>) (rg_actions g)\<rparr>) :: unit sql)"
    and challenges: "keeps P (modify (\<lambda>g. g\<lparr>rg_challenges := update_where q4
        (\<lambda>r. r\<lparr>hw_consumed_at := Some t\<rparr>) (rg_challenges g)\<rparr>) :: unit sql)"
begin

lemmas statements = inserts invites pending operators keys actions challenges

lemma keeps_registry_action: "keeps (on_registry P) (run_registry_action A act actor now b n)"
proof -
  have "keeps (on_registry P) (registry_action A act actor now b n)"
    by (cases act)
      (auto simp: invite_operator_def confirm_key_def revoke_key_def set_role_def add_operator_def
        new_invite_def new_token_def insert_credential_def Let_def intro!: pres statements split: prod.split)
  then show ?thesis
    unfolding run_registry_action_def by (auto intro!: pres)
qed

lemma keeps_onboarding:
  "keeps (on_registry P) (bootstrap_admin A name ttl now)"
  "keeps (on_registry P) (recover_admin A name why ttl now)"
  unfolding bootstrap_admin_def recover_admin_def claim_admin_def expire_invites_def new_invite_def
    new_token_def Let_def
  by (auto intro!: pres statements)

lemma keeps_registration:
  "keeps (on_registry P) (begin_registration A token)"
  "keeps (on_registry P) (finish_registration A c att)"
  unfolding begin_registration_def finish_registration_def take_registration_def live_invite_def
    active_keys_def consume_invite_def store_key_def insert_credential_def Let_def
  by (auto intro!: pres statements split: prod.split)

lemma keeps_controls:
  "keeps (on_registry P) (eligible_signer i act)" "keeps (on_registry P) (required_signatures act)"
  "keeps (on_registry P) (ensure_enough_holders act n)" "keeps (on_registry P) (start_ceremony A i hash)"
  "keeps (on_registry P) (check_target act)" "keeps (on_registry P) (check_revocation S act)"
  "keeps (on_registry P) (key_by_id A cid)"
  unfolding eligible_signer_def operator_by_id_def ensure_enough_holders_def start_ceremony_def
    active_keys_def check_target_def check_revocation_def key_by_id_def Let_def
  by (cases act; auto intro!: pres simp: find_request_def
      split: store_error.split option.split action.split certificate_status.split sum.split)+

lemma keeps_check_action: "keeps (on_registry P) (check_action A S act actor n)"
  by (cases act) (auto simp: check_action_def find_request_def intro!: pres keeps_controls keeps_registry_action)

lemma keeps_challenges:
  "keeps (on_registry P) (issue_challenge A S act hint)"
  "keeps (on_registry P) (issue_challenge_for A S n hint)"
  unfolding issue_challenge_def issue_challenge_for_def remember_ceremony_def count_signatures_def Let_def
  by (auto intro!: pres statements keeps_controls keeps_check_action split: prod.split)

lemma keeps_signature: "keeps (on_registry P) (take_signature A c a act actor k counter assertion now)"
  unfolding take_signature_def consume_challenge_def mark_executed_def add_evidence_def Let_def
  by (auto intro!: pres statements split: prod.split option.split)

lemma keeps_conclude: "keeps (on_registry P) (conclude A S c a act actor k now n names)"
  by (cases act) (auto simp: conclude_def Let_def intro!: pres keeps_registry_action)

lemma keeps_execute: "keeps (on_registry P) (execute_inner A S i assertion x)"
  unfolding execute_inner_def take_ceremony_def operator_by_id_def
  by (auto intro!: pres keeps_controls keeps_check_action keeps_signature keeps_conclude split: prod.split)

lemma kept: "keeps (on_registry P) m \<Longrightarrow> P (w_registry w) \<Longrightarrow> P (w_registry (snd (m w)))"
  by (rule on_registryD)

lemma step: "oa_step A S F w v \<Longrightarrow> P (w_registry w) \<Longrightarrow> P (w_registry v)"
  by (cases rule: oa_step.cases)
    (auto simp: execute_def execute_expecting_def guard_block_def guard_open_def modify_def
    dest: ra_step_registry intro!: kept intro: keeps_onboarding keeps_registration keeps_challenges keeps_execute)

lemma steps: "oa_steps A S F w v \<Longrightarrow> P (w_registry w) \<Longrightarrow> P (w_registry v)"
  by (induction rule: rtranclp_induct) (auto intro: step)

end

interpretation constraints: registry_invariant reg_ok
  by unfold_locales (simp_all add: pres)

end
