(* ===== verification/Service_Spec.thy ===== *)
theory Service_Spec
  imports Service_Steps "HOL-Library.Multiset"
begin

text \<open>
  The signed actions: who must have signed before an action takes effect, how often it can, what
  a closed guard stops, and that the control before signing and the execution are one path.
\<close>

section \<open>The signatures of an action\<close>

lemma findD: "find p xs = Some x \<Longrightarrow> x \<in> set xs \<and> p x"
  by (auto simp: find_Some_iff)

lemma signatures_append:
  "signatures_of (g\<lparr>rg_evidence := rg_evidence g @ [e]\<rparr>) i
    = signatures_of g i @ (if ew_action e = i then [e] else [])"
  by (simp add: signatures_of_def)

definition signer_of :: "registry \<Rightarrow> evidence_row \<Rightarrow> (operator_row \<times> credential_row) option" where
  "signer_of g e =
     (case (find (\<lambda>r. ow_id r = ew_operator e) (rg_operators g),
            find (\<lambda>c. kw_id c = ew_credential e) (rg_credentials g)) of
       (Some r, Some c) \<Rightarrow> Some (r, c) | _ \<Rightarrow> None)"

lemma signer_of_reg_ok:
  assumes "reg_ok g" and "e \<in> set (rg_evidence g)"
  shows "\<exists>r c. signer_of g e = Some (r, c) \<and> r \<in> set (rg_operators g) \<and> ow_id r = ew_operator e
     \<and> c \<in> set (rg_credentials g) \<and> kw_id c = ew_credential e"
proof -
  from assms have "\<exists>r \<in> set (rg_operators g). ow_id r = ew_operator e"
    and "\<exists>c \<in> set (rg_credentials g). kw_id c = ew_credential e"
    by (auto simp: reg_ok_def list_all_iff list_ex_iff has_operator_def)
  then have "find (\<lambda>r. ow_id r = ew_operator e) (rg_operators g) \<noteq> None"
    and "find (\<lambda>c. kw_id c = ew_credential e) (rg_credentials g) \<noteq> None"
    by (auto simp: find_None_iff)
  then show ?thesis
    by (auto simp: signer_of_def dest: findD)
qed

definition ordered :: "registry \<Rightarrow> uuid \<Rightarrow> evidence_row list" where
  "ordered g i = sort_key ew_verified_at (sort_key (\<lambda>e. case find (\<lambda>r. ow_id r = ew_operator e) (rg_operators g) of
     None \<Rightarrow> [] | Some r \<Rightarrow> ow_name r) (signatures_of g i))"

lemma signers_alt: "signers g i = List.map_filter (signer_of g) (ordered g i)"
  by (simp add: signers_def signer_of_def [abs_def] ordered_def)

lemma mset_ordered: "mset (ordered g i) = mset (signatures_of g i)"
  by (simp add: ordered_def)

lemma set_ordered [simp]: "set (ordered g i) = set (signatures_of g i)"
  by (simp add: ordered_def)

lemma map_filter_total:
  "(\<And>x. x \<in> set xs \<Longrightarrow> f x \<noteq> None) \<Longrightarrow> List.map_filter f xs = map (the \<circ> f) xs"
  by (induction xs) (auto simp: List.map_filter_simps split: option.split)

text \<open>One signatory for each signature, each with a different account.\<close>

lemma signers_reg_ok:
  assumes "reg_ok g"
  shows "length (signers g i) = length (signatures_of g i)"
    and "distinct (map (\<lambda>s. ow_id (fst s)) (signers g i))"
    and "s \<in> set (signers g i) \<longleftrightarrow> (\<exists>e \<in> set (signatures_of g i). signer_of g e = Some s)"
proof -
  have total: "\<exists>r c. signer_of g e = Some (r, c) \<and> ow_id r = ew_operator e" if "e \<in> set (ordered g i)" for e
    using signer_of_reg_ok [OF assms, of e] that by (auto simp: signatures_of_def)
  then have map: "signers g i = map (the \<circ> signer_of g) (ordered g i)"
    unfolding signers_alt by (intro map_filter_total) fastforce
  show "length (signers g i) = length (signatures_of g i)"
    using mset_ordered [THEN mset_eq_length] by (simp add: map)
  show "s \<in> set (signers g i) \<longleftrightarrow> (\<exists>e \<in> set (signatures_of g i). signer_of g e = Some s)"
    by (auto simp: signers_alt List.map_filter_def image_iff)
  have "distinct (map ew_operator (signatures_of g i))"
    using assms by (auto simp: reg_ok_def signatures_of_def distinct_map inj_on_def)
  then have "distinct (map ew_operator (ordered g i))"
    by (metis mset_ordered mset_eq_imp_distinct_iff mset_map)
  moreover have "map (\<lambda>s. ow_id (fst s)) (signers g i) = map ew_operator (ordered g i)"
    unfolding map using total by fastforce
  ultimately show "distinct (map (\<lambda>s. ow_id (fst s)) (signers g i))" by simp
qed


text \<open>What taking a signature establishes.\<close>

definition touched :: "key \<Rightarrow> instant \<Rightarrow> registry \<Rightarrow> registry \<Rightarrow> bool" where
  "touched k now g g' \<longleftrightarrow> rg_operators g' = rg_operators g \<and> rg_invites g' = rg_invites g
     \<and> rg_pending g' = rg_pending g
     \<and> (\<exists>n. rg_credentials g' = update_where (\<lambda>r. kw_id r = ky_id k)
          (\<lambda>r. r\<lparr>kw_sign_count := n, kw_last_used_at := Some now\<rparr>) (rg_credentials g))"

definition signed ::
    "challenge_row \<Rightarrow> action_row \<Rightarrow> action \<Rightarrow> operator \<Rightarrow> key \<Rightarrow> instant \<Rightarrow> registry \<Rightarrow> registry
       \<Rightarrow> nat \<Rightarrow> string list option \<Rightarrow> bool" where
  "signed c a act actor k now g g' n names \<longleftrightarrow> touched k now g g'
     \<and> rg_challenges g' = update_where (\<lambda>r. hw_id r = hw_id c \<and> hw_consumed_at r = None)
          (\<lambda>r. r\<lparr>hw_consumed_at := Some now\<rparr>) (rg_challenges g)
     \<and> (\<exists>e. rg_evidence g' = rg_evidence g @ [e] \<and> ew_action e = aw_id a \<and> ew_operator e = op_id actor
          \<and> ew_credential e = ky_id k \<and> ew_challenge e = hw_id c)
     \<and> n = length (signers g' (aw_id a))
     \<and> (case names of
          None \<Rightarrow> n < aw_required a \<and> rg_actions g' = rg_actions g
        | Some ns \<Rightarrow> aw_required a \<le> n \<and> list_all (still_entitled act) (signers g' (aw_id a))
            \<and> ns = map (\<lambda>s. ow_name (fst s)) (signers g' (aw_id a))
            \<and> rg_actions g' = update_where (\<lambda>r. aw_id r = aw_id a \<and> aw_executed_at r = None)
                (\<lambda>r. r\<lparr>aw_executed_at := Some now\<rparr>) (rg_actions g))"

lemma runs_insert_evidence [run]:
  "runs (insert_evidence row) Q E g \<longleftrightarrow>
     (if \<exists>r \<in> set (rg_evidence g). ew_id r = ew_id row
        then E (UniqueViolation ''decision_evidence_pkey'') g
      else if \<exists>r \<in> set (rg_evidence g). ew_challenge r = ew_challenge row
        then E (UniqueViolation ''decision_evidence_challenge_id_key'') g
      else if \<exists>r \<in> set (rg_evidence g). ew_action r = ew_action row \<and> ew_operator r = ew_operator row
        then E (UniqueViolation ''decision_evidence_action_id_operator_id_key'') g
      else if list_ex (\<lambda>r. hw_id r = ew_challenge row) (rg_challenges g)
                \<and> list_ex (\<lambda>r. aw_id r = ew_action row) (rg_actions g)
                \<and> has_operator g (ew_operator row)
                \<and> list_ex (\<lambda>r. kw_id r = ew_credential row) (rg_credentials g)
        then Q () (g\<lparr>rg_evidence := rg_evidence g @ [row]\<rparr>)
      else E (ForeignKey ''decision_evidence_fkey'') g)"
  by (auto simp: insert_evidence_def run list_ex_iff)

lemma signers_actions [simp]: "signers (g\<lparr>rg_actions := as\<rparr>) i = signers g i"
  by (simp add: signers_def signatures_of_def)

lemma keeps_reg_ok_signature:
  "keeps (on_registry reg_ok) (take_signature A c a act actor k counter assertion now)"
  unfolding take_signature_def consume_challenge_def mark_executed_def add_evidence_def Let_def
  by (auto intro!: pres split: prod.split option.split)

lemma runs_take_signature:
  "runs (take_signature A c a act actor k counter assertion now)
     (\<lambda>(n, names) v. (reg_ok (w_registry w) \<longrightarrow> reg_ok (w_registry v))
        \<and> signed c a act actor k now (w_registry w) (w_registry v) n names
        \<and> w_guard v = w_guard w \<and> w_store v = w_store w)
     (\<lambda>_ v. w_registry v = w_registry w \<and> w_store v = w_store w) w"
proof -
  have "runs (take_signature A c a act actor k counter assertion now)
     (\<lambda>(n, names) v. signed c a act actor k now (w_registry w) (w_registry v) n names
        \<and> w_guard v = w_guard w \<and> w_store v = w_store w)
     (\<lambda>_ v. w_registry v = w_registry w \<and> w_store v = w_store w) w"
    unfolding take_signature_def consume_challenge_def mark_executed_def add_evidence_def Let_def
    by (auto simp: run signed_def touched_def ok_or_def find_None_iff list_all_iff split: option.splits)
  moreover have "reg_ok (w_registry w) \<longrightarrow>
      reg_ok (w_registry (snd (take_signature A c a act actor k counter assertion now w)))"
    using on_registryD [OF keeps_reg_ok_signature] by blast
  ultimately show ?thesis
    by (cases "take_signature A c a act actor k counter assertion now w")
      (auto simp: runs_def split: sum.splits)
qed

section \<open>Controls change nothing\<close>

definition still :: "'x oa_world_scheme \<Rightarrow> 'x oa_world_scheme \<Rightarrow> bool" where
  "still w v \<longleftrightarrow> w_store v = w_store w \<and> w_journal v = w_journal w \<and> w_guard v = w_guard w"

definition same :: "'x oa_world_scheme \<Rightarrow> 'x oa_world_scheme \<Rightarrow> bool" where
  "same w v \<longleftrightarrow> still w v \<and> w_registry v = w_registry w"

lemma same_refl [simp]: "same w w" "still w w"
  by (simp_all add: same_def still_def)

lemma same_trans: "same u v \<Longrightarrow> same w u \<Longrightarrow> same w v"
  by (simp add: same_def still_def)

lemma keeps_still_world [pres]:
  "keeps (still w) now_utc" "keeps (still w) (fill_bytes n)" "keeps (still w) (query f)"
  "keeps (still w) (new_uuid A)" "keeps (still w) (sql m)" "keeps (still w) (journal_if False ev data)"
proof -
  show "keeps (still w) (sql m)"
    unfolding keeps_def sql_def by (auto simp: still_def split: prod.split sum.split)
qed (simp_all add: keeps_runs run still_def journal_if_def)

lemma keeps_same_world [pres]:
  "keeps (same w) now_utc" "keeps (same w) (fill_bytes n)" "keeps (same w) (query f)"
  "keeps (same w) (new_uuid A)" "keeps (same w) ensure_open" "keeps (same w) (find_request tx)"
  "keeps (same w) (on_store (get_certificate sn))"
  by (simp_all add: keeps_runs run same_def still_def find_request_def split: option.split)

lemma same_transaction:
  assumes "keeps (still w) m" and "\<And>v x u. m v = (Inr (True, x), u) \<Longrightarrow> False"
  shows "keeps (same w) (transaction m)"
proof (rule keepsI)
  fix v assume "same w v"
  then have "still w (snd (m v))" and "w_registry v = w_registry w"
    using assms(1) by (auto simp: same_def keeps_def)
  then show "same w (snd (transaction m v))"
    using assms(2) [of v] by (cases "m v") (auto simp: transaction_def same_def still_def split: sum.split prod.split)
qed

lemma keeps_still_registry_action: "keeps (still w) (registry_action A act actor now False n)"
  by (cases act)
    (auto simp: invite_operator_def confirm_key_def revoke_key_def set_role_def add_operator_def new_invite_def
      new_token_def insert_credential_def Let_def intro!: pres split: prod.split)

lemma keeps_same_dry_run [pres]: "keeps (same w) (run_registry_action A act actor now False n)"
  unfolding run_registry_action_def
  by (rule same_transaction) (auto simp: wp intro!: pres keeps_still_registry_action)

lemma keeps_same_checks [pres]:
  "keeps (same w) (check_target act)" "keeps (same w) (check_revocation S act)"
  unfolding check_target_def check_revocation_def
  by (cases act; auto intro!: pres
      split: store_error.split option.split action.split certificate_status.split sum.split)+

lemma keeps_same_check [pres]: "keeps (same w) (check_action A S act actor n)"
  by (cases act) (auto simp: check_action_def intro!: pres)

lemma keeps_same_reads [pres]:
  "keeps (same w) (operator_by_id i)" "keeps (same w) (key_by_id A cid)" "keeps (same w) (active_keys A i)"
  "keeps (same w) (eligible_signer i act)" "keeps (same w) (take_ceremony c)"
  "keeps (same w) (take_registration c)" "keeps (same w) (live_invite A b now)"
  "keeps (same w) (start_ceremony A i h)" "keeps (same w) (remember_ceremony c st)"
  unfolding operator_by_id_def key_by_id_def active_keys_def eligible_signer_def take_ceremony_def
    take_registration_def live_invite_def start_ceremony_def remember_ceremony_def
  by (auto intro!: pres keeps_modify simp: same_def still_def)

section \<open>What an execution has checked\<close>

definition checked ::
    "act_deps \<Rightarrow> 'x oa_world_scheme \<Rightarrow> uuid \<Rightarrow> assertion \<Rightarrow> expect option \<Rightarrow> instant
       \<Rightarrow> challenge_row \<Rightarrow> action_row \<Rightarrow> action \<Rightarrow> key \<Rightarrow> operator \<Rightarrow> bool" where
  "checked A w i assertion x now c a act k actor \<longleftrightarrow> w_guard w = None
     \<and> challenge_join (w_registry w) i = Some (c, a) \<and> hw_consumed_at c = None \<and> aw_executed_at a = None
     \<and> now \<le> hw_expires_at c \<and> now \<le> aw_expires_at a \<and> (\<exists>t. read_body (aw_body a) = Inr (act, t))
     \<and> (\<forall>e. x = Some e \<longrightarrow> expect_check e act (aw_id a) = Inr ())
     \<and> (\<exists>row. find (\<lambda>r. kw_id r = credential_id (as_raw_id assertion)) (rg_credentials (w_registry w)) = Some row
          \<and> key_from_row A row = Inr k \<and> kw_revoked_at row = None)
     \<and> (\<exists>row. find (\<lambda>r. ow_id r = ky_operator k) (rg_operators (w_registry w)) = Some row
          \<and> operator_of_row row = Some actor)
     \<and> (\<exists>state verified. bt_get (w_ceremonies w) i = Some state
          \<and> finish_authentication (ad_webauthn A) assertion state (ky_sign_count k) = Inr verified)
     \<and> may_sign act actor"

lemma key_from_rowD: "key_from_row A r = Inr k \<Longrightarrow>
    ky_id k = kw_id r \<and> ky_operator k = kw_operator r \<and> (ky_revoked k \<longleftrightarrow> kw_revoked_at r \<noteq> None)"
  by (auto simp: key_from_row_def wp)

lemma or_else_err_Inr' [simp]: "map_sum f (\<lambda>x. x) m = Inr y \<longleftrightarrow> m = Inr y"
  by (cases m) auto

text \<open>An execution: refused before the signature, nothing has changed but the ceremony; then
  the signature, and what follows it.\<close>

lemma runs_execute_inner:
  fixes w :: "'x oa_world_scheme"
  assumes failed: "\<And>e v. w_registry v = w_registry w \<Longrightarrow> w_store v = w_store w \<Longrightarrow> E e v"
    and tail: "\<And>now c a act k actor n names u.
      checked A w i assertion x now c a act k actor \<Longrightarrow> now = w_clock w (w_tick w) \<Longrightarrow>
      (reg_ok (w_registry w) \<Longrightarrow> reg_ok (w_registry u)) \<Longrightarrow>
      signed c a act actor k now (w_registry w) (w_registry u) n names \<Longrightarrow> w_guard u = None \<Longrightarrow>
      w_store u = w_store w \<Longrightarrow> runs (conclude A S c a act actor k now n names) Q E u"
  shows "runs (execute_inner A S i assertion x) Q E w"
proof -
  have signing: "runs (bindr (check_action A S act actor (aw_required a)) (\<lambda>_.
      bindr (take_signature A c a act actor k counter assertion now) (\<lambda>(n, names).
      conclude A S c a act actor k now n names))) Q E u"
    if "checked A w i assertion x now c a act k actor" and "now = w_clock w (w_tick w)" and "same w u"
    for now c a act k actor counter and u :: "'x oa_world_scheme"
    unfolding runs_bindr [of "check_action A S act actor r" for r]
  proof (rule runs_mono [OF runs_keeps [OF keeps_same_check \<open>same w u\<close>]])
    fix y and v :: "'x oa_world_scheme" assume v: "same w v"
    show "runs (bindr (take_signature A c a act actor k counter assertion now) (\<lambda>(n, names).
      conclude A S c a act actor k now n names)) Q E v"
      unfolding runs_bindr [of "take_signature A c a act actor k counter assertion now"]
      by (rule runs_mono [OF runs_take_signature])
        (use that(1,2) v in \<open>auto simp: same_def still_def checked_def intro!: tail failed\<close>)
  qed (auto simp: same_def still_def intro: failed)
  show ?thesis
    unfolding execute_inner_def Let_def take_ceremony_def key_by_id_def operator_by_id_def
    by (auto simp: runs_bindr [of "ensure b e" for b e] runs_bindr [of "lift r" for r]
        runs_bindr [of "query f" for f] runs_bindr [of "ensure_open"] runs_bindr [of "now_utc"]
        runs_bindr [of "gets f" for f] runs_bindr [of "modify f" for f] runs_bindr [of "ok y" for y]
        runs_bindr [of "bindr m k" for m k] runs_bindr [of "case y of None \<Rightarrow> m | Some z \<Rightarrow> k z" for y m k]
        runs_ensure runs_lift runs_query runs_ensure_open runs_now_utc runs_gets runs_modify runs_ok
        runs_case_option ok_or_def or_else_err_def checked_def same_def still_def
        intro!: signing failed dest: key_from_rowD split: option.splits sum.splits)
qed


section \<open>The tables of the actions\<close>

definition ledger :: "registry \<Rightarrow> action_row list \<times> challenge_row list \<times> evidence_row list" where
  "ledger g = (rg_actions g, rg_challenges g, rg_evidence g)"

abbreviation ledger_is :: "action_row list \<times> challenge_row list \<times> evidence_row list \<Rightarrow> 'x oa_world_scheme \<Rightarrow> bool" where
  "ledger_is l \<equiv> on_registry (\<lambda>g. ledger g = l)"

lemma keeps_ledger_sql [pres]:
  "keeps (\<lambda>g. ledger g = l) (insert_operator o')" "keeps (\<lambda>g. ledger g = l) (insert_credential_row c)"
  "keeps (\<lambda>g. ledger g = l) (insert_invite i)" "keeps (\<lambda>g. ledger g = l) (insert_pending p)"
  "keeps (\<lambda>g. ledger g = l) (modify (\<lambda>g. g\<lparr>rg_invites := f g\<rparr>))"
  "keeps (\<lambda>g. ledger g = l) (modify (\<lambda>g. g\<lparr>rg_pending := f1 g\<rparr>))"
  "keeps (\<lambda>g. ledger g = l) (modify (\<lambda>g. g\<lparr>rg_operators := f2 g\<rparr>))"
  "keeps (\<lambda>g. ledger g = l) (modify (\<lambda>g. g\<lparr>rg_credentials := f3 g\<rparr>))"
  by (auto simp: keeps_runs insert_operator_def insert_credential_row_def insert_invite_def insert_pending_def
      run ledger_def)

lemma keeps_ledger_registry_action [pres]: "keeps (ledger_is l) (run_registry_action A act actor now b n)"
proof -
  have "keeps (ledger_is l) (registry_action A act actor now b n)"
    by (cases act)
      (auto simp: invite_operator_def confirm_key_def revoke_key_def set_role_def Let_def add_operator_def
        new_invite_def new_token_def insert_credential_def intro!: pres split: prod.split)
  then show ?thesis
    unfolding run_registry_action_def by (auto intro!: pres)
qed

lemma keeps_ledger_effect [pres]: "keeps (ledger_is l) (apply_effect A S act actor names now n)"
  by (cases act) (auto intro!: pres)

lemma keeps_ledger_conclude [pres]: "keeps (ledger_is l) (conclude A S c a act actor k now n names)"
  unfolding conclude_def Let_def by (auto intro!: pres)


section \<open>No effect without the signatures\<close>

text \<open>What an execution changes beyond the trace of a signature (its challenge, its evidence, the
  counter of its key).\<close>

definition takes_effect :: "act_error + executed \<Rightarrow> 'x oa_world_scheme \<Rightarrow> 'x oa_world_scheme \<Rightarrow> bool" where
  "takes_effect res w v \<longleftrightarrow> (\<exists>r. res = Inr r \<and> xe_executed r) \<or> w_store v \<noteq> w_store w
     \<or> rg_operators (w_registry v) \<noteq> rg_operators (w_registry w)
     \<or> rg_invites (w_registry v) \<noteq> rg_invites (w_registry w)
     \<or> rg_pending (w_registry v) \<noteq> rg_pending (w_registry w)
     \<or> map (\<lambda>k. (kw_id k, kw_revoked_at k)) (rg_credentials (w_registry v))
         \<noteq> map (\<lambda>k. (kw_id k, kw_revoked_at k)) (rg_credentials (w_registry w))"

text \<open>An operator who has signed the action, with a key in force, and may still sign it.\<close>

definition stands :: "registry \<Rightarrow> registry \<Rightarrow> action_row \<Rightarrow> action \<Rightarrow> operator_row \<Rightarrow> bool" where
  "stands g g' a act r \<longleftrightarrow> r \<in> set (rg_operators g) \<and> ow_disabled_at r = None
     \<and> ow_role r \<in> set (map role_text (allowed_roles act))
     \<and> (\<exists>e \<in> set (signatures_of g' (aw_id a)). ew_operator e = ow_id r
         \<and> (\<exists>k \<in> set (rg_credentials g). kw_id k = ew_credential e \<and> kw_revoked_at k = None))"

definition quorum_reached :: "registry \<Rightarrow> registry \<Rightarrow> action_row \<Rightarrow> action \<Rightarrow> bool" where
  "quorum_reached g g' a act \<longleftrightarrow>
     (\<exists>rs. distinct (map ow_id rs) \<and> aw_required a \<le> length rs \<and> list_all (stands g g' a act) rs)"

lemma touched_credentials:
  "touched k now g g' \<Longrightarrow> map (\<lambda>k. (kw_id k, kw_revoked_at k)) (rg_credentials g')
     = map (\<lambda>k. (kw_id k, kw_revoked_at k)) (rg_credentials g)"
  by (auto simp: touched_def update_where_def)

lemma signed_reg_ok:
  assumes "signed c a act actor k now g g' n names" and "reg_ok g" and "reg_ok g'"
    and "names = Some ns"
  shows "quorum_reached g g' a act"
proof -
  have all: "list_all (still_entitled act) (signers g' (aw_id a))" and "aw_required a \<le> length (signers g' (aw_id a))"
    and t: "touched k now g g'"
    using assms(1,4) by (auto simp: signed_def)
  have "stands g g' a act (fst s)" if s: "s \<in> set (signers g' (aw_id a))" for s
  proof -
    obtain e where e: "e \<in> set (signatures_of g' (aw_id a))" "signer_of g' e = Some s"
      using signers_reg_ok(3) [OF assms(3)] s by blast
    then have "e \<in> set (rg_evidence g')" by (simp add: signatures_of_def)
    then obtain r k' where rk: "s = (r, k')" "r \<in> set (rg_operators g')" "ow_id r = ew_operator e"
      "k' \<in> set (rg_credentials g')" "kw_id k' = ew_credential e"
      using signer_of_reg_ok [OF assms(3)] e(2) by fastforce
    have "(kw_id k', kw_revoked_at k') \<in> set (map (\<lambda>k. (kw_id k, kw_revoked_at k)) (rg_credentials g))"
      unfolding touched_credentials [OF t, symmetric] using rk(4) by auto
    then obtain k0 where "k0 \<in> set (rg_credentials g)" "kw_id k0 = kw_id k'" "kw_revoked_at k0 = kw_revoked_at k'"
      by auto
    moreover have "still_entitled act s" using all s by (simp add: list_all_iff)
    ultimately show ?thesis
      using rk e(1) t
      by (auto simp: stands_def still_entitled_def touched_def intro!: bexI [of _ e] bexI [of _ k0])
  qed
  then show ?thesis
    unfolding quorum_reached_def using signers_reg_ok(2) [OF assms(3)] \<open>aw_required a \<le> _\<close>
    by (intro exI [of _ "map fst (signers g' (aw_id a))"]) (auto simp: list_all_iff comp_def)
qed

lemma runs_conclude_none: "runs (conclude A S c a act actor k now n None) Q E w
    \<longleftrightarrow> Q \<lparr>xe_action_id = aw_id a, xe_challenge_id = hw_id c, xe_operator = op_name actor,
       xe_role = op_role actor, xe_result = None, xe_executed = False, xe_signatures = n,
       xe_required = aw_required a\<rparr> w"
  by (simp add: conclude_def run)


text \<open>C2. Four eyes. Whatever an execution answers, if it takes effect (it says so, or the register of
  certificates, the accounts, the invitations or the keys in force have changed), then the guard
  was open, the challenge and the action were neither used nor out of date, the answer of the
  security key was verified, and at least as many different operators as the action requires have
  signed it, none of them disabled, each with a role allowed for the frozen action and with the
  key of his signature in force at that moment.\<close>

theorem effect_needs_quorum:
  assumes "execute A S i assertion w = (res, v)" and "reg_ok (w_registry w)" and "takes_effect res w v"
  shows "\<exists>c a act k actor. checked A w i assertion None (w_clock w (w_tick w)) c a act k actor
    \<and> quorum_reached (w_registry w) (w_registry v) a act"
proof -
  let ?goal = "\<lambda>g'. \<exists>c a act k actor. checked A w i assertion None (w_clock w (w_tick w)) c a act k actor
    \<and> quorum_reached (w_registry w) g' a act"
  have "runs (execute_inner A S i assertion None)
    (\<lambda>r v. takes_effect (Inr r) w v \<longrightarrow> ?goal (w_registry v))
    (\<lambda>e v. takes_effect (Inl e) w v \<longrightarrow> ?goal (w_registry v)) w"
  proof (rule runs_execute_inner)
    fix now c a act k actor n names and u :: "'a oa_world_scheme"
    assume c: "checked A w i assertion None now c a act k actor" and now: "now = w_clock w (w_tick w)"
      and ok: "reg_ok (w_registry w) \<Longrightarrow> reg_ok (w_registry u)"
      and s: "signed c a act actor k now (w_registry w) (w_registry u) n names"
      and store: "w_store u = w_store w"
    have t: "touched k now (w_registry w) (w_registry u)" using s by (simp add: signed_def)
    show "runs (conclude A S c a act actor k now n names)
      (\<lambda>r v. takes_effect (Inr r) w v \<longrightarrow> ?goal (w_registry v))
      (\<lambda>e v. takes_effect (Inl e) w v \<longrightarrow> ?goal (w_registry v)) u"
    proof (cases names)
      case None
      with t store show ?thesis
        by (auto simp: runs_conclude_none takes_effect_def touched_credentials) (auto simp: touched_def)
    next
      case (Some ns)
      have "quorum_reached (w_registry w) (w_registry u) a act"
        using signed_reg_ok [OF s assms(2) ok [OF assms(2)] Some] .
      then have "quorum_reached (w_registry w) g' a act" if "ledger g' = ledger (w_registry u)" for g'
        using that by (simp add: quorum_reached_def stands_def [abs_def] signatures_of_def ledger_def)
      with c now have goal: "?goal g'" if "ledger g' = ledger (w_registry u)" for g'
        using that by blast
      have "runs (conclude A S c a act actor k now n names) (\<lambda>_ v. ledger (w_registry v) = ledger (w_registry u))
        (\<lambda>_ v. ledger (w_registry v) = ledger (w_registry u)) u"
        using runs_keeps [OF keeps_ledger_conclude, of "ledger (w_registry u)" u] by (simp add: on_registry_def [abs_def])
      then show ?thesis by (rule runs_mono) (use goal in blast)+
    qed
  qed (simp add: takes_effect_def)
  with assms show ?thesis by (cases res) (auto simp: execute_def runs_def)
qed



section \<open>A challenge serves once, an action takes effect once\<close>

definition spent :: "uuid \<Rightarrow> registry \<Rightarrow> bool" where
  "spent i g \<longleftrightarrow> (case find (\<lambda>c. hw_id c = i) (rg_challenges g) of
     None \<Rightarrow> False | Some c \<Rightarrow> hw_consumed_at c \<noteq> None)"

definition closed :: "uuid \<Rightarrow> registry \<Rightarrow> bool" where
  "closed n g \<longleftrightarrow> (case find (\<lambda>a. aw_id a = n) (rg_actions g) of
     None \<Rightarrow> False | Some a \<Rightarrow> aw_executed_at a \<noteq> None)"

lemmas insert_defs = insert_operator_def insert_credential_row_def insert_invite_def insert_pending_def
  insert_action_def insert_challenge_def insert_evidence_def

interpretation spent: registry_invariant "spent i"
  by unfold_locales (auto simp: keeps_runs insert_defs run spent_def find_append find_update_where
    split: option.split)

interpretation closed: registry_invariant "closed n"
  by unfold_locales (auto simp: keeps_runs insert_defs run closed_def find_append find_update_where
    split: option.split)

lemma challenge_joinD:
  "challenge_join g i = Some (c, a) \<Longrightarrow> hw_id c = i \<and> find (\<lambda>c. hw_id c = i) (rg_challenges g) = Some c
     \<and> find (\<lambda>r. aw_id r = aw_id a) (rg_actions g) = Some a"
  using findD [of _ "rg_actions g"] findD [of _ "rg_challenges g"]
  by (fastforce simp: challenge_join_def split: option.splits)

lemma signed_spent:
  assumes "signed c a act actor k now g g' n names" and "challenge_join g i = Some (c, a)"
  shows "spent i g'"
  using assms
  by (auto simp: signed_def spent_def find_update_where dest!: challenge_joinD split: option.splits)

lemma signed_closed:
  assumes "signed c a act actor k now g g' n (Some ns)" and "challenge_join g i = Some (c, a)"
  shows "closed (aw_id a) g'"
  using assms
  by (auto simp: signed_def closed_def find_update_where dest!: challenge_joinD split: option.splits)

text \<open>What a successful execution leaves: its challenge spent, and its action closed if it took
  effect.\<close>

lemma execute_leaves:
  fixes w :: "'x oa_world_scheme"
  assumes "execute_inner A S i assertion x w = (Inr r, u)"
  shows "spent i (w_registry u) \<and> (xe_executed r \<longrightarrow> closed (xe_action_id r) (w_registry u))"
proof -
  have "runs (execute_inner A S i assertion x)
    (\<lambda>r u. spent i (w_registry u) \<and> (xe_executed r \<longrightarrow> closed (xe_action_id r) (w_registry u))) (\<lambda>_ _. True) w"
  proof (rule runs_execute_inner)
    fix now c a act k actor n names and u :: "'x oa_world_scheme"
    assume c: "checked A w i assertion x now c a act k actor"
      and s: "signed c a act actor k now (w_registry w) (w_registry u) n names"
    from c have j: "challenge_join (w_registry w) i = Some (c, a)" by (simp add: checked_def)
    have left: "runs (conclude A S c a act actor k now n names) (\<lambda>_ v. P (w_registry v)) (\<lambda>_ _. True) u"
      if "keeps (on_registry P) (conclude A S c a act actor k now n names :: ('x, executed) act)"
        and "P (w_registry u)" for P
      using runs_keeps [OF that(1), of u] that(2)
      by (auto simp: on_registry_def [abs_def] intro: runs_mono)
    have "runs (conclude A S c a act actor k now n names) (\<lambda>r v. xe_action_id r = aw_id a
        \<and> (xe_executed r \<longrightarrow> names \<noteq> None)) (\<lambda>_ _. True) u"
      by (rule runs_okI) (auto simp: conclude_def Let_def wp split: option.splits)
    moreover have "runs (conclude A S c a act actor k now n names) (\<lambda>_ v. spent i (w_registry v)) (\<lambda>_ _. True) u"
      by (rule left [OF spent.keeps_conclude signed_spent [OF s j]])
    moreover have "names \<noteq> None \<longrightarrow>
        runs (conclude A S c a act actor k now n names) (\<lambda>_ v. closed (aw_id a) (w_registry v)) (\<lambda>_ _. True) u"
      using left [OF closed.keeps_conclude signed_closed [OF _ j]] s by auto
    ultimately show "runs (conclude A S c a act actor k now n names)
      (\<lambda>r u. spent i (w_registry u) \<and> (xe_executed r \<longrightarrow> closed (xe_action_id r) (w_registry u))) (\<lambda>_ _. True) u"
      by (auto simp: runs_def split: prod.splits sum.splits)
  qed simp
  with assms show ?thesis by (simp add: runs_def)
qed

lemma execute_again:
  assumes "spent i (w_registry w) \<or> (\<exists>c a. challenge_join (w_registry w) i = Some (c, a) \<and> closed (aw_id a) (w_registry w))"
  shows "\<exists>e. fst (execute_inner A S i assertion x w) = Inl e \<and> same w (snd (execute_inner A S i assertion x w))"
proof -
  have used: "hw_consumed_at c \<noteq> None \<or> aw_executed_at a \<noteq> None"
    if "challenge_join (w_registry w) i = Some (c, a)" for c a
    using assms challenge_joinD [OF that] that by (auto simp: spent_def closed_def)
  have "runs (execute_inner A S i assertion x) (\<lambda>_ _. False) (\<lambda>_ v. same w v) w"
    unfolding execute_inner_def
    by (auto simp: runs_bindr [of "ensure b e" for b e] runs_bindr [of "lift r" for r]
        runs_bindr [of "query f" for f] runs_bindr [of "ensure_open"] runs_bindr [of "now_utc"]
        runs_ensure runs_lift runs_query runs_ensure_open runs_now_utc ok_or_def same_def still_def
        dest: used split: option.splits)
  then show ?thesis
    by (auto simp: runs_def split: prod.splits sum.splits)
qed

text \<open>C3. A challenge serves once and an action takes effect once. After an execution that
  succeeded, whatever the service and the authorities do next, any further execution with the
  same challenge is refused and changes neither register, nor journal, nor guard; and if it made
  the action take effect, so is an execution with any other challenge of that action.\<close>

theorem used_at_most_once:
  assumes "execute A S i assertion w = (Inr r, u)" and "oa_steps A S F u v"
    and "j = i \<or> xe_executed r \<and> (\<exists>c a. challenge_join (w_registry v) j = Some (c, a) \<and> aw_id a = xe_action_id r)"
  shows "\<exists>e. fst (execute A S j other v) = Inl e \<and> same v (snd (execute A S j other v))"
proof -
  from assms(1) have left: "spent i (w_registry u)" "xe_executed r \<longrightarrow> closed (xe_action_id r) (w_registry u)"
    using execute_leaves [of A S i assertion None w r u] by (simp_all add: execute_def)
  have "spent i (w_registry v)" by (rule spent.steps [OF assms(2) left(1)])
  moreover have "xe_executed r \<longrightarrow> closed (xe_action_id r) (w_registry v)"
    using closed.steps [OF assms(2)] left(2) by blast
  ultimately show ?thesis
    unfolding execute_def using assms(3) by (intro execute_again) auto
qed


section \<open>One path for the control and the execution\<close>

text \<open>Two computations that differ only in that the second may also fail to write to the journal.\<close>

definition twin :: "('x, 'a) act \<Rightarrow> ('x, 'a) act \<Rightarrow> bool" where
  "twin m0 m1 \<longleftrightarrow> (\<forall>w. fst (m1 w) = fst (m0 w)
     \<or> (\<exists>e x. fst (m1 w) = Inl (JournalUnavailable e) \<and> fst (m0 w) = Inr x))"

lemma twin_refl: "twin m m"
  by (simp add: twin_def)

lemma twin_bindr: "(\<And>x. twin (k0 x) (k1 x)) \<Longrightarrow> twin (bindr m k0) (bindr m k1)"
  unfolding twin_def bindr_def by (auto split: prod.split sum.split)

lemma twin_case_prod: "(\<And>a b. twin (k0 a b) (k1 a b)) \<Longrightarrow> twin (case p of (a, b) \<Rightarrow> k0 a b) (case p of (a, b) \<Rightarrow> k1 a b)"
  by (cases p) simp

lemma twin_journal:
  "twin (bindr (journal_if False ev data) (\<lambda>_. ok x)) (bindr (journal_if True ev data) (\<lambda>_. ok x))"
  unfolding twin_def
proof
  fix w :: "'a oa_world_scheme"
  have "runs (bindr (journal_if True ev data) (\<lambda>_. ok x)) (\<lambda>y _. y = x) (\<lambda>e _. \<exists>f. e = JournalUnavailable f) w"
    by (simp add: journal_if_def run)
  then show "fst (bindr (journal_if True ev data) (\<lambda>_. ok x) w) = fst (bindr (journal_if False ev data) (\<lambda>_. ok x) w)
     \<or> (\<exists>e y. fst (bindr (journal_if True ev data) (\<lambda>_. ok x) w) = Inl (JournalUnavailable e)
          \<and> fst (bindr (journal_if False ev data) (\<lambda>_. ok x) w) = Inr y)"
    by (auto simp: runs_def journal_if_def bindr_def ok_def split: prod.splits sum.splits)
qed

lemma twin_registry_action: "twin (registry_action A act actor now False n) (registry_action A act actor now True n)"
  by (cases act)
    (auto simp: invite_operator_def confirm_key_def revoke_key_def set_role_def Let_def
      intro!: twin_bindr twin_case_prod twin_journal twin_refl)

lemma transaction_commit_fst:
  "fst (transaction (bindr m (\<lambda>x. ok (b, x))) w) = fst (m w)"
  by (auto simp: transaction_def bindr_def ok_def split: prod.split sum.split)

text \<open>C6. The control is the execution. Played for control, an action on the register of
  operators leaves the register, the journal and the guard as they are, and answers exactly what
  the execution would answer in the same state: the same result or the same refusal, but for the
  case where the execution cannot write to the journal.\<close>

theorem control_is_execution:
  "same w (snd (run_registry_action A act actor now False n w))
   \<and> (fst (run_registry_action A act actor now True n w) = fst (run_registry_action A act actor now False n w)
      \<or> (\<exists>e x. fst (run_registry_action A act actor now True n w) = Inl (JournalUnavailable e)
           \<and> fst (run_registry_action A act actor now False n w) = Inr x))"
proof
  show "same w (snd (run_registry_action A act actor now False n w))"
    using keeps_same_dry_run [of w A act actor now n, unfolded keeps_def] same_refl(1) [of w] by blast
  show "fst (run_registry_action A act actor now True n w) = fst (run_registry_action A act actor now False n w)
      \<or> (\<exists>e x. fst (run_registry_action A act actor now True n w) = Inl (JournalUnavailable e)
           \<and> fst (run_registry_action A act actor now False n w) = Inr x)"
    using twin_registry_action unfolding twin_def run_registry_action_def transaction_commit_fst by blast
qed

section \<open>The guard\<close>

lemma bindr_eval:
  "bindr (ok x) k w = k x w" "bindr (fail e) k' w = (Inl e, w)"
  "bindr (gets f) g w = g (f w) w" "bindr (query q) h w = h (q (w_registry w)) w"
  "bindr (lift r) k2 w = (case r of Inl e \<Rightarrow> (Inl e, w) | Inr x \<Rightarrow> k2 x w)"
  "bindr (ensure b e') k3 w = (if b then k3 () w else (Inl e', w))"
  "bindr now_utc k4 w = k4 (w_clock w (w_tick w)) (w\<lparr>w_tick := w_tick w + 1\<rparr>)"
  "bindr ensure_open k5 w = (case w_guard w of None \<Rightarrow> k5 () w | Some reasons \<Rightarrow> (Inl (Blocked reasons), w))"
  by (simp_all add: bindr_def ok_def fail_def gets_def query_def lift_def ensure_def now_utc_def ensure_open_def
      split: sum.split option.split)

text \<open>C7. A closed guard stops every handler of the service: each answers the reasons of the
  guard, and nothing at all changes.\<close>

theorem closed_guard_stops_everything:
  assumes "w_guard w = Some reasons"
  shows "begin_registration A token w = (Inl (Blocked reasons), w)
    \<and> finish_registration A ceremony att w = (Inl (Blocked reasons), w)
    \<and> issue_challenge A S act hint w = (Inl (Blocked reasons), w)
    \<and> issue_challenge_for A S n hint w = (Inl (Blocked reasons), w)
    \<and> execute A S i assertion w = (Inl (Blocked reasons), w)
    \<and> execute_expecting A S i assertion x w = (Inl (Blocked reasons), w)"
  using assms
  by (simp add: begin_registration_def finish_registration_def issue_challenge_def
    issue_challenge_for_def execute_def execute_expecting_def execute_inner_def bindr_eval)

section \<open>What the caller expects\<close>

lemma expect_checkD:
  assumes "expect_check x act n = Inr ()"
  shows "ex_action x = action_kind act" and "ex_action_id x \<in> {None, Some n}"
    and "\<And>t. ex_transaction_id x = Some t \<Longrightarrow> action_transaction_id act = Some t"
  using assms unfolding expect_check_def expect_targets_def
  by (cases act; auto simp: wp split: option.splits if_splits)+

text \<open>An expectation only restricts. An execution that names what it expects is the plain
  execution, when the frozen action has the kind, the number and the request expected; otherwise
  it is refused before anything is used up: only the clock was read, so that the right call is
  still possible.\<close>

theorem expectation_only_restricts:
  "execute_expecting A S i assertion x w = execute A S i assertion w
     \<and> (\<forall>r v. execute_expecting A S i assertion x w = (Inr r, v) \<longrightarrow>
          (\<exists>c a act t. challenge_join (w_registry w) i = Some (c, a) \<and> read_body (aw_body a) = Inr (act, t)
             \<and> ex_action x = action_kind act \<and> ex_action_id x \<in> {None, Some (aw_id a)}
             \<and> (\<forall>tx. ex_transaction_id x = Some tx \<longrightarrow> action_transaction_id act = Some tx)))
   \<or> (\<exists>e. execute_expecting A S i assertion x w = (Inl e, w\<lparr>w_tick := w_tick w + 1\<rparr>))"
proof -
  have step: "runs (execute_inner A S i assertion (Some x)) (\<lambda>_ _.
      \<exists>c a act t. challenge_join (w_registry w) i = Some (c, a) \<and> read_body (aw_body a) = Inr (act, t)
        \<and> expect_check x act (aw_id a) = Inr ()) (\<lambda>_ _. True) w"
    by (rule runs_execute_inner, simp)
      (auto simp: checked_def conclude_def runs_def split: prod.split sum.split)
  have split: "execute_inner A S i assertion (Some x) w = execute_inner A S i assertion None w
     \<or> (\<exists>e. execute_inner A S i assertion (Some x) w = (Inl e, w\<lparr>w_tick := w_tick w + 1\<rparr>))"
    unfolding execute_inner_def
    by (cases "w_guard w"; cases "challenge_join (w_registry w) i";
        cases "read_body (aw_body (snd (the (challenge_join (w_registry w) i))))")
      (simp_all add: bindr_eval ok_or_def split: if_split sum.split prod.split)
  show ?thesis
  proof (cases "\<exists>e. execute_inner A S i assertion (Some x) w = (Inl e, w\<lparr>w_tick := w_tick w + 1\<rparr>)")
    case False
    with split show ?thesis
      using step by (fastforce simp: execute_def execute_expecting_def runs_def dest: expect_checkD)
  qed (simp add: execute_expecting_def)
qed

end
