(* ===== verification/Operators_Spec.thy ===== *)
theory Operators_Spec
  imports Service_Spec
begin

text \<open>
  The register of operators: an administrator always remains, every key was confirmed by someone
  else, and the challenge that a key signs derives from the frozen body.
\<close>

section \<open>What the controls leave alone\<close>

lemma keeps_any_check [pres]:
  fixes A :: act_deps and P :: "registry \<Rightarrow> bool"
  shows "keeps (on_registry P :: 'x oa_world_scheme \<Rightarrow> bool) (check_action A S act actor n)"
proof (rule keepsI)
  fix w :: "'x oa_world_scheme"
  have "same w (snd (check_action A S act actor n w))"
    using keeps_same_check [of w A S act actor n] by (simp add: keeps_def)
  then show "on_registry P w \<Longrightarrow> on_registry P (snd (check_action A S act actor n w))"
    by (simp add: same_def on_registry_def)
qed

lemma keeps_any_controls [pres]:
  "keeps (on_registry P) (eligible_signer i act)"
  "keeps (on_registry P) (required_signatures act)"
  "keeps (on_registry P) (ensure_enough_holders act n)"
  "keeps (on_registry P) (start_ceremony A i hash)"
  unfolding eligible_signer_def operator_by_id_def ensure_enough_holders_def start_ceremony_def
    active_keys_def Let_def
  by (cases act; auto intro!: pres simp: find_request_def split: store_error.split option.split sum.split)+

section \<open>An administrator remains\<close>

lemma active_admin_iff:
  "active_admin g \<longleftrightarrow> (\<exists>r \<in> set (rg_operators g). \<exists>c \<in> set (rg_credentials g). is_active_admin r c)"
  by (auto simp: active_admin_def list_ex_iff)

lemma touch_active [simp]:
  "is_active_admin r (c\<lparr>kw_sign_count := n, kw_last_used_at := u\<rparr>) = is_active_admin r c"
  by (simp add: is_active_admin_def)

lemma keeps_active_admin [pres]:
  "keeps active_admin (insert_operator o')" "keeps active_admin (insert_credential_row k)"
  "keeps active_admin (insert_invite i)" "keeps active_admin (insert_pending p)"
  "keeps active_admin (insert_action a)" "keeps active_admin (insert_challenge h)"
  "keeps active_admin (insert_evidence e)"
  "keeps active_admin (modify (\<lambda>g. g\<lparr>rg_invites := f g\<rparr>))"
  "keeps active_admin (modify (\<lambda>g. g\<lparr>rg_pending := f1 g\<rparr>))"
  "keeps active_admin (modify (\<lambda>g. g\<lparr>rg_actions := f2 g\<rparr>))"
  "keeps active_admin (modify (\<lambda>g. g\<lparr>rg_challenges := f3 g\<rparr>))"
  by (auto simp: keeps_runs insert_defs run active_admin_iff)

lemma update_where_mem: "r \<in> set rows \<Longrightarrow> (if p r then f r else r) \<in> set (update_where p f rows)"
  by (auto simp: set_update_where)

lemma touched_admin: "touched k now g g' \<Longrightarrow> active_admin g' = active_admin g"
  by (auto simp: touched_def active_admin_def list_ex_update_where)

text \<open>Someone who acts with a key in force.\<close>

definition acting :: "operator \<Rightarrow> registry \<Rightarrow> bool" where
  "acting actor g \<longleftrightarrow> (\<exists>r \<in> set (rg_operators g). \<exists>c \<in> set (rg_credentials g).
     ow_id r = op_id actor \<and> ow_role r = role_text (op_role actor) \<and> ow_disabled_at r = None
     \<and> kw_operator c = op_id actor \<and> kw_revoked_at c = None)"

lemma runs_set_role_admin:
  assumes "active_admin (w_registry w)" and "acting actor (w_registry w)" and "op_role actor = Admin"
  shows "runs (set_role actor b n name role) (\<lambda>_ v. active_admin (w_registry v)) (\<lambda>_ v. True) w"
proof -
  have "active_admin ((w_registry w)\<lparr>rg_operators := update_where (\<lambda>r. ow_id r = i)
      (\<lambda>r. r\<lparr>ow_role := role_text role\<rparr>) (rg_operators (w_registry w))\<rparr>)" if "i \<noteq> op_id actor" for i
  proof -
    obtain r c where r: "r \<in> set (rg_operators (w_registry w))" "c \<in> set (rg_credentials (w_registry w))"
      "ow_id r = op_id actor" "ow_role r = ''admin''" "ow_disabled_at r = None"
      "kw_operator c = op_id actor" "kw_revoked_at c = None"
      using assms(2,3) by (auto simp: acting_def)
    with that have "r \<in> set (update_where (\<lambda>r. ow_id r = i) (\<lambda>r. r\<lparr>ow_role := role_text role\<rparr>) (rg_operators (w_registry w)))"
      by (force simp: set_update_where)
    with r show ?thesis
      unfolding active_admin_iff is_active_admin_def by (intro bexI [of _ r] bexI [of _ c]) auto
  qed
  then show ?thesis
    unfolding set_role_def journal_if_def by (auto simp: run Let_def ok_or_def split: option.split)
qed


lemma reg_ok_find:
  assumes "reg_ok g"
  shows "c \<in> set (rg_credentials g) \<Longrightarrow> find (\<lambda>x. kw_id x = kw_id c) (rg_credentials g) = Some c"
    and "r \<in> set (rg_operators g) \<Longrightarrow> find (\<lambda>x. ow_id x = ow_id r) (rg_operators g) = Some r"
proof -
  have unique: "find (\<lambda>y. k y = k x) xs = Some x" if "distinct (map k xs)" "x \<in> set xs"
    for k :: "'z \<Rightarrow> string" and x xs
    using that by (induction xs) (auto simp: rev_image_eqI)
  show "c \<in> set (rg_credentials g) \<Longrightarrow> find (\<lambda>x. kw_id x = kw_id c) (rg_credentials g) = Some c"
    and "r \<in> set (rg_operators g) \<Longrightarrow> find (\<lambda>x. ow_id x = ow_id r) (rg_operators g) = Some r"
    using assms by (auto simp: reg_ok_def intro: unique)
qed

lemma runs_revoke_key_admin:
  assumes "active_admin (w_registry w)" and "reg_ok (w_registry w)"
  shows "runs (revoke_key actor now b cid reason) (\<lambda>_ v. active_admin (w_registry v)) (\<lambda>_ v. True) w"
proof -
  let ?g = "w_registry w"
  have stays: "active_admin (?g\<lparr>rg_credentials := update_where (\<lambda>r. kw_id r = cid)
      (\<lambda>r. r\<lparr>kw_revoked_at := Some now, kw_revoked_by := by, kw_revoked_reason := m\<rparr>) (rg_credentials ?g)\<rparr>)"
    if "r \<in> set (rg_operators ?g)" "c \<in> set (rg_credentials ?g)" "is_active_admin r c" "kw_id c \<noteq> cid" for r c "by" m
  proof -
    have "c \<in> set (update_where (\<lambda>r. kw_id r = cid)
      (\<lambda>r. r\<lparr>kw_revoked_at := Some now, kw_revoked_by := by, kw_revoked_reason := m\<rparr>) (rg_credentials ?g))"
      using that by (force simp: set_update_where)
    with that show ?thesis by (auto simp: active_admin_iff)
  qed
  have admin: "ow_role owner = ''admin''" if join: "credential_join ?g cid = Some (k, owner)"
    and only: "\<forall>r \<in> set (rg_operators ?g). \<forall>c \<in> set (rg_credentials ?g). is_active_admin r c \<longrightarrow> kw_id c = cid"
    for k owner
  proof -
    obtain r c where rc: "r \<in> set (rg_operators ?g)" "c \<in> set (rg_credentials ?g)" "is_active_admin r c" "kw_id c = cid"
      using assms(1) only by (auto simp: active_admin_iff)
    then have "k = c" using join reg_ok_find(1) [OF assms(2) rc(2)]
      by (auto simp: credential_join_def split: option.splits)
    then have "owner = r" using join rc reg_ok_find(2) [OF assms(2) rc(1)]
      by (auto simp: credential_join_def is_active_admin_def split: option.splits)
    with rc(3) show ?thesis by (simp add: is_active_admin_def)
  qed
  have others: "\<exists>r \<in> set (rg_operators ?g). \<exists>c \<in> set (rg_credentials ?g). is_active_admin r c \<and> kw_id c \<noteq> cid"
    if "other_admin_keys ?g cid \<noteq> 0"
    using that by (auto simp: other_admin_keys_def filter_empty_conv list_ex_iff)
  have safe: "active_admin (?g\<lparr>rg_credentials := update_where (\<lambda>r. kw_id r = cid)
      (\<lambda>r. r\<lparr>kw_revoked_at := Some now, kw_revoked_by := by, kw_revoked_reason := m\<rparr>) (rg_credentials ?g)\<rparr>)"
    if "credential_join ?g cid = Some (k, owner)" and "ow_role owner = ''admin'' \<longrightarrow> other_admin_keys ?g cid \<noteq> 0"
    for k owner "by" m
    using that admin [of k owner] others stays by blast
  show ?thesis
    unfolding revoke_key_def journal_if_def
    by (auto simp: run ok_or_def intro: safe split: option.split)
qed

text \<open>An action on the register, made by someone who acts with a key in force.\<close>

lemma runs_registry_action_admin:
  assumes "active_admin (w_registry w)" and "reg_ok (w_registry w)" and "acting actor (w_registry w)"
    and "\<And>name role. act = SetRole name role \<Longrightarrow> op_role actor = Admin"
  shows "runs (run_registry_action A act actor now b n) (\<lambda>_ v. active_admin (w_registry v))
     (\<lambda>_ v. active_admin (w_registry v)) w"
proof -
  have quiet: "runs m (\<lambda>_ v. active_admin (w_registry v)) (\<lambda>_ _. True) w"
    if "keeps (on_registry active_admin) m" for m :: "('a, json) act"
    using runs_keeps [OF that, of w] assms(1) by (auto simp: on_registry_def [abs_def] intro: runs_mono)
  have "runs (registry_action A act actor now b n) (\<lambda>_ v. active_admin (w_registry v)) (\<lambda>_ _. True) w"
  proof (cases act)
    case (RevokeKey cid reason)
    then show ?thesis using assms by (simp add: runs_revoke_key_admin)
  next
    case (SetRole name role)
    then show ?thesis using assms by (simp add: runs_set_role_admin)
  qed (auto intro!: quiet pres simp: invite_operator_def confirm_key_def add_operator_def new_invite_def
      new_token_def insert_credential_def split: prod.split)
  then show ?thesis
    unfolding run_registry_action_def runs_transaction runs_bindr runs_ok
    by (rule runs_mono) (use assms(1) in auto)
qed


text \<open>The signatory of an execution acts with a key in force when the effect comes.\<close>

lemma signed_acting:
  assumes c: "checked A w i assertion x now c a act k actor"
    and s: "signed c a act actor k now (w_registry w) g' n (Some ns)"
    and ok: "reg_ok (w_registry w)"
  shows "acting actor g'" and "op_role actor \<in> set (allowed_roles act)"
proof -
  let ?g = "w_registry w"
  from c obtain row r where
    f: "find (\<lambda>r. kw_id r = credential_id (as_raw_id assertion)) (rg_credentials ?g) = Some row"
      "key_from_row A row = Inr k" "find (\<lambda>r. ow_id r = ky_operator k) (rg_operators ?g) = Some r"
    and row: "kw_revoked_at row = None" and r: "operator_of_row r = Some actor"
    unfolding checked_def by blast
  have row: "row \<in> set (rg_credentials ?g)" "kw_revoked_at row = None" "kw_operator row = ky_operator k"
    and r: "r \<in> set (rg_operators ?g)" "ow_id r = ky_operator k" "operator_of_row r = Some actor"
    using findD [OF f(1)] key_from_rowD [OF f(2)] findD [OF f(3)] row r by simp_all
  from r have actor: "op_id actor = ow_id r" "role_parse (ow_role r) = Some (op_role actor)"
    "op_disabled actor = (ow_disabled_at r \<noteq> None)"
    by (auto simp: operator_of_row_def split: option.splits)
  from c have may: "may_sign act actor" by (simp add: checked_def)
  then show "op_role actor \<in> set (allowed_roles act)" by (simp add: may_sign_def)
  obtain m where t: "rg_operators g' = rg_operators ?g" "rg_credentials g' = update_where (\<lambda>r. kw_id r = ky_id k)
      (\<lambda>r. r\<lparr>kw_sign_count := m, kw_last_used_at := Some now\<rparr>) (rg_credentials ?g)"
    using s by (auto simp: signed_def touched_def)
  have "\<exists>c' \<in> set (rg_credentials g'). kw_operator c' = kw_operator row \<and> kw_revoked_at c' = None"
    unfolding t using row by (intro bexI [OF _ update_where_mem [OF row(1)]]) auto
  moreover have "ow_role r = role_text (op_role actor)"
    using actor(2) by (auto simp: role_parse_def split: if_splits)
  ultimately show "acting actor g'"
    unfolding acting_def using r row actor may by (auto simp: t may_sign_def)
qed

lemma keeps_admin_others:
  "keeps (on_registry active_admin) (bootstrap_admin A name ttl now)"
  "keeps (on_registry active_admin) (recover_admin A name why ttl now)"
  "keeps (on_registry active_admin) (begin_registration A token)"
  "keeps (on_registry active_admin) (finish_registration A ceremony att)"
  unfolding bootstrap_admin_def recover_admin_def claim_admin_def expire_invites_def new_invite_def
    new_token_def begin_registration_def finish_registration_def take_registration_def live_invite_def
    active_keys_def consume_invite_def store_key_def insert_credential_def Let_def
  by (auto intro!: pres split: prod.split)


lemma keeps_admin_challenges:
  "keeps (on_registry active_admin) (issue_challenge A S act hint)"
  "keeps (on_registry active_admin) (issue_challenge_for A S n hint)"
  unfolding issue_challenge_def issue_challenge_for_def remember_ceremony_def count_signatures_def Let_def
  by (auto intro!: pres split: prod.split)

lemma signed_admin:
  "signed c a act actor k now g g' n names \<Longrightarrow> active_admin g \<Longrightarrow> active_admin g'"
  using touched_admin by (auto simp: signed_def)

lemma runs_execute_admin:
  fixes w :: "'x oa_world_scheme"
  assumes "active_admin (w_registry w)" and "reg_ok (w_registry w)"
  shows "runs (execute_inner A S i assertion x) (\<lambda>_ v. active_admin (w_registry v))
    (\<lambda>_ v. active_admin (w_registry v)) w"
proof (rule runs_execute_inner)
  fix now c a act k actor n names and u :: "'x oa_world_scheme"
  assume c: "checked A w i assertion x now c a act k actor"
    and ok: "reg_ok (w_registry w) \<Longrightarrow> reg_ok (w_registry u)"
    and s: "signed c a act actor k now (w_registry w) (w_registry u) n names"
  have admin: "active_admin (w_registry u)" by (rule signed_admin [OF s assms(1)])
  show "runs (conclude A S c a act actor k now n names) (\<lambda>_ v. active_admin (w_registry v))
    (\<lambda>_ v. active_admin (w_registry v)) u"
  proof (cases names)
    case (Some ns)
    have acts: "acting actor (w_registry u)" "op_role actor \<in> set (allowed_roles act)"
      using signed_acting [OF c _ assms(2)] s Some by blast+
    have effect: "runs (apply_effect A S act actor ns now m) (\<lambda>_ v. active_admin (w_registry v))
        (\<lambda>_ v. active_admin (w_registry v)) v" if "w_registry v = w_registry u" for m and v :: "'x oa_world_scheme"
    proof -
      have "runs (apply_effect A S act actor ns now m) (\<lambda>_ v. active_admin (w_registry v))
        (\<lambda>_ v. active_admin (w_registry v)) v" if "keeps (on_registry active_admin) (apply_effect A S act actor ns now m :: ('x, json option) act)"
        using runs_keeps [OF that, of v] admin \<open>w_registry v = w_registry u\<close>
        by (simp add: on_registry_def [abs_def])
      moreover have "runs (bindr (run_registry_action A act actor now True m) (\<lambda>result. ok (Some result)))
        (\<lambda>_ v. active_admin (w_registry v)) (\<lambda>_ v. active_admin (w_registry v)) v"
        unfolding runs_bindr
        by (rule runs_mono [OF runs_registry_action_admin])
          (use acts admin ok assms(2) that in \<open>auto simp: runs_ok\<close>)
      ultimately show ?thesis
        by (cases act) (auto intro!: pres)
    qed
    with Some admin show ?thesis
      by (auto simp: conclude_def run Let_def intro!: runs_mono [OF effect])
  qed (simp add: runs_conclude_none admin)
qed (simp add: assms(1))

lemma step_admin:
  assumes "oa_step A S F w v" and "active_admin (w_registry w) \<and> reg_ok (w_registry w)"
  shows "active_admin (w_registry v) \<and> reg_ok (w_registry v)"
proof -
  have kept: "active_admin (w_registry (snd (m w)))" if "keeps (on_registry active_admin) m"
    for m :: "(oa_world, 'e, 'a) res"
    using on_registryD [OF that] assms(2) by blast
  have "active_admin (w_registry (snd (execute_inner A S i assertion x w)))" for i assertion x
    using runs_execute_admin [of w A S i assertion x] assms(2)
    by (auto simp: runs_def split: prod.splits sum.splits)
  with assms(1) have "active_admin (w_registry v)"
    by (cases rule: oa_step.cases)
      (use assms(2) in \<open>auto simp: execute_def execute_expecting_def guard_block_def guard_open_def modify_def
        dest: ra_step_registry intro!: kept keeps_admin_others keeps_admin_challenges\<close>)
  then show ?thesis using constraints.step [OF assms(1)] assms(2) by blast
qed

text \<open>C4. An administrator remains. From a state with an administrator who is not disabled and
  has a key in force, whatever the service does (revoking keys, changing roles, by as many
  signatures as one likes), there is still one.\<close>

theorem an_administrator_remains:
  assumes "oa_steps A S F w v" and "reg_ok (w_registry w)" and "active_admin (w_registry w)"
  shows "active_admin (w_registry v)"
proof -
  from assms have "active_admin (w_registry v) \<and> reg_ok (w_registry v)"
    by (induction rule: rtranclp_induct) (auto dest: step_admin)
  then show ?thesis ..
qed


section \<open>Every key was confirmed by someone else\<close>

definition vouched :: "registry \<Rightarrow> credential_row \<Rightarrow> bool" where
  "vouched g c \<longleftrightarrow> kw_initiated_by c = BOOTSTRAP \<or> kw_confirmed_by c = Some RECOVERY
     \<or> list_ex (\<lambda>r. kw_confirmed_by c = Some (ow_name r) \<and> ow_id r \<noteq> kw_operator c) (rg_operators g)"

definition all_vouched :: "registry \<Rightarrow> bool" where
  "all_vouched g \<longleftrightarrow> list_all (vouched g) (rg_credentials g)"

lemma keeps_vouched [pres]:
  "keeps all_vouched (insert_operator o')" "keeps all_vouched (insert_invite i)"
  "keeps all_vouched (insert_pending p)" "keeps all_vouched (insert_action a)"
  "keeps all_vouched (insert_challenge h)" "keeps all_vouched (insert_evidence e)"
  "keeps all_vouched (modify (\<lambda>g. g\<lparr>rg_invites := f g\<rparr>))"
  "keeps all_vouched (modify (\<lambda>g. g\<lparr>rg_pending := f1 g\<rparr>))"
  "keeps all_vouched (modify (\<lambda>g. g\<lparr>rg_actions := f2 g\<rparr>))"
  "keeps all_vouched (modify (\<lambda>g. g\<lparr>rg_challenges := f3 g\<rparr>))"
  by (auto simp: keeps_runs insert_defs run all_vouched_def vouched_def list_all_iff)

lemma keeps_vouched_updates [pres]:
  "(\<And>r. ow_id (u r) = ow_id r \<and> ow_name (u r) = ow_name r) \<Longrightarrow>
     keeps all_vouched (modify (\<lambda>g. g\<lparr>rg_operators := update_where p u (rg_operators g)\<rparr>))"
  "(\<And>r. kw_operator (v r) = kw_operator r \<and> kw_initiated_by (v r) = kw_initiated_by r
      \<and> kw_confirmed_by (v r) = kw_confirmed_by r) \<Longrightarrow>
     keeps all_vouched (modify (\<lambda>g. g\<lparr>rg_credentials := update_where q v (rg_credentials g)\<rparr>))"
  by (simp_all add: keeps_runs run all_vouched_def vouched_def [abs_def] update_keys)

lemma runs_insert_vouched:
  assumes "all_vouched g" and "vouched g c"
  shows "runs (insert_credential_row c) (\<lambda>_. all_vouched) (\<lambda>_. all_vouched) g"
  using assms by (auto simp: insert_credential_row_def run all_vouched_def vouched_def [abs_def])

text \<open>The operator is one of the register.\<close>

definition enrolled :: "operator \<Rightarrow> registry \<Rightarrow> bool" where
  "enrolled actor g \<longleftrightarrow> (\<exists>r \<in> set (rg_operators g). ow_id r = op_id actor \<and> ow_name r = op_name actor)"

lemma runs_confirm_vouched:
  assumes "all_vouched (w_registry w)" and "enrolled actor (w_registry w)"
  shows "runs (confirm_key A actor now b cid fp) (\<lambda>_ v. all_vouched (w_registry v)) (\<lambda>_ _. True) w"
proof -
  have tail: "runs (bindr (insert_credential A c now) (\<lambda>_.
      bindr (sql (modify (\<lambda>g. g\<lparr>rg_pending := filter q (rg_pending g)\<rparr>))) (\<lambda>_.
      bindr (journal_if b ev data) (\<lambda>_. ok x)))) (\<lambda>_ v. all_vouched (w_registry v)) (\<lambda>_ _. True) w"
    if "nc_operator c \<noteq> op_id actor" and "nc_confirmed_by c = Some (op_name actor)" for c q ev data x
  proof -
    let ?m = "bindr (sql (modify (\<lambda>g. g\<lparr>rg_pending := filter q (rg_pending g)\<rparr>))) (\<lambda>_.
      bindr (journal_if b ev data) (\<lambda>_. ok x))"
    have rest: "runs ?m (\<lambda>_ v. all_vouched (w_registry v)) (\<lambda>_ _. True) v"
      if "all_vouched (w_registry v)" for v :: "'a oa_world_scheme"
      using that by (auto simp: run journal_if_def all_vouched_def vouched_def [abs_def])
    show ?thesis
      unfolding insert_credential_def runs_bindr [of "sql (insert_credential_row row)" for row]
        runs_sql [of "insert_credential_row row" for row]
      by (rule runs_mono [OF runs_insert_vouched])
        (use assms that in \<open>auto simp: vouched_def enrolled_def list_ex_iff intro!: rest\<close>)
  qed
  show ?thesis
    unfolding confirm_key_def
    by (auto simp: runs_bindr [of "lift r" for r] runs_bindr [of "ensure e f" for e f] runs_lift runs_ensure
        runs_bindr [of "query f" for f] runs_query ok_or_def intro!: tail split: option.splits)
qed


lemma keeps_vouched_store_key [pres]: "keeps (on_registry all_vouched) (store_key A i0 passkey aaguid form att now)"
proof -
  have "keeps all_vouched (insert_credential_row row)" if "\<And>g. vouched g row" for row
    using that by (auto simp: keeps_runs runs_insert_vouched)
  then show ?thesis
    unfolding store_key_def insert_credential_def Let_def
    by (auto intro!: pres simp: vouched_def)
qed

lemma keeps_vouched_others:
  "keeps (on_registry all_vouched) (bootstrap_admin A name ttl now)"
  "keeps (on_registry all_vouched) (recover_admin A name why ttl now)"
  "keeps (on_registry all_vouched) (begin_registration A token)"
  "keeps (on_registry all_vouched) (finish_registration A ceremony att)"
  "keeps (on_registry all_vouched) (issue_challenge A S act hint)"
  "keeps (on_registry all_vouched) (issue_challenge_for A S n hint)"
  unfolding bootstrap_admin_def recover_admin_def claim_admin_def expire_invites_def new_invite_def
    new_token_def begin_registration_def finish_registration_def take_registration_def live_invite_def
    active_keys_def consume_invite_def issue_challenge_def issue_challenge_for_def remember_ceremony_def
    count_signatures_def Let_def
  by (auto intro!: pres split: prod.split)

lemma runs_registry_action_vouched:
  assumes "all_vouched (w_registry w)" and "enrolled actor (w_registry w)"
  shows "runs (run_registry_action A act actor now b n) (\<lambda>_ v. all_vouched (w_registry v))
     (\<lambda>_ v. all_vouched (w_registry v)) w"
proof -
  have quiet: "runs m (\<lambda>_ v. all_vouched (w_registry v)) (\<lambda>_ _. True) w"
    if "keeps (on_registry all_vouched) m" for m :: "('a, json) act"
    using runs_keeps [OF that, of w] assms(1) by (auto simp: on_registry_def [abs_def] intro: runs_mono)
  have "runs (registry_action A act actor now b n) (\<lambda>_ v. all_vouched (w_registry v)) (\<lambda>_ _. True) w"
  proof (cases act)
    case (ConfirmKey cid fp)
    then show ?thesis using assms by (simp add: runs_confirm_vouched)
  qed (auto intro!: quiet pres simp: invite_operator_def revoke_key_def set_role_def add_operator_def
      new_invite_def new_token_def Let_def split: prod.split)
  then show ?thesis
    unfolding run_registry_action_def runs_transaction runs_bindr runs_ok
    by (rule runs_mono) (use assms(1) in auto)
qed

lemma signed_enrolled:
  "checked A w i assertion x now c a act k actor \<Longrightarrow> signed c a act actor k now (w_registry w) g' n names \<Longrightarrow>
     enrolled actor g'"
  by (auto simp: checked_def signed_def touched_def enrolled_def operator_of_row_def dest!: findD split: option.splits)

lemma signed_vouched: "signed c a act actor k now g g' n names \<Longrightarrow> all_vouched g \<Longrightarrow> all_vouched g'"
  by (auto simp: signed_def touched_def all_vouched_def vouched_def [abs_def] update_keys)

lemma runs_execute_vouched:
  fixes w :: "'x oa_world_scheme"
  assumes "all_vouched (w_registry w)"
  shows "runs (execute_inner A S i assertion x) (\<lambda>_ v. all_vouched (w_registry v))
    (\<lambda>_ v. all_vouched (w_registry v)) w"
proof (rule runs_execute_inner)
  fix now c a act k actor n names and u :: "'x oa_world_scheme"
  assume c: "checked A w i assertion x now c a act k actor"
    and s: "signed c a act actor k now (w_registry w) (w_registry u) n names"
  have here: "all_vouched (w_registry u)" "enrolled actor (w_registry u)"
    by (rule signed_vouched [OF s assms], rule signed_enrolled [OF c s])
  have effect: "runs (apply_effect A S act actor ns now m) (\<lambda>_ v. all_vouched (w_registry v))
      (\<lambda>_ v. all_vouched (w_registry v)) v" if "w_registry v = w_registry u" for ns m and v :: "'x oa_world_scheme"
  proof -
    have "runs (apply_effect A S act actor ns now m) (\<lambda>_ v. all_vouched (w_registry v))
      (\<lambda>_ v. all_vouched (w_registry v)) v"
      if "keeps (on_registry all_vouched) (apply_effect A S act actor ns now m :: ('x, json option) act)"
      using runs_keeps [OF that, of v] here(1) \<open>w_registry v = w_registry u\<close>
      by (simp add: on_registry_def [abs_def])
    moreover have "runs (bindr (run_registry_action A act actor now True m) (\<lambda>result. ok (Some result)))
      (\<lambda>_ v. all_vouched (w_registry v)) (\<lambda>_ v. all_vouched (w_registry v)) v"
      unfolding runs_bindr
      by (rule runs_mono [OF runs_registry_action_vouched]) (use here that in \<open>auto simp: runs_ok\<close>)
    ultimately show ?thesis
      by (cases act) (auto intro!: pres)
  qed
  show "runs (conclude A S c a act actor k now n names) (\<lambda>_ v. all_vouched (w_registry v))
    (\<lambda>_ v. all_vouched (w_registry v)) u"
    using here by (auto simp: conclude_def run Let_def intro!: runs_mono [OF effect] split: option.split)
qed (simp add: assms)

lemma step_vouched:
  assumes "oa_step A S F w v" and "all_vouched (w_registry w)"
  shows "all_vouched (w_registry v)"
proof -
  have kept: "all_vouched (w_registry (snd (m w)))" if "keeps (on_registry all_vouched) m"
    for m :: "(oa_world, 'e, 'a) res"
    using on_registryD [OF that] assms(2) by blast
  have "all_vouched (w_registry (snd (execute_inner A S i assertion x w)))" for i assertion x
    using runs_execute_vouched [OF assms(2), of A S i assertion x]
    by (auto simp: runs_def split: prod.splits sum.splits)
  with assms(1) show ?thesis
    by (cases rule: oa_step.cases)
      (use assms(2) in \<open>auto simp: execute_def execute_expecting_def guard_block_def guard_open_def modify_def
        dest: ra_step_registry intro!: kept keeps_vouched_others\<close>)
qed

text \<open>C5. No key by its owner alone. From an empty register on, every key that it holds entered
  with an invitation of the bootstrap, or is marked as a recovery, or was confirmed under the name
  of an operator of the register who is not its owner.\<close>

theorem every_key_is_vouched_for:
  assumes "oa_steps A S F w v" and "w_registry w = registry_new"
  shows "\<forall>c \<in> set (rg_credentials (w_registry v)). kw_initiated_by c = BOOTSTRAP
    \<or> kw_confirmed_by c = Some RECOVERY
    \<or> (\<exists>r \<in> set (rg_operators (w_registry v)). kw_confirmed_by c = Some (ow_name r) \<and> ow_id r \<noteq> kw_operator c)"
proof -
  have "all_vouched (w_registry w)" by (simp add: assms(2) registry_new_def all_vouched_def)
  with assms(1) have "all_vouched (w_registry v)"
    by (induction rule: rtranclp_induct) (auto dest: step_vouched)
  then show ?thesis by (simp add: all_vouched_def vouched_def list_all_iff list_ex_iff)
qed

end
