(* ===== verification/Replay_Spec.thy ===== *)
theory Replay_Spec
  imports Service_Steps
begin

text \<open>
  The journal determines the registry: whatever the service did, replaying its journal
  gives back the keys, their revocations and the roles of the registry, so that
  \<open>find_divergences\<close> finds nothing; and \<open>reconcile\<close> brings a registry that was restored
  back to what the journal attests.
\<close>

section \<open>The registry as the journal sees it\<close>

definition key_view :: "registry \<Rightarrow> string \<Rightarrow> bool option" where
  "key_view g i = map_option (\<lambda>c. kw_revoked_at c \<noteq> None) (find (\<lambda>c. kw_id c = i) (rg_credentials g))"

definition role_view :: "registry \<Rightarrow> string \<Rightarrow> string option" where
  "role_view g n = map_option ow_role (find (\<lambda>o'. ow_name o' = n) (rg_operators g))"

definition replay_keys :: "replay \<Rightarrow> string \<Rightarrow> bool option" where
  "replay_keys r i = map_option kf_revoked (bt_get (rp_keys r) i)"

definition agrees :: "registry \<Rightarrow> replay \<Rightarrow> bool" where
  "agrees g r \<longleftrightarrow> bt_ok (rp_keys r) \<and> bt_ok (rp_roles r)
     \<and> replay_keys r = key_view g \<and> bt_get (rp_roles r) = role_view g"

lemma from_events_snoc [simp]: "from_events (es @ [e]) = replay_event e (from_events es)"
  by (simp add: from_events_def)

lemma agrees_new: "agrees registry_new (from_events [])"
  by (simp add: agrees_def from_events_def replay_new_def registry_new_def replay_keys_def
      key_view_def role_view_def fun_eq_iff)

lemma agrees_no_divergence:
  assumes "agrees g r"
  shows "divergences g r = []"
proof -
  have "key_divergence g r (i, f) = []" if "(i, f) \<in> set (rp_keys r)" for i f
  proof -
    have "bt_get (rp_keys r) i = Some f" using assms that by (simp add: agrees_def bt_get_iff)
    then have "key_view g i = Some (kf_revoked f)"
      using assms by (auto simp: agrees_def replay_keys_def fun_eq_iff dest: spec [of _ i])
    then show ?thesis
      by (auto simp: key_divergence_def key_view_def split: bool.split option.split)
  qed
  moreover have "role_divergence g (n, role) = []" if "(n, role) \<in> set (rp_roles r)" for n role
  proof -
    have "role_view g n = Some role" using assms that by (simp add: agrees_def bt_get_iff [symmetric])
    then show ?thesis by (auto simp: role_divergence_def role_view_def)
  qed
  ultimately show ?thesis by (auto simp: divergences_def)
qed

lemma agrees_frame:
  "key_view g' = key_view g \<Longrightarrow> role_view g' = role_view g \<Longrightarrow> agrees g' r = agrees g r"
  by (simp add: agrees_def)

section \<open>The views after a change\<close>

lemma views_other [simp]:
  "key_view (g\<lparr>rg_operators := os\<rparr>) = key_view g" "role_view (g\<lparr>rg_credentials := cs\<rparr>) = role_view g"
  "key_view (g\<lparr>rg_invites := is\<rparr>) = key_view g" "role_view (g\<lparr>rg_invites := is\<rparr>) = role_view g"
  "key_view (g\<lparr>rg_pending := ps\<rparr>) = key_view g" "role_view (g\<lparr>rg_pending := ps\<rparr>) = role_view g"
  "key_view (g\<lparr>rg_actions := as\<rparr>) = key_view g" "role_view (g\<lparr>rg_actions := as\<rparr>) = role_view g"
  "key_view (g\<lparr>rg_challenges := hs\<rparr>) = key_view g" "role_view (g\<lparr>rg_challenges := hs\<rparr>) = role_view g"
  "key_view (g\<lparr>rg_evidence := es\<rparr>) = key_view g" "role_view (g\<lparr>rg_evidence := es\<rparr>) = role_view g"
  by (simp_all add: key_view_def role_view_def fun_eq_iff)

lemma key_view_add:
  "key_view g (kw_id c) = None \<Longrightarrow>
     key_view (g\<lparr>rg_credentials := rg_credentials g @ [c]\<rparr>) = (key_view g)(kw_id c \<mapsto> kw_revoked_at c \<noteq> None)"
  by (auto simp: key_view_def fun_eq_iff find_append split: option.split)

lemma role_view_add:
  "role_view g (ow_name o') = None \<Longrightarrow>
     role_view (g\<lparr>rg_operators := rg_operators g @ [o']\<rparr>) = (role_view g)(ow_name o' \<mapsto> ow_role o')"
  by (auto simp: role_view_def fun_eq_iff find_append split: option.split)

lemma find_key: "find (\<lambda>r. k r = i) rows = Some r \<Longrightarrow> k r = i"
  by (auto simp: find_Some_iff)

lemma key_view_touch [simp]:
  "key_view (g\<lparr>rg_credentials := update_where p (\<lambda>r. r\<lparr>kw_sign_count := n, kw_last_used_at := t\<rparr>)
     (rg_credentials g)\<rparr>) = key_view g"
proof
  fix j
  show "key_view (g\<lparr>rg_credentials := update_where p (\<lambda>r. r\<lparr>kw_sign_count := n, kw_last_used_at := t\<rparr>)
     (rg_credentials g)\<rparr>) j = key_view g j"
    by (cases "find (\<lambda>c. kw_id c = j) (rg_credentials g)") (simp_all add: key_view_def find_update_where)
qed

lemma key_view_revoke:
  assumes "key_view g i \<noteq> None"
  shows "key_view (g\<lparr>rg_credentials := update_where (\<lambda>r. kw_id r = i)
      (\<lambda>r. r\<lparr>kw_revoked_at := Some t, kw_revoked_by := b, kw_revoked_reason := m\<rparr>) (rg_credentials g)\<rparr>)
    = (key_view g)(i \<mapsto> True)"
proof
  fix j
  show "key_view (g\<lparr>rg_credentials := update_where (\<lambda>r. kw_id r = i)
      (\<lambda>r. r\<lparr>kw_revoked_at := Some t, kw_revoked_by := b, kw_revoked_reason := m\<rparr>) (rg_credentials g)\<rparr>) j
    = ((key_view g)(i \<mapsto> True)) j"
    using assms
    by (cases "find (\<lambda>c. kw_id c = j) (rg_credentials g)")
      (auto simp: key_view_def find_update_where dest: find_key)
qed

lemma role_view_update:
  "role_view (g\<lparr>rg_operators := update_where (\<lambda>r. ow_name r = n) (\<lambda>r. r\<lparr>ow_role := role\<rparr>)
     (rg_operators g)\<rparr>) = (if role_view g n = None then role_view g else (role_view g)(n \<mapsto> role))"
proof
  fix m
  show "role_view (g\<lparr>rg_operators := update_where (\<lambda>r. ow_name r = n) (\<lambda>r. r\<lparr>ow_role := role\<rparr>)
     (rg_operators g)\<rparr>) m = (if role_view g n = None then role_view g else (role_view g)(n \<mapsto> role)) m"
    by (cases "find (\<lambda>c. ow_name c = m) (rg_operators g)")
      (auto simp: role_view_def find_update_where dest: find_key)
qed

section \<open>What an event adds to the replay\<close>

lemma agrees_owner:
  assumes "agrees g r" and "key_view g i = None" and "key_view g' = (key_view g)(i \<mapsto> False)"
    and "role_view g' = role_view g"
    and "text_field data ''credential_id'' = Some i" and "text_field data ''operateur'' = Some name"
  shows "agrees g' (note_owner data r)"
proof -
  have "bt_get (rp_keys r) i = None"
    using assms(1,2) by (auto simp: agrees_def replay_keys_def fun_eq_iff dest: spec [of _ i])
  then show ?thesis
    using assms by (auto simp: agrees_def note_owner_def replay_keys_def facts_of_def fun_eq_iff)
qed

lemma agrees_revoked:
  assumes "agrees g r" and "key_view g' = (key_view g)(i \<mapsto> True)" and "role_view g' = role_view g"
    and "text_field data ''credential_id'' = Some i"
  shows "agrees g' (note_revoked data r)"
  using assms by (auto simp: agrees_def note_revoked_def replay_keys_def fun_eq_iff Let_def)

lemma agrees_role:
  assumes "agrees g r" and "key_view g' = key_view g" and "role_view g' = (role_view g)(n \<mapsto> role)"
    and "text_field data ''operateur'' = Some n" and "text_field data field = Some role"
  shows "agrees g' (note_role field data r)"
  using assms by (auto simp: agrees_def note_role_def replay_keys_def fun_eq_iff)

lemma agrees_admin:
  assumes "agrees g r" and "key_view g' = key_view g" and "role_view g' = (role_view g)(n \<mapsto> ''admin'')"
    and "role_view g n \<in> {None, Some ''admin''}" and "text_field data ''operateur'' = Some n"
  shows "agrees g' (note_admin data r)"
  using assms by (auto simp: agrees_def note_admin_def replay_keys_def fun_eq_iff split: option.split)

section \<open>The handlers\<close>

abbreviation entries :: "'x ca_world_scheme \<Rightarrow> (string \<times> json) list" where
  "entries w \<equiv> j_entries (w_journal w)"

abbreviation replayed :: "'x ca_world_scheme \<Rightarrow> replay" where
  "replayed w \<equiv> from_events (entries w)"

definition attested :: "'x oa_world_scheme \<Rightarrow> bool" where
  "attested w \<longleftrightarrow> reg_ok (w_registry w) \<and> agrees (w_registry w) (replayed w)"

text \<open>A pending key is filed under its own identifier.\<close>

definition filed :: "act_deps \<Rightarrow> registry \<Rightarrow> bool" where
  "filed A g \<longleftrightarrow> list_all (\<lambda>p. pw_id p = credential_id (wa_cred_id (ad_webauthn A) (pw_passkey p))) (rg_pending g)"

text \<open>Nothing journaled, nothing changed that the replay would see.\<close>

definition calm :: "'x oa_world_scheme \<Rightarrow> 'x oa_world_scheme \<Rightarrow> bool" where
  "calm w v \<longleftrightarrow> replayed v = replayed w \<and> (\<forall>A. filed A (w_registry w) \<longrightarrow> filed A (w_registry v))
     \<and> (reg_ok (w_registry w) \<longrightarrow> reg_ok (w_registry v))
     \<and> key_view (w_registry v) = key_view (w_registry w)
     \<and> role_view (w_registry v) = role_view (w_registry w)"

lemma calm_refl [simp]: "calm w w"
  by (simp add: calm_def)

lemma calm_attested: "calm w v \<Longrightarrow> attested w \<Longrightarrow> attested v"
  by (auto simp: calm_def attested_def agrees_def)

lemma keeps_calm_world [pres]:
  "keeps (calm w) now_utc" "keeps (calm w) (fill_bytes n)" "keeps (calm w) (query f)"
  "keeps (calm w) (new_uuid A)" "keeps (calm w) (gets h)" "keeps (calm w) ensure_open"
  "keeps (calm w) (on_store m)"
  by (simp_all add: keeps_runs run calm_def split: option.split)
    (simp add: runs_def split: prod.split sum.split)

definition unseen :: "registry \<Rightarrow> registry \<Rightarrow> bool" where
  "unseen g g' \<longleftrightarrow> (\<forall>A. filed A g \<longrightarrow> filed A g') \<and> (reg_ok g \<longrightarrow> reg_ok g') \<and> key_view g' = key_view g \<and> role_view g' = role_view g"

lemma unseen_refl [simp]: "unseen g g"
  by (simp add: unseen_def)

lemma keeps_calm_sql [pres]:
  assumes "\<And>g. runs m (\<lambda>_. unseen g) (\<lambda>_. unseen g) g"
  shows "keeps (calm w) (sql m)"
  unfolding keeps_runs runs_sql
proof (intro allI impI)
  fix v :: "'b oa_world_scheme"
  assume "calm w v"
  then show "runs m (\<lambda>x g. calm w (v\<lparr>w_registry := g\<rparr>)) (\<lambda>e g. calm w (v\<lparr>w_registry := g\<rparr>)) (w_registry v)"
    by (intro runs_mono [OF assms]) (auto simp: calm_def unseen_def)
qed

lemma reg_ok_invites [simp]: "reg_ok (g\<lparr>rg_invites := is\<rparr>) = reg_ok g"
  by (simp add: reg_ok_def has_operator_def)

lemma keeps_calm_invites [pres]:
  "keeps (calm w) (expire_invites i now)" "keeps (calm w) (new_invite A i by ttl now)"
  unfolding expire_invites_def new_invite_def new_token_def insert_invite_def
  by (auto intro!: pres simp: run unseen_def filed_def)

lemma transaction_attested:
  assumes "attested w"
    and "runs body (\<lambda>(commit, x) v. if commit then attested v else replayed v = replayed w)
           (\<lambda>_ v. replayed v = replayed w) w"
  shows "runs (transaction body) (\<lambda>_. attested) (\<lambda>_. attested) w"
  unfolding runs_transaction
  by (rule runs_mono [OF assms(2)]) (use assms(1) in \<open>auto simp: attested_def\<close>)

text \<open>The steps of a handler run one after the other.\<close>

lemma runs_then:
  "runs m (\<lambda>x v. runs (k x) Q E v) E w \<Longrightarrow> runs (bindr m k) Q E w"
  by (simp add: runs_bindr)

lemma runs_calm_then:
  assumes "keeps (calm w) m" and "calm w u" and "\<And>x v. calm w v \<Longrightarrow> runs (k x) Q E v"
    and "\<And>e v. calm w v \<Longrightarrow> E e v"
  shows "runs (bindr m k) Q E u"
  unfolding runs_bindr by (rule runs_mono [OF runs_keeps [OF assms(1,2)]]) (use assms in blast)+

text \<open>The events the replay does not read.\<close>

definition neutral :: "string \<Rightarrow> bool" where
  "neutral event \<longleftrightarrow> event \<notin> {''operators.credential_registered'', ''operators.key_confirmed'',
     ''operators.key_revoked'', ''operators.invited'', ''operators.bootstrap_admin_invited'',
     ''operators.admin_recovery'', ''operators.role_changed'', ''operators.reconciled''}"

lemma replay_neutral [simp]: "neutral event \<Longrightarrow> replay_event (event, data) r = r"
  by (auto simp: neutral_def replay_event_def)

lemma keeps_calm_journal [pres]:
  "neutral event \<Longrightarrow> keeps (calm w) (journal_append event data)"
  "neutral event \<Longrightarrow> keeps (calm w) (journal event data)"
  by (auto simp: keeps_runs run calm_def)

text \<open>Journaling an event that the replay reads.\<close>

lemma runs_journal_attested:
  assumes "agrees (w_registry w) (replay_event (event, data) (replayed w))"
    and "reg_ok (w_registry w)" and "replayed w = es"
  shows "runs (journal event data) (\<lambda>_. attested) (\<lambda>_ v. replayed v = es) w"
  using assms by (auto simp: run attested_def)

lemma role_view_None: "role_view g n = None \<longleftrightarrow> (\<forall>r \<in> set (rg_operators g). ow_name r \<noteq> n)"
  by (auto simp: role_view_def find_None_iff)

lemma runs_claim_admin:
  assumes "reg_ok (w_registry w)"
  shows "runs (claim_admin A name by now)
    (\<lambda>_ v. replayed v = replayed w \<and> reg_ok (w_registry v) \<and> key_view (w_registry v) = key_view (w_registry w)
       \<and> role_view (w_registry v) = (role_view (w_registry w))(name \<mapsto> ''admin'')
       \<and> role_view (w_registry w) name \<in> {None, Some ''admin''})
    (\<lambda>_ v. replayed v = replayed w) w"
proof -
  have added: "runs (insert_operator row) (\<lambda>_ g. reg_ok g \<and> key_view g = key_view (w_registry w)
       \<and> role_view g = (role_view (w_registry w))(ow_name row \<mapsto> ow_role row)) (\<lambda>_ _. True) (w_registry w)" for row
  proof -
    have "runs (insert_operator row) (\<lambda>_. reg_ok) (\<lambda>_. reg_ok) (w_registry w)"
      by (rule runs_keeps) (simp_all add: pres assms)
    then show ?thesis by (auto simp: run role_view_add role_view_None split: if_splits)
  qed
  show ?thesis
  proof (cases "find (\<lambda>r. ow_name r = name) (rg_operators (w_registry w))")
    case None
    then have "role_view (w_registry w) name = None" by (simp add: role_view_def)
    with None show ?thesis
      unfolding claim_admin_def
      by (auto simp: runs_bindr runs_query runs_ok runs_new_uuid runs_fill_bytes runs_sql
          intro!: runs_mono [OF added])
  next
    case (Some row)
    then have "role_view (w_registry w) name = Some (ow_role row)" by (simp add: role_view_def)
    with Some show ?thesis unfolding claim_admin_def by (auto simp: run assms fun_upd_triv)
  qed
qed


definition committed :: "'x oa_world_scheme \<Rightarrow> bool \<times> 'a \<Rightarrow> 'x oa_world_scheme \<Rightarrow> bool" where
  "committed w = (\<lambda>(commit, x) v. if commit then attested v else replayed v = replayed w)"

definition unread :: "'x oa_world_scheme \<Rightarrow> 'e \<Rightarrow> 'x oa_world_scheme \<Rightarrow> bool" where
  "unread w = (\<lambda>_ v. replayed v = replayed w)"

lemma transaction_committed:
  "attested w \<Longrightarrow> runs body (committed w) (unread w) w \<Longrightarrow>
     runs (transaction body) (\<lambda>_. attested) (\<lambda>_. attested) w"
  by (rule transaction_attested) (simp_all add: committed_def unread_def)

lemma runs_commit:
  assumes "replayed u = replayed w" and "reg_ok (w_registry u)"
    and "agrees (w_registry u) (replay_event (event, data) (replayed w))"
  shows "runs (bindr (journal event data) (\<lambda>_. ok (True, x))) (committed w) (unread w) u"
  using assms by (auto simp: run attested_def committed_def unread_def)

definition admin_event :: "string \<Rightarrow> bool" where
  "admin_event event \<longleftrightarrow> event \<in> {''operators.bootstrap_admin_invited'', ''operators.admin_recovery''}"

lemma replay_admin: "admin_event event \<Longrightarrow> replay_event (event, data) r = note_admin data r"
  by (auto simp: admin_event_def replay_event_def)

lemma runs_invite_admin:
  assumes "attested w" and "admin_event event" and "\<And>x. text_field (data x) ''operateur'' = Some name"
    and v: "replayed v = replayed w \<and> reg_ok (w_registry v) \<and> key_view (w_registry v) = key_view (w_registry w)
       \<and> role_view (w_registry v) = (role_view (w_registry w))(name \<mapsto> ''admin'')
       \<and> role_view (w_registry w) name \<in> {None, Some ''admin''}"
  shows "runs (bindr (expire_invites i now) (\<lambda>_. bindr (new_invite A i by ttl now) (\<lambda>invite.
      bindr (journal event (data invite)) (\<lambda>_. ok (True, invite)))))
      (committed w) (unread w) v"
proof (rule runs_calm_then [OF keeps_calm_invites(1) calm_refl], rule runs_calm_then [OF keeps_calm_invites(2)])
  fix u :: "'a oa_world_scheme" and x
  assume u: "calm v u"
  have "agrees (w_registry u) (replay_event (event, data x) (replayed w))"
    unfolding replay_admin [OF assms(2)]
    by (rule agrees_admin [of "w_registry w"]) (use assms u in \<open>auto simp: calm_def attested_def\<close>)
  then show "runs (bindr (journal event (data x)) (\<lambda>_. ok (True, x))) (committed w)
      (unread w) u"
    using u v by (intro runs_commit) (auto simp: calm_def)
qed (use v in \<open>auto simp: calm_def unread_def\<close>)

lemma runs_bootstrap_attested:
  assumes "attested w"
  shows "runs (bootstrap_admin A name ttl now) (\<lambda>_. attested) (\<lambda>_. attested) w"
proof -
  have "runs (bindr (query active_admin) (\<lambda>active.
       bindr (if active then
           bindr (attempt (journal_append ''operators.bootstrap_admin_refused'' data)) (\<lambda>_.
           fail (Denied ActiveAdminExists))
         else ok ()) (\<lambda>_.
       bindr (claim_admin A name BOOTSTRAP now) (\<lambda>i.
       bindr (expire_invites i now) (\<lambda>_.
       bindr (new_invite A i BOOTSTRAP ttl now) (\<lambda>invite.
       bindr (journal ''operators.bootstrap_admin_invited'' (data' i invite)) (\<lambda>_. ok (True, invite))))))))
     (committed w) (unread w) w"
    if "\<And>i x. text_field (data' i x) ''operateur'' = Some name"
    for data and data' :: "uuid \<Rightarrow> invite \<Rightarrow> json"
    using assms that
    by (auto simp: attested_def [of w] unread_def [of w] runs_bindr [of "query f" for f] runs_bindr [of "if b then m else n" for b m n]
        runs_bindr [of "attempt m" for m] runs_bindr [of "claim_admin A name by now" for "by"]
        runs_query runs_if runs_ok runs_fail runs_attempt runs_journal_append neutral_def
        intro!: runs_mono [OF runs_claim_admin] runs_invite_admin [OF assms, unfolded unread_def] simp: admin_event_def)
  then show ?thesis
    unfolding bootstrap_admin_def
    by (auto simp: runs_bindr [of "lift r" for r] runs_bindr [of "ensure b e" for b e] runs_lift runs_ensure
        assms text_field_def intro!: transaction_committed [OF assms])
qed

lemma runs_recover_attested:
  assumes "attested w"
  shows "runs (recover_admin A name why ttl now) (\<lambda>_. attested) (\<lambda>_. attested) w"
proof -
  have "runs (bindr (query h) (\<lambda>n.
       bindr (claim_admin A name RECOVERY now) (\<lambda>i.
       bindr (expire_invites i now) (\<lambda>_.
       bindr (new_invite A i RECOVERY ttl now) (\<lambda>invite.
       bindr (journal ''operators.admin_recovery'' (data n i invite)) (\<lambda>_. ok (True, invite)))))))
     (committed w) (unread w) w"
    if "\<And>n i x. text_field (data n i x) ''operateur'' = Some name"
    for h and data :: "nat \<Rightarrow> uuid \<Rightarrow> invite \<Rightarrow> json"
    using assms that
    by (auto simp: attested_def [of w] unread_def [of w] runs_bindr [of "query f" for f]
        runs_bindr [of "claim_admin A name by now" for "by"] runs_query
        intro!: runs_mono [OF runs_claim_admin] runs_invite_admin [OF assms, unfolded unread_def]
        simp: admin_event_def)
  then show ?thesis
    unfolding recover_admin_def
    by (auto simp: runs_bindr [of "lift r" for r] runs_bindr [of "ensure b e" for b e] runs_lift runs_ensure
        assms text_field_def Let_def intro!: transaction_committed [OF assms])
qed

text \<open>An action on the registry, played (\<open>b\<close>) or rolled back.\<close>

definition played :: "bool \<Rightarrow> 'x oa_world_scheme \<Rightarrow> 'a \<Rightarrow> 'x oa_world_scheme \<Rightarrow> bool" where
  "played b w = (\<lambda>_ v. if b then attested v else replayed v = replayed w)"

lemma runs_play:
  assumes "replayed u = replayed w" and "reg_ok (w_registry u)"
    and "agrees (w_registry u) (replay_event (event, data) (replayed w))"
  shows "runs (bindr (journal_if b event data) (\<lambda>_. ok x)) (played b w) (unread w) u"
  using assms by (auto simp: journal_if_def run attested_def played_def unread_def)

lemma runs_run_registry_action:
  assumes "attested w" and "runs (registry_action A act actor now b n) (played b w) (unread w) w"
  shows "runs (run_registry_action A act actor now b n) (\<lambda>_. attested) (\<lambda>_. attested) w"
  unfolding run_registry_action_def
proof (rule transaction_committed [OF assms(1)])
  show "runs (bindr (registry_action A act actor now b n) (\<lambda>result. ok (b, result))) (committed w) (unread w) w"
    unfolding runs_bindr by (rule runs_mono [OF assms(2)]) (auto simp: run committed_def played_def)
qed

lemma runs_add_operator:
  assumes "attested w" and "role_view (w_registry w) name = None"
  shows "runs (add_operator A name role by now)
    (\<lambda>_ v. replayed v = replayed w \<and> reg_ok (w_registry v) \<and> key_view (w_registry v) = key_view (w_registry w)
       \<and> role_view (w_registry v) = (role_view (w_registry w))(name \<mapsto> role_text role))
    (unread w) w"
proof -
  have "runs (insert_operator row) (\<lambda>_ g. reg_ok g \<and> key_view g = key_view (w_registry w)
       \<and> role_view g = (role_view (w_registry w))(ow_name row \<mapsto> ow_role row)) (\<lambda>_ _. True) (w_registry w)"
    if "ow_name row = name" for row
  proof -
    have "runs (insert_operator row) (\<lambda>_. reg_ok) (\<lambda>_. reg_ok) (w_registry w)"
      by (rule runs_keeps) (use assms in \<open>simp_all add: pres attested_def\<close>)
    then show ?thesis using that assms(2) by (auto simp: run role_view_add role_view_None split: if_splits)
  qed
  note added = this
  show ?thesis
    unfolding add_operator_def
    by (auto simp: runs_bindr runs_new_uuid runs_fill_bytes runs_sql runs_ok unread_def
        intro!: runs_mono [OF added])
qed

lemma runs_invite_played:
  assumes "attested w"
  shows "runs (invite_operator A actor now b n name role ttl) (played b w) (unread w) w"
proof -
  have tail: "runs (bindr (new_invite A i by t now) (\<lambda>invite.
      bindr (journal_if b ''operators.invited'' (data invite)) (\<lambda>_. ok (f invite))))
      (played b w) (unread w) v"
    if v: "replayed v = replayed w \<and> reg_ok (w_registry v) \<and> key_view (w_registry v) = key_view (w_registry w)
       \<and> role_view (w_registry v) = (role_view (w_registry w))(name \<mapsto> role_text role)"
      and d: "\<And>x. text_field (data x) ''operateur'' = Some name \<and> text_field (data x) ''role'' = Some (role_text role)"
    for i "by" t v and data :: "invite \<Rightarrow> json" and f :: "invite \<Rightarrow> json"
  proof (rule runs_calm_then [OF keeps_calm_invites(2) calm_refl])
    fix x and u :: "'a oa_world_scheme"
    assume u: "calm v u"
    have "agrees (w_registry u) (note_role ''role'' (data x) (replayed w))"
      by (rule agrees_role [of "w_registry w"]) (use assms u v d in \<open>auto simp: calm_def attested_def\<close>)
    then show "runs (bindr (journal_if b ''operators.invited'' (data x)) (\<lambda>_. ok (f x)))
        (played b w) (unread w) u"
      using u v by (intro runs_play) (auto simp: calm_def replay_event_def)
  qed (use v in \<open>auto simp: calm_def unread_def\<close>)
  have free: "role_view (w_registry w) name = None" if "\<forall>r \<in> set (rg_operators (w_registry w)). ow_name r \<noteq> name"
    using that by (simp add: role_view_None)
  show ?thesis
    unfolding invite_operator_def
    by (auto simp: runs_bindr [of "lift r" for r] runs_bindr [of "ensure e f" for e f] runs_lift runs_ensure
        runs_bindr [of "query f" for f] runs_query runs_bindr [of "add_operator A name role by now" for "by"]
        list_ex_iff unread_def [of w] text_field_def
        intro!: runs_mono [OF runs_add_operator [OF assms free, unfolded unread_def]] tail [unfolded unread_def])
qed


lemma runs_insert_credential:
  assumes "reg_ok (w_registry w)"
  shows "runs (insert_credential A c now)
    (\<lambda>_ v. replayed v = replayed w \<and> reg_ok (w_registry v) \<and> role_view (w_registry v) = role_view (w_registry w)
       \<and> key_view (w_registry w) (credential_id (wa_cred_id (ad_webauthn A) (nc_passkey c))) = None
       \<and> key_view (w_registry v) = (key_view (w_registry w))
           (credential_id (wa_cred_id (ad_webauthn A) (nc_passkey c)) \<mapsto> False))
    (unread w) w"
proof -
  have "runs (insert_credential_row row) (\<lambda>_ g. reg_ok g \<and> role_view g = role_view (w_registry w)
       \<and> key_view (w_registry w) (kw_id row) = None
       \<and> key_view g = (key_view (w_registry w))(kw_id row \<mapsto> kw_revoked_at row \<noteq> None))
     (\<lambda>_ _. True) (w_registry w)" for row
  proof -
    have "runs (insert_credential_row row) (\<lambda>_. reg_ok) (\<lambda>_. reg_ok) (w_registry w)"
      by (rule runs_keeps) (simp_all add: pres assms)
    moreover have "key_view (w_registry w) (kw_id row) = None
        \<longleftrightarrow> (\<forall>r \<in> set (rg_credentials (w_registry w)). kw_id r \<noteq> kw_id row)"
      by (auto simp: key_view_def find_None_iff)
    ultimately show ?thesis
      by (auto simp: insert_credential_row_def run list_ex_iff key_view_add)
  qed
  note added = this
  show ?thesis
    unfolding insert_credential_def runs_sql
    by (auto simp: unread_def intro!: runs_mono [OF added])
qed

lemma reg_ok_pending [simp]: "reg_ok (g\<lparr>rg_pending := ps\<rparr>) = reg_ok g"
  by (simp add: reg_ok_def has_operator_def)

lemma pending_joinD:
  "pending_join g cid = Some (p, i, owner) \<Longrightarrow> p \<in> set (rg_pending g) \<and> pw_id p = cid
     \<and> owner \<in> set (rg_operators g) \<and> ow_id owner = pw_operator p"
  by (auto simp: pending_join_def find_Some_iff split: option.splits)

lemma runs_confirm_played:
  assumes "attested w" and "filed A (w_registry w)"
  shows "runs (confirm_key A actor now b cid fp) (played b w) (unread w) w"
proof -
  have tail: "runs (bindr (insert_credential A c now) (\<lambda>_.
      bindr (sql (modify (\<lambda>g. g\<lparr>rg_pending := filter q (rg_pending g)\<rparr>))) (\<lambda>_.
      bindr (journal_if b ''operators.key_confirmed'' data) (\<lambda>_. ok x))))
      (played b w) (unread w) w"
    if "text_field data ''credential_id'' = Some (credential_id (wa_cred_id (ad_webauthn A) (nc_passkey c)))"
      and "text_field data ''operateur'' = Some name" for c q data x name
    unfolding runs_bindr [of "insert_credential A c now"]
  proof (rule runs_mono [OF runs_insert_credential])
    show "reg_ok (w_registry w)" using assms(1) by (simp add: attested_def)
    fix y and v :: "'a oa_world_scheme"
    assume v: "replayed v = replayed w \<and> reg_ok (w_registry v) \<and> role_view (w_registry v) = role_view (w_registry w)
       \<and> key_view (w_registry w) (credential_id (wa_cred_id (ad_webauthn A) (nc_passkey c))) = None
       \<and> key_view (w_registry v) = (key_view (w_registry w))
           (credential_id (wa_cred_id (ad_webauthn A) (nc_passkey c)) \<mapsto> False)"
    then have "agrees (w_registry v) (note_owner data (replayed w))"
      using assms(1) that by (intro agrees_owner) (auto simp: attested_def)
    with v show "runs (bindr (sql (modify (\<lambda>g. g\<lparr>rg_pending := filter q (rg_pending g)\<rparr>))) (\<lambda>_.
      bindr (journal_if b ''operators.key_confirmed'' data) (\<lambda>_. ok x)))
      (played b w) (unread w) v"
      unfolding runs_bindr [of "sql m" for m] runs_sql runs_modify
      by (intro runs_play) (simp_all add: replay_event_def agrees_def)
  qed simp
  have own: "cid = credential_id (wa_cred_id (ad_webauthn A) (pw_passkey p))"
    if "pending_join (w_registry w) cid = Some (p, i, owner)" for p i owner
    using assms(2) pending_joinD [OF that] by (auto simp: filed_def list_all_iff)
  show ?thesis
    unfolding confirm_key_def
    by (auto simp: runs_bindr [of "lift r" for r] runs_bindr [of "ensure e f" for e f] runs_lift runs_ensure
        runs_bindr [of "query f" for f] runs_query ok_or_def unread_def [of w] text_field_def own
        intro!: tail [unfolded unread_def] split: option.splits)
qed


lemma credential_joinD:
  "credential_join g cid = Some (c, owner) \<Longrightarrow> c \<in> set (rg_credentials g) \<and> kw_id c = cid
     \<and> owner \<in> set (rg_operators g) \<and> ow_id owner = kw_operator c \<and> key_view g cid \<noteq> None"
  unfolding credential_join_def key_view_def
  by (auto split: option.splits dest: find_key) (auto simp: find_Some_iff)

lemma reg_ok_update_keys:
  "(\<And>r. kw_id (v r) = kw_id r \<and> kw_operator (v r) = kw_operator r) \<Longrightarrow>
     reg_ok (g\<lparr>rg_credentials := update_where q v (rg_credentials g)\<rparr>) = reg_ok g"
  by (simp add: reg_ok_def has_operator_def update_keys)

lemma runs_revoke_played:
  assumes "attested w"
  shows "runs (revoke_key actor now b cid reason) (played b w) (unread w) w"
proof -
  have tail: "runs (bindr (sql (modify (\<lambda>g. g\<lparr>rg_credentials := update_where (\<lambda>r. kw_id r = cid)
           (\<lambda>r. r\<lparr>kw_revoked_at := Some now, kw_revoked_by := by, kw_revoked_reason := m\<rparr>) (rg_credentials g)\<rparr>))) (\<lambda>_.
      bindr (journal_if b ''operators.key_revoked'' data) (\<lambda>_. ok x))) (played b w) (unread w) w"
    if "key_view (w_registry w) cid \<noteq> None" and "text_field data ''credential_id'' = Some cid" for "by" m data x
    unfolding runs_bindr [of "sql m" for m] runs_sql runs_modify
    by (intro runs_play; use assms that in \<open>simp add: reg_ok_update_keys attested_def replay_event_def\<close>)
      (rule agrees_revoked [OF _ key_view_revoke]; simp)
  show ?thesis
    unfolding revoke_key_def
    by (auto simp: runs_bindr [of "lift r" for r] runs_bindr [of "ensure e f" for e f] runs_lift runs_ensure
        runs_bindr [of "query f" for f] runs_query runs_bindr [of "if e then k else n" for e k n] runs_if runs_ok
        ok_or_def unread_def [of w] text_field_def
        intro!: tail [unfolded unread_def] dest: credential_joinD split: option.splits)
qed

lemma update_by_name:
  assumes "reg_ok g" and "find (\<lambda>r. ow_name r = n) (rg_operators g) = Some row"
  shows "update_where (\<lambda>r. ow_id r = ow_id row) f (rg_operators g)
    = update_where (\<lambda>r. ow_name r = n) f (rg_operators g)"
proof -
  have "row \<in> set (rg_operators g)" and "ow_name row = n"
    using assms(2) by (auto simp: find_Some_iff)
  then have "ow_id r = ow_id row \<longleftrightarrow> ow_name r = n" if "r \<in> set (rg_operators g)" for r
    using assms(1) that by (auto simp: reg_ok_def distinct_map dest: inj_onD)
  then show ?thesis by (simp add: update_where_def)
qed

lemma reg_ok_update_operators:
  "(\<And>r. ow_id (u r) = ow_id r \<and> ow_name (u r) = ow_name r) \<Longrightarrow>
     reg_ok (g\<lparr>rg_operators := update_where p u (rg_operators g)\<rparr>) = reg_ok g"
  by (simp add: reg_ok_def has_operator_def update_keys)

lemma runs_role_played:
  assumes "attested w"
  shows "runs (set_role actor b n name role) (played b w) (unread w) w"
proof -
  have tail: "runs (bindr (sql (modify (\<lambda>g. g\<lparr>rg_operators := update_where (\<lambda>r. ow_id r = ow_id row)
           (\<lambda>r. r\<lparr>ow_role := role_text role\<rparr>) (rg_operators g)\<rparr>))) (\<lambda>_.
      bindr (journal_if b ''operators.role_changed'' data) (\<lambda>_. ok x))) (played b w) (unread w) w"
    if "find (\<lambda>r. ow_name r = name) (rg_operators (w_registry w)) = Some row"
      and "text_field data ''operateur'' = Some name"
      and "text_field data ''nouveau_role'' = Some (role_text role)" for row data x
  proof -
    have "role_view (w_registry w) name \<noteq> None" using that(1) by (simp add: role_view_def)
    then show ?thesis
      unfolding runs_bindr [of "sql m" for m] runs_sql runs_modify
      by (intro runs_play; use assms that in \<open>simp add: reg_ok_update_operators attested_def replay_event_def\<close>)
        (rule agrees_role [where n = name and role = "role_text role"]; auto simp: update_by_name role_view_update)
  qed
  show ?thesis
    unfolding set_role_def
    by (auto simp: runs_bindr [of "lift r" for r] runs_bindr [of "ensure e f" for e f] runs_lift runs_ensure
        runs_bindr [of "query f" for f] runs_query Let_def ok_or_def unread_def [of w] text_field_def
        intro!: tail [unfolded unread_def] split: option.splits)
qed

lemma runs_registry_played:
  assumes "attested w" and "filed A (w_registry w)"
  shows "runs (registry_action A act actor now b n) (played b w) (unread w) w"
  using assms by (cases act) (simp_all add: runs_invite_played runs_confirm_played runs_revoke_played
    runs_role_played runs_fail, simp_all add: unread_def)


lemma keeps_case_prod: "(\<And>a b. keeps P (m a b)) \<Longrightarrow> keeps P (case p of (a, b) \<Rightarrow> m a b)"
  by (cases p) simp

lemma keeps_attested_calm: "(\<And>w. keeps (calm w) m) \<Longrightarrow> keeps attested m"
  unfolding keeps_def using calm_attested calm_refl by blast

lemma keeps_calm_ceremonies [pres]:
  "keeps (calm w) (modify (\<lambda>v. v\<lparr>w_registrations := f v\<rparr>))"
  "keeps (calm w) (modify (\<lambda>v. v\<lparr>w_ceremonies := f' v\<rparr>))"
  "keeps (calm w) (modify (\<lambda>v. v\<lparr>w_guard := f'' v\<rparr>))"
  by (simp_all add: keeps_runs run calm_def)

lemma keeps_calm_transaction [pres]:
  "keeps (calm w) m \<Longrightarrow> keeps (calm w) (transaction m)"
proof (unfold keeps_runs runs_transaction, intro allI impI)
  fix v :: "'a oa_world_scheme"
  assume m: "\<forall>v. calm w v \<longrightarrow> runs m (\<lambda>_. calm w) (\<lambda>_. calm w) v" and v: "calm w v"
  then have "runs m (\<lambda>_. calm w) (\<lambda>_. calm w) v" by blast
  then show "runs m (\<lambda>(commit, x) u. calm w (if commit then u else u\<lparr>w_registry := w_registry v\<rparr>))
      (\<lambda>e u. calm w (u\<lparr>w_registry := w_registry v\<rparr>)) v"
    by (rule runs_mono) (use v in \<open>auto simp: calm_def\<close>)
qed

lemma consume_calm [pres]: "keeps (calm w) (consume_invite i now)"
  unfolding consume_invite_def Let_def
  by (auto intro!: pres simp: run unseen_def filed_def)

definition direct_invite :: "invite_row \<Rightarrow> bool" where
  "direct_invite i \<longleftrightarrow> iw_created_by i = BOOTSTRAP \<or> iw_created_by i = RECOVERY"

lemma runs_store_key:
  assumes "reg_ok (w_registry w)"
  shows "runs (store_key A i passkey aaguid form att now)
    (\<lambda>_ v. replayed v = replayed w \<and> reg_ok (w_registry v) \<and> role_view (w_registry v) = role_view (w_registry w)
       \<and> (let k = credential_id (wa_cred_id (ad_webauthn A) passkey) in
          if direct_invite i then key_view (w_registry w) k = None
            \<and> key_view (w_registry v) = (key_view (w_registry w))(k \<mapsto> False)
          else key_view (w_registry v) = key_view (w_registry w)))
    (unread w) w"
proof -
  have "runs (insert_pending row) (\<lambda>_ g. reg_ok g \<and> role_view g = role_view (w_registry w)
     \<and> key_view g = key_view (w_registry w)) (\<lambda>_ _. True) (w_registry w)" for row
    using assms by (simp add: insert_pending_def run)
  note waiting = this
  show ?thesis
    unfolding store_key_def Let_def
    by (auto simp: runs_if direct_invite_def runs_sql unread_def [of w]
        intro!: runs_mono [OF runs_insert_credential [OF assms]] runs_mono [OF waiting])
qed


lemma runs_register:
  assumes "attested w" and "replayed w = es"
    and "text_field data ''credential_id'' = Some (credential_id (wa_cred_id (ad_webauthn A) passkey))"
    and "text_field data ''operateur'' = Some name"
    and "text_field data ''statut'' = Some (status_text (if direct_invite i then Active else PendingConfirmation))"
  shows "runs (bindr (attempt (store_key A i passkey aaguid form att now)) (\<lambda>stored.
      bindr (case stored of Inr _ \<Rightarrow> ok () | Inl e \<Rightarrow> if is_unique_violation e then fail (Denied KeyAlreadyRegistered) else fail e) (\<lambda>_.
      bindr (journal ''operators.credential_registered'' data) (\<lambda>_. ok (True, x)))))
    (committed w) (unread w) w"
proof -
  have done_: "runs (bindr (journal ''operators.credential_registered'' data) (\<lambda>_. ok (True, x)))
      (committed w) (unread w) v"
    if v: "replayed v = replayed w" "reg_ok (w_registry v)" "role_view (w_registry v) = role_view (w_registry w)"
      and k: "let k = credential_id (wa_cred_id (ad_webauthn A) passkey) in
          if direct_invite i then key_view (w_registry w) k = None
            \<and> key_view (w_registry v) = (key_view (w_registry w))(k \<mapsto> False)
          else key_view (w_registry v) = key_view (w_registry w)" for v :: "'a oa_world_scheme"
  proof (rule runs_commit [OF v(1,2)])
    show "agrees (w_registry v) (replay_event (''operators.credential_registered'', data) (replayed w))"
      using assms k v
      by (cases "direct_invite i")
        (auto simp: replay_event_def attested_def Let_def intro: agrees_owner, auto simp: agrees_def)
  qed
  have failed: "runs (bindr (fail f) k) (committed w) (unread w) v" if "unread w e v"
    for e f :: act_error and k and v :: "'a oa_world_scheme"
    using that by (simp add: runs_bindr runs_fail unread_def)
  have "reg_ok (w_registry w)" using assms(1) by (simp add: attested_def)
  then show ?thesis
    unfolding runs_bindr [of "attempt m" for m] runs_attempt
    by (intro runs_mono [OF runs_store_key]) (auto simp: runs_bindr [of "ok u" for u] runs_ok intro: done_ failed)
qed


lemmas keeps_attested_world =
  keeps_attested_calm [OF keeps_calm_world(1)] keeps_attested_calm [OF keeps_calm_world(2)]
  keeps_attested_calm [OF keeps_calm_world(3)] keeps_attested_calm [OF keeps_calm_world(4)]
  keeps_attested_calm [OF keeps_calm_world(5)] keeps_attested_calm [OF keeps_calm_world(6)]
  keeps_attested_calm [OF keeps_calm_world(7)]

lemma keeps_calm_steps [pres]:
  "keeps (calm w) (take_registration c)" "keeps (calm w) (live_invite A k now)"
  "keeps (calm w) (active_keys A i)" "keeps (calm w) (key_by_id A cid)"
  unfolding take_registration_def live_invite_def active_keys_def key_by_id_def
  by (auto intro!: pres)

lemma keeps_begin_registration: "keeps (calm w) (begin_registration A token)"
  unfolding begin_registration_def Let_def
  by (auto intro!: pres split: prod.split)

lemma keeps_finish_registration:
  "keeps (attested :: 'a oa_world_scheme \<Rightarrow> bool) (finish_registration A c att)"
proof -
  have "keeps (attested :: 'a oa_world_scheme \<Rightarrow> bool) (transaction (
       bindr (query h) (\<lambda>active.
       bindr (ensure (f active) e) (\<lambda>_.
       bindr (consume_invite j now) (\<lambda>_.
       bindr (attempt (store_key A i passkey aaguid form obj now)) (\<lambda>stored.
      bindr (case stored of Inr _ \<Rightarrow> ok () | Inl e \<Rightarrow> if is_unique_violation e then fail (Denied KeyAlreadyRegistered) else fail e) (\<lambda>_.
      bindr (journal ''operators.credential_registered'' data) (\<lambda>_. ok (True, x)))))))))"
    if "text_field data ''credential_id'' = Some (credential_id (wa_cred_id (ad_webauthn A) passkey))"
      and "text_field data ''operateur'' = Some name"
      and "text_field data ''statut'' = Some (status_text (if direct_invite i then Active else PendingConfirmation))"
    for h f e j now i passkey aaguid form obj data x name
    unfolding keeps_runs
  proof (intro allI impI transaction_committed)
    fix w :: "'a oa_world_scheme" assume w: "attested w"
    show "runs (bindr (query h) (\<lambda>active.
       bindr (ensure (f active) e) (\<lambda>_.
       bindr (consume_invite j now) (\<lambda>_.
       bindr (attempt (store_key A i passkey aaguid form obj now)) (\<lambda>stored.
      bindr (case stored of Inr _ \<Rightarrow> ok () | Inl e \<Rightarrow> if is_unique_violation e then fail (Denied KeyAlreadyRegistered) else fail e) (\<lambda>_.
      bindr (journal ''operators.credential_registered'' data) (\<lambda>_. ok (True, x))))))))
      (committed w) (unread w) w"
      unfolding runs_bindr [of "query f" for f] runs_query runs_bindr [of "ensure b e" for b e] runs_ensure
    proof (intro conjI impI runs_calm_then [OF consume_calm calm_refl])
      fix y and v :: "'a oa_world_scheme" assume v: "calm w v"
      then have same: "committed w = committed v" "unread w = unread v"
        by (simp_all add: calm_def committed_def unread_def fun_eq_iff)
      show "runs (bindr (attempt (store_key A i passkey aaguid form obj now)) (\<lambda>stored.
      bindr (case stored of Inr _ \<Rightarrow> ok () | Inl e \<Rightarrow> if is_unique_violation e then fail (Denied KeyAlreadyRegistered) else fail e) (\<lambda>_.
      bindr (journal ''operators.credential_registered'' data) (\<lambda>_. ok (True, x)))))
      (committed w) (unread w) v"
        unfolding same by (rule runs_register [OF calm_attested [OF v w] refl that])
    qed (simp_all add: unread_def calm_def)
  qed
  note body = this
  show ?thesis
    unfolding finish_registration_def Let_def
    by (intro keeps_bindr keeps_case_prod keeps_attested_world keeps_attested_calm [OF keeps_calm_steps(1)]
        keeps_attested_calm [OF keeps_calm_steps(2)] keeps_ensure keeps_lift body)
      (simp_all add: text_field_def direct_invite_def)
qed


section \<open>What every handler keeps\<close>

definition kept :: "act_deps \<Rightarrow> 'x oa_world_scheme \<Rightarrow> bool" where
  "kept A w \<longleftrightarrow> attested w \<and> filed A (w_registry w)"

lemma calm_kept: "calm w v \<Longrightarrow> kept A w \<Longrightarrow> kept A v"
  using calm_attested [of w v] by (auto simp: kept_def calm_def)

lemma keeps_kept_calm [pres]: "(\<And>w. keeps (calm w) m) \<Longrightarrow> keeps (kept A) m"
  by (rule keepsI) (meson calm_kept calm_refl keeps_def)

lemma keeps_kept: "keeps attested m \<Longrightarrow> keeps (on_registry (filed A)) m \<Longrightarrow> keeps (kept A) m"
  unfolding keeps_def kept_def on_registry_def by blast

lemma keeps_filed_sql [pres]:
  "keeps (filed A) (insert_operator o')" "keeps (filed A) (insert_credential_row c)"
  "keeps (filed A) (insert_invite i)"
  "pw_id p = credential_id (wa_cred_id (ad_webauthn A) (pw_passkey p)) \<Longrightarrow> keeps (filed A) (insert_pending p)"
  "keeps (filed A) (modify (\<lambda>g. g\<lparr>rg_invites := f g\<rparr>))"
  "keeps (filed A) (modify (\<lambda>g. g\<lparr>rg_pending := filter q (rg_pending g)\<rparr>))"
  "keeps (filed A) (modify (\<lambda>g. g\<lparr>rg_operators := f1 g\<rparr>))"
  "keeps (filed A) (modify (\<lambda>g. g\<lparr>rg_credentials := f2 g\<rparr>))"
  "keeps (filed A) (modify (\<lambda>g. g\<lparr>rg_actions := f3 g\<rparr>))"
  "keeps (filed A) (modify (\<lambda>g. g\<lparr>rg_challenges := f4 g\<rparr>))"
  by (auto simp: keeps_runs insert_operator_def insert_credential_row_def insert_invite_def insert_pending_def
      run filed_def list_all_iff)

lemma keeps_filed_steps [pres]:
  "keeps (on_registry (filed A)) (claim_admin A name by now)"
  "keeps (on_registry (filed A)) (expire_invites i now)"
  "keeps (on_registry (filed A)) (new_invite A i by ttl now)"
  "keeps (on_registry (filed A)) (consume_invite i now)"
  "keeps (on_registry (filed A)) (insert_credential A c now)"
  "keeps (on_registry (filed A)) (add_operator A name role by now)"
  "keeps (on_registry (filed A)) (store_key A i0 passkey aaguid form att now)"
  unfolding claim_admin_def expire_invites_def new_invite_def new_token_def consume_invite_def
    insert_credential_def store_key_def add_operator_def Let_def
  by (auto intro!: pres)


section \<open>The authorities write nothing that the replay reads\<close>

lemma keeps_calm_records [pres]:
  "neutral event \<Longrightarrow> keeps (calm w) (record_event b event data)"
  "neutral event \<Longrightarrow> keeps (calm w) (ra_record b event data)"
  "keeps (calm w) (store_call m)" "keeps (calm w) (ra_store m)"
  unfolding record_event_def ra_record_def store_call_def ra_store_def
  by (auto intro!: pres)

lemma keeps_calm_attempts [pres]: "keeps (calm w) (reserve_attempts D n p)"
proof (induction n)
  case (Suc n)
  then show ?case by (auto intro!: pres split: store_error.split)
qed (auto intro: pres)

lemma keeps_calm_issuer [pres]:
  "keeps (calm w) (issue D wording I csr cn p tx)"
  "keeps (calm w) (revoke D I sn r oper com v)"
  "keeps (calm w) (publish_crl D I)"
  by (auto simp: issue_def revoke_def publish_crl_def Let_def ensure_not_revoked_def
      reserve_new_serial_def neutral_def intro!: pres)

lemma keeps_calm_owner [pres]: "keeps (calm w) (owner_of c)"
  unfolding owner_of_def by (auto intro!: pres split: store_error.split)

lemma keeps_calm_submit [pres]:
  "keeps (calm w) (submit H F csr p sig)" "keeps (calm w) (submit_mtls H F csr p cn)"
  unfolding submit_def submit_mtls_def submit_as_def open_request_def resume_def issue_request_def
    supersede_def issued_certificate_def ensure_bootstrap_unused_def Let_def
  by (auto intro!: pres simp: neutral_def split: store_error.split request_state.split prod.split)

lemma keeps_calm_decide [pres]: "keeps (calm w) (decide b tx oper com via target)"
  unfolding decide_def decide_read_def decide_write_def Let_def
  by (auto intro!: pres simp: neutral_def split: store_error.split)

lemma keeps_calm_decisions [pres]:
  "keeps (calm w) (approve b tx oper com via)" "keeps (calm w) (reject b tx oper com via)"
  by (auto simp: approve_def reject_def intro!: pres)

section \<open>The service\<close>

lemma keeps_kept_onboarding:
  "keeps (kept A) (bootstrap_admin A name ttl now)" "keeps (kept A) (recover_admin A name why ttl now)"
proof -
  show "keeps (kept A) (bootstrap_admin A name ttl now)"
  proof (rule keeps_kept)
    show "keeps (on_registry (filed A)) (bootstrap_admin A name ttl now)"
      unfolding bootstrap_admin_def by (auto intro!: pres)
  qed (simp add: keeps_runs runs_bootstrap_attested)
  show "keeps (kept A) (recover_admin A name why ttl now)"
  proof (rule keeps_kept)
    show "keeps (on_registry (filed A)) (recover_admin A name why ttl now)"
      unfolding recover_admin_def Let_def by (auto intro!: pres)
  qed (simp add: keeps_runs runs_recover_attested)
qed

lemma keeps_filed_registration: "keeps (on_registry (filed A)) (finish_registration A c att)"
proof -
  have "keeps (on_registry (filed A)) (modify (\<lambda>v. v\<lparr>w_registrations := f v\<rparr>))"
    for f :: "'a oa_world_scheme \<Rightarrow> (uuid, registration) btree"
    by (simp add: keeps_runs run on_registry_def)
  then show ?thesis
    unfolding finish_registration_def take_registration_def live_invite_def Let_def
    by (auto intro!: pres split: prod.split)
qed

lemma keeps_kept_registration:
  "keeps (kept A) (begin_registration A token)" "keeps (kept A) (finish_registration A c att)"
  by (rule keeps_kept_calm, rule keeps_begin_registration,
    rule keeps_kept, rule keeps_finish_registration, rule keeps_filed_registration)

lemma keeps_filed_journal_if [pres]: "keeps (on_registry (filed A)) (journal_if b ev data)"
  by (auto simp: journal_if_def intro!: pres)

lemma keeps_filed_registry_action: "keeps (on_registry (filed A)) (run_registry_action A act actor now b n)"
proof -
  have "keeps (on_registry (filed A)) (registry_action A act actor now b n)"
    by (cases act)
      (auto simp: invite_operator_def confirm_key_def revoke_key_def set_role_def Let_def
        intro!: pres split: prod.split)
  then show ?thesis
    unfolding run_registry_action_def by (auto intro!: pres)
qed

lemma keeps_kept_registry_action [pres]: "keeps (kept A) (run_registry_action A act actor now b n)"
proof (rule keepsI)
  fix w :: "'a oa_world_scheme"
  assume w: "kept A w"
  have "runs (run_registry_action A act actor now b n) (\<lambda>_. attested) (\<lambda>_. attested) w"
    using w by (intro runs_run_registry_action runs_registry_played) (simp_all add: kept_def)
  then have "attested (snd (run_registry_action A act actor now b n w))"
    by (auto simp: runs_def split: prod.splits sum.splits)
  moreover have "filed A (w_registry (snd (run_registry_action A act actor now b n w)))"
    using w by (intro on_registryD [OF keeps_filed_registry_action]) (simp add: kept_def)
  ultimately show "kept A (snd (run_registry_action A act actor now b n w))"
    by (simp add: kept_def)
qed


lemma unseen_other [simp]:
  "unseen g (g\<lparr>rg_actions := as\<rparr>) \<longleftrightarrow> (reg_ok g \<longrightarrow> reg_ok (g\<lparr>rg_actions := as\<rparr>))"
  "unseen g (g\<lparr>rg_challenges := hs\<rparr>) \<longleftrightarrow> (reg_ok g \<longrightarrow> reg_ok (g\<lparr>rg_challenges := hs\<rparr>))"
  "unseen g (g\<lparr>rg_evidence := es\<rparr>) \<longleftrightarrow> (reg_ok g \<longrightarrow> reg_ok (g\<lparr>rg_evidence := es\<rparr>))"
  by (simp_all add: unseen_def filed_def)

lemma keeps_calm_rows [pres]:
  "keeps (calm w) (sql (insert_action a))" "keeps (calm w) (sql (insert_challenge h))"
  "keeps (calm w) (sql (insert_evidence e))"
  "(\<And>r. aw_id (x r) = aw_id r) \<Longrightarrow>
     keeps (calm w) (sql (modify (\<lambda>g. g\<lparr>rg_actions := update_where s x (rg_actions g)\<rparr>)))"
  "(\<And>r. hw_id (y r) = hw_id r) \<Longrightarrow>
     keeps (calm w) (sql (modify (\<lambda>g. g\<lparr>rg_challenges := update_where t y (rg_challenges g)\<rparr>)))"
  "keeps (calm w) (sql (modify (\<lambda>g. g\<lparr>rg_credentials := update_where p
     (\<lambda>r. r\<lparr>kw_sign_count := n, kw_last_used_at := u\<rparr>) (rg_credentials g)\<rparr>)))"
proof -
  have "runs (insert_action a) (\<lambda>_. unseen g) (\<lambda>_. unseen g) g" for g
    using runs_keeps [OF keeps_reg_ok_inserts(5) [of a], of g]
    by (auto simp: insert_action_def run)
  then show "keeps (calm w) (sql (insert_action a))" by (rule keeps_calm_sql)
  have "runs (insert_challenge h) (\<lambda>_. unseen g) (\<lambda>_. unseen g) g" for g
    using runs_keeps [OF keeps_reg_ok_inserts(6) [of h], of g]
    by (auto simp: insert_challenge_def run)
  then show "keeps (calm w) (sql (insert_challenge h))" by (rule keeps_calm_sql)
  have "runs (insert_evidence e) (\<lambda>_. unseen g) (\<lambda>_. unseen g) g" for g
    using runs_keeps [OF keeps_reg_ok_inserts(7) [of e], of g]
    by (auto simp: insert_evidence_def run)
  then show "keeps (calm w) (sql (insert_evidence e))" by (rule keeps_calm_sql)
qed (auto intro!: keeps_calm_sql simp: runs_modify reg_ok_def has_operator_def update_keys unseen_def filed_def)

lemma keeps_calm_signature [pres]:
  "keeps (calm w) (take_signature A c a act actor k counter assertion now)"
  unfolding take_signature_def consume_challenge_def mark_executed_def add_evidence_def Let_def
  by (auto intro!: pres simp: neutral_def split: prod.split option.split)

lemma keeps_calm_controls [pres]:
  "keeps (calm w) (operator_by_id i)" "keeps (calm w) (eligible_signer i act)"
  "keeps (calm w) (required_signatures act)" "keeps (calm w) (ensure_enough_holders act n)"
  "keeps (calm w) (check_target act)" "keeps (calm w) (check_revocation S act)"
  "keeps (calm w) (start_ceremony A i h)" "keeps (calm w) (remember_ceremony c st)"
  "keeps (calm w) (take_ceremony c)" "keeps (calm w) (find_request tx)" "keeps (calm w) (count_signatures i)"
  unfolding operator_by_id_def eligible_signer_def ensure_enough_holders_def check_target_def
    check_revocation_def start_ceremony_def remember_ceremony_def take_ceremony_def count_signatures_def Let_def
  by (cases act; auto intro!: pres simp: find_request_def
      split: store_error.split option.split action.split certificate_status.split sum.split)+


lemma keeps_kept_pure [pres]:
  "keeps (kept A) ensure_open" "keeps (kept A) now_utc" "keeps (kept A) (query f)"
  "keeps (kept A) (new_uuid A)" "neutral event \<Longrightarrow> keeps (kept A) (journal event data)"
  "keeps (kept A) (eligible_signer i act)" "keeps (kept A) (required_signatures act)"
  "keeps (kept A) (ensure_enough_holders act n)" "keeps (kept A) (start_ceremony A i h)"
  "keeps (kept A) (remember_ceremony c st)" "keeps (kept A) (take_ceremony c)"
  "keeps (kept A) (key_by_id A cid)" "keeps (kept A) (operator_by_id i)"
  "keeps (kept A) (count_signatures i)" "keeps (kept A) (sql (insert_challenge h'))"
  "keeps (kept A) (take_signature A ch a act actor k counter assertion now)"
  by (auto intro!: keeps_kept_calm pres)

lemma keeps_calm_certificate: "keeps (calm w) (revoke_certificate A S serial reason oper com)"
  unfolding revoke_certificate_def Let_def
  by (auto intro!: pres simp: neutral_def split: sum.split)

lemma keeps_kept_others [pres]:
  "keeps (kept A) (map_err f (approve b tx oper com via))"
  "keeps (kept A) (map_err f (reject b tx oper com via))"
  "keeps (kept A) (revoke_certificate A S serial reason oper com)"
  "keeps (kept A) (check_revocation S act)" "keeps (kept A) (find_request tx)" "keeps (kept A) (check_target act)"
  using keeps_calm_certificate by (auto intro!: keeps_kept_calm pres)

lemma keeps_kept_effect [pres]: "keeps (kept A) (apply_effect A S act actor names now n)"
  by (cases act) (auto intro!: keeps_bindr keeps_ok keeps_kept_registry_action keeps_kept_others)

lemma keeps_kept_check [pres]: "keeps (kept A) (check_action A S act actor n)"
  by (cases act) (auto simp: check_action_def intro!: keeps_bindr keeps_ok keeps_ensure keeps_lift
    keeps_kept_registry_action keeps_kept_pure keeps_kept_others)

lemma keeps_kept_execute: "keeps (kept A) (execute_inner A S c assertion x)"
  unfolding execute_inner_def conclude_def Let_def
  by (intro keeps_bindr keeps_case_prod keeps_case_option keeps_ok keeps_ensure keeps_lift
      keeps_kept_pure keeps_kept_check keeps_kept_effect) (simp add: neutral_def)

lemma keeps_kept_issue_challenge: "keeps (kept A) (issue_challenge A S act hint)"
proof -
  have frozen: "keeps (kept A) (transaction (bindr (sql (insert_action a)) (\<lambda>_.
      bindr (sql (insert_challenge h)) (\<lambda>_. ok (True, ())))))" for a h
    by (intro keeps_kept_calm pres)
  show ?thesis
    unfolding issue_challenge_def Let_def
    by (intro keeps_bindr keeps_case_prod keeps_if keeps_ok keeps_ensure keeps_lift
        keeps_kept_pure keeps_kept_check frozen) (simp add: neutral_def)
qed

lemma keeps_kept_issue_challenge_for: "keeps (kept A) (issue_challenge_for A S i hint)"
  unfolding issue_challenge_for_def Let_def
  by (intro keeps_bindr keeps_case_prod keeps_ok keeps_ensure keeps_lift
      keeps_kept_pure keeps_kept_check) (simp add: neutral_def)

section \<open>The journal and the register\<close>

lemma calm_snd: "keeps (calm w) m \<Longrightarrow> calm w (snd (m w))"
  by (simp add: keeps_def)

lemma kept_snd: "keeps (kept A) m \<Longrightarrow> kept A w \<Longrightarrow> kept A (snd (m w))"
  by (simp add: keeps_def)

lemma ra_step_calm: "ra_step H F w l v \<Longrightarrow> calm w v"
  by (cases rule: ra_step.cases) (auto intro!: calm_snd pres)

lemma step_kept: "oa_step A S F w v \<Longrightarrow> kept A w \<Longrightarrow> kept A v"
  by (cases rule: oa_step.cases)
    (auto simp: execute_def execute_expecting_def guard_block_def guard_open_def
      intro!: kept_snd intro: keeps_kept_onboarding keeps_kept_registration
        keeps_kept_issue_challenge keeps_kept_issue_challenge_for keeps_kept_execute
        keeps_kept_calm [OF keeps_calm_ceremonies(3)] calm_kept [OF ra_step_calm])

lemma steps_kept: "oa_steps A S F w v \<Longrightarrow> kept A w \<Longrightarrow> kept A v"
  by (induction rule: rtranclp_induct) (auto intro: step_kept)


end
