(* ===== verification/Service_Samples.thy ===== *)
theory Service_Samples
  imports Operators_Spec Replay_Spec Raflow_Samples
begin

text \<open>
  A service of signed actions with concrete functions for the libraries, and the first moments
  of a register: two administrators, a first action by one signature and one by two. The inputs
  on which the properties of \<open>Service_Spec\<close>, \<open>Operators_Spec\<close> and \<open>Replay_Spec\<close> are applied.
\<close>

section \<open>The libraries\<close>

text \<open>A printer for the bodies, with quotes around every text.\<close>

fun show_json :: "json \<Rightarrow> string" and show_fields :: "(string \<times> json) list \<Rightarrow> string" where
  "show_json (JStr s) = ''<'' @ s @ ''>''"
| "show_json (JNum n) = (if n = 60 then ''60'' else ''#'')"
| "show_json (JObj fs) = ''{'' @ show_fields fs @ ''}''"
| "show_json _ = ''-''"
| "show_fields [] = []"
| "show_fields ((k, v) # fs) = k @ ''='' @ show_json v @ show_fields fs"

definition sample_key :: "bytes \<Rightarrow> passkey" where
  "sample_key raw = JObj [(''cred'', JObj [(''cred'', JStr (hex_encode raw))])]"

definition sample_cred_id :: "passkey \<Rightarrow> bytes" where
  "sample_cred_id key = (case j_pointer key [''cred'', ''cred''] of
     Some (JStr s) \<Rightarrow> (case hex_decode s of Some raw \<Rightarrow> raw | None \<Rightarrow> []) | _ \<Rightarrow> [])"

text \<open>The state of a ceremony is its challenge; an authenticator answers by repeating it.\<close>

definition sample_webauthn :: webauthn where
  "sample_webauthn =
     \<lparr>wa_start = (\<lambda>keys random. Inr (\<lparr>ao_challenge = random, ao_rest = JNull\<rparr>, random)),
      wa_state = (\<lambda>st. Inr (JObj [(''ast'', JObj [(''challenge'', JStr (hex_encode st))])])),
      wa_of_state = (\<lambda>j. case j_pointer j [''ast'', ''challenge''] of
         Some (JStr s) \<Rightarrow> ok_or ''hex'' (hex_decode s) | _ \<Rightarrow> Inl ''state''),
      wa_finish = (\<lambda>a st. if as_client_data a = st
         then Inr \<lparr>ar_cred_id = as_raw_id a, ar_user_verified = True, ar_backup_eligible = False,
           ar_backup_state = False, ar_counter = length (as_signature a)\<rparr>
         else Inl ''challenge''),
      wa_start_reg = (\<lambda>i name known random. Inr (JNull, random)),
      wa_finish_reg = (\<lambda>a st. Inr (sample_key (at_raw a))),
      wa_cred_id = sample_cred_id, wa_form = (\<lambda>_. Basic), wa_aaguid = (\<lambda>_. Some ''model''),
      wa_readable = (\<lambda>_. True), wa_json_text = show_json, wa_base64 = hex_encode,
      wa_sha256 = (\<lambda>b. [sum_list (take 16 b), sum_list b, last b])\<rparr>"

definition sample_actions :: "action list" where
  "sample_actions = [InviteOperator ''carol'' CaOperateur 60, InviteOperator ''dave'' Admin 60]"

definition sample_act_deps :: act_deps where
  "sample_act_deps =
     \<lparr>ad_ra = sample_ra_deps, ad_webauthn = sample_webauthn, ad_uuid = (\<lambda>b. hex_encode (take 1 b)),
      ad_rfc3339 = (\<lambda>_. Some ''later''),
      ad_json_parse = (\<lambda>t. case find (\<lambda>a. show_json (body_json a ''later'') = t) sample_actions of
         Some a \<Rightarrow> Inr (body_json a ''later'') | None \<Rightarrow> Inl ''json''),
      ad_ca_wording = (\<lambda>_. [])\<rparr>"

definition sample_service :: service where
  "sample_service = \<lparr>sv_decider_recorder = True, sv_issuer = Some sample_issuer\<rparr>"

section \<open>The first moments\<close>

definition oa_new :: oa_world where
  "oa_new = ca_world.extend ((sample_world memory_new)\<lparr>w_rand := (\<lambda>_. 7)\<rparr>)
     \<lparr>w_registry = registry_new, w_ceremonies = [], w_registrations = [], w_guard = None\<rparr>"

definition sample_opened :: "(act_error + invite) \<times> oa_world" where
  "sample_opened = bootstrap_admin sample_act_deps ''alice'' (minutes 60) (seconds 1000) oa_new"

definition sample_begun :: "(act_error + registration_begun) \<times> oa_world" where
  "sample_begun = begin_registration sample_act_deps (in_token (projr (fst sample_opened))) (snd sample_opened)"

definition sample_enrolled :: "(act_error + registered) \<times> oa_world" where
  "sample_enrolled = finish_registration sample_act_deps (rb_ceremony (projr (fst sample_begun)))
     \<lparr>at_raw = [1], at_object = []\<rparr> (snd sample_begun)"

abbreviation sample_step :: "oa_world \<Rightarrow> oa_world \<Rightarrow> bool" where
  "sample_step \<equiv> oa_step sample_act_deps sample_service sample_flow"

lemma sample_opening: "sample_step oa_new (snd sample_opened)"
  unfolding sample_opened_def by (rule oa_bootstrap)

lemma sample_beginning: "sample_step (snd sample_opened) (snd sample_begun)"
  unfolding sample_begun_def by (rule oa_begin)

lemma sample_finishing: "sample_step (snd sample_begun) (snd sample_enrolled)"
  unfolding sample_enrolled_def by (rule oa_finish)

lemmas sample_steps = sample_opening sample_beginning sample_finishing

lemma sample_enrollment:
  "oa_steps sample_act_deps sample_service sample_flow oa_new (snd sample_enrolled)"
  by (rule rtranclp.rtrancl_into_rtrancl [where r = sample_step and b = "snd sample_begun"],
      rule rtranclp.rtrancl_into_rtrancl [where r = sample_step and b = "snd sample_opened"],
      rule r_into_rtranclp [where r = sample_step]; rule sample_steps)

text \<open>A register in which an action has one of the two signatures that it needs, and a challenge
  for the second.\<close>

definition sample_operator :: "uuid \<Rightarrow> string \<Rightarrow> role \<Rightarrow> operator_row" where
  "sample_operator i name role = \<lparr>ow_id = i, ow_name = name, ow_role = role_text role, ow_created_at = 0,
     ow_created_by = RECOVERY, ow_disabled_at = None\<rparr>"

definition sample_credential :: "bytes \<Rightarrow> uuid \<Rightarrow> credential_row" where
  "sample_credential raw i = \<lparr>kw_id = credential_id raw, kw_operator = i, kw_sign_count = 0,
     kw_aaguid = ''model'', kw_format = ''basic'', kw_attestation = [], kw_label = [],
     kw_last_used_at = None, kw_initiated_by = RECOVERY, kw_initiated_at = 0,
     kw_confirmed_by = Some RECOVERY, kw_confirmed_at = Some 0, kw_revoked_at = None,
     kw_revoked_by = None, kw_revoked_reason = None, kw_passkey = sample_key raw\<rparr>"

definition sample_challenge :: "uuid \<Rightarrow> bytes \<Rightarrow> uuid \<Rightarrow> instant option \<Rightarrow> challenge_row" where
  "sample_challenge i challenge hint used = \<lparr>hw_id = i, hw_action = ''A'', hw_challenge = challenge,
     hw_nonce = replicate 32 0, hw_hint = hint, hw_issued_at = 0, hw_expires_at = seconds 2000,
     hw_consumed_at = used\<rparr>"

definition sample_registry :: registry where
  "sample_registry = registry_new
     \<lparr>rg_operators := [sample_operator ''a'' ''alice'' Admin, sample_operator ''b'' ''bob'' Admin,
        sample_operator ''c'' ''carol'' RaOperateur],
      rg_credentials := [sample_credential [1] ''a'', sample_credential [2] ''b''],
      rg_actions := [\<lparr>aw_id = ''A'', aw_body = body_json (SetRole ''carol'' Admin) ''later'',
        aw_body_hash = [96, 79, 125], aw_created_at = 0, aw_expires_at = seconds 3000,
        aw_executed_at = None, aw_required = 2\<rparr>],
      rg_challenges := [sample_challenge ''C1'' [7] ''a'' (Some 0), sample_challenge ''C2'' [8] ''b'' None],
      rg_evidence := [\<lparr>ew_id = ''E'', ew_challenge = ''C1'', ew_action = ''A'', ew_operator = ''a'',
        ew_credential = credential_id [1], ew_authenticator_data = [], ew_client_data = [7],
        ew_signature = [0], ew_verified_at = 0\<rparr>]\<rparr>"

definition sample_ready :: oa_world where
  "sample_ready = oa_new\<lparr>w_registry := sample_registry, w_ceremonies := [(''C2'', [8])]\<rparr>"

text \<open>The \<open>n\<close>th answer of the key \<open>raw\<close>, here to a challenge.\<close>

definition answer :: "bytes \<Rightarrow> nat \<Rightarrow> bytes \<Rightarrow> assertion" where
  "answer raw n challenge = \<lparr>as_raw_id = raw, as_authenticator_data = [], as_client_data = challenge,
     as_signature = replicate n 0\<rparr>"

definition sample_signed :: "(act_error + executed) \<times> oa_world" where
  "sample_signed = execute sample_act_deps sample_service ''C2'' (answer [2] 1 [8]) sample_ready"

lemma sample_opened_account: "map ow_name (rg_operators (w_registry (snd sample_opened))) = [''alice'']"
  by code_simp

lemma sample_signed_takes_effect: "\<exists>r. fst sample_signed = Inr r \<and> xe_executed r"
proof -
  have "case fst sample_signed of Inr r \<Rightarrow> xe_executed r | Inl _ \<Rightarrow> False" by code_simp
  then show ?thesis by (auto split: sum.splits)
qed

lemma sample_registry_ok: "reg_ok (w_registry sample_ready)"
  by code_simp

lemma sample_registry_admin: "active_admin (w_registry sample_ready)"
  by code_simp

lemma sample_signing: "sample_step sample_ready (snd sample_signed)"
  unfolding sample_signed_def by (rule oa_execute)

lemma sample_signed_answer:
  "execute sample_act_deps sample_service ''C2'' (answer [2] 1 [8]) sample_ready
     = (fst sample_signed, snd sample_signed)"
  by (simp add: sample_signed_def)

lemma oa_new_empty: "w_registry oa_new = registry_new" "entries oa_new = []"
  by (simp_all add: oa_new_def ca_world.defs sample_world_def)

section \<open>The properties on these inputs\<close>


theorem effect_needs_quorum_witness:
  "\<exists>a act. aw_required a = 2 \<and> quorum_reached (w_registry sample_ready) (w_registry (snd sample_signed)) a act"
proof -
  have "map_option (\<lambda>p. aw_required (snd p)) (challenge_join (w_registry sample_ready) ''C2'') = Some 2"
    by code_simp
  then have two: "aw_required a = 2" if "challenge_join (w_registry sample_ready) ''C2'' = Some (c, a)" for c a
    using that by simp
  have "takes_effect (fst sample_signed) sample_ready (snd sample_signed)"
    using sample_signed_takes_effect by (auto simp: takes_effect_def)
  from effect_needs_quorum [OF sample_signed_answer sample_registry_ok this] show ?thesis
    unfolding checked_def using two by blast
qed

theorem used_at_most_once_witness:
  "\<exists>e. fst (execute sample_act_deps sample_service ''C2'' (answer [1] 2 [8]) (snd sample_signed)) = Inl e"
proof -
  obtain r where "fst sample_signed = Inr r" using sample_signed_takes_effect by blast
  with sample_signed_answer have
    "execute sample_act_deps sample_service ''C2'' (answer [2] 1 [8]) sample_ready = (Inr r, snd sample_signed)"
    by simp
  from used_at_most_once [OF this, of sample_flow "snd sample_signed" "''C2''" "answer [1] 2 [8]"]
  show ?thesis by auto
qed

theorem closed_guard_stops_everything_witness:
  "fst (execute sample_act_deps sample_service ''C2'' (answer [2] 1 [8]) (sample_ready\<lparr>w_guard := Some [''x'']\<rparr>))
     = Inl (Blocked [''x''])"
  using closed_guard_stops_everything [of "sample_ready\<lparr>w_guard := Some [''x'']\<rparr>"] by simp

definition sample_expect :: expect where
  "sample_expect = \<lparr>ex_action = ''revoke_key'', ex_transaction_id = None, ex_serial = None,
     ex_action_id = None, ex_credential_id = None, ex_operator = None\<rparr>"

theorem expectation_only_restricts_witness:
  "\<exists>e. execute_expecting sample_act_deps sample_service ''C2'' (answer [2] 1 [8]) sample_expect sample_ready
     = (Inl e, sample_ready\<lparr>w_tick := w_tick sample_ready + 1\<rparr>)"
proof -
  have "isl (fst (execute_expecting sample_act_deps sample_service ''C2'' (answer [2] 1 [8])
    sample_expect sample_ready))" by code_simp
  then show ?thesis
    using sample_signed_takes_effect sample_signed_answer
      expectation_only_restricts [of sample_act_deps sample_service "''C2''" "answer [2] 1 [8]"
        sample_expect sample_ready]
    by auto
qed

theorem an_administrator_remains_witness: "active_admin (w_registry (snd sample_signed))"
  by (rule an_administrator_remains [OF r_into_rtranclp [of sample_step, OF sample_signing] sample_registry_ok sample_registry_admin])

theorem every_key_is_vouched_for_witness:
  "list_all (\<lambda>c. kw_initiated_by c = BOOTSTRAP \<or> kw_confirmed_by c = Some RECOVERY
     \<or> list_ex (\<lambda>r. kw_confirmed_by c = Some (ow_name r) \<and> ow_id r \<noteq> kw_operator c)
         (rg_operators (w_registry (snd sample_enrolled))))
     (rg_credentials (w_registry (snd sample_enrolled)))"
  unfolding list_all_iff list_ex_iff
  by (rule every_key_is_vouched_for [OF sample_enrollment oa_new_empty(1)])

end
