(* ===== verification/Gen_Time.thy ===== *)
theory Gen_Time
  imports Prelude "HOL-Library.Word"
begin

text \<open>
  \<open>crates/oe-rfc3161-asn1/src/gen_time.rs\<close>: the GeneralizedTime with a fraction of a second of a
  timestamp token, written and read by hand. The value of the ASN.1 element is the text between
  its bytes; \<open>der::Any\<close> is its tag and that text.
\<close>

section \<open>The model\<close>

text \<open>\<open>Parts\<close>, with the integers at their width.\<close>

record parts =
  pt_year :: "16 word"
  pt_month :: "8 word"
  pt_day :: "8 word"
  pt_hour :: "8 word"
  pt_minute :: "8 word"
  pt_second :: "8 word"
  pt_nanosecond :: "32 word"

record any =
  an_tag :: byte
  an_value :: string

definition TAG_GENERALIZED_TIME :: byte where "TAG_GENERALIZED_TIME = 24"

text \<open>The formatting \<open>{:0n}\<close> of an unsigned number: at least \<open>n\<close> digits.\<close>

fun decimal :: "nat \<Rightarrow> string" where
  "decimal n = (if n < 10 then [char_of (48 + n)] else decimal (n div 10) @ [char_of (48 + n mod 10)])"

declare decimal.simps [simp del]

definition padded :: "nat \<Rightarrow> nat \<Rightarrow> string" where
  "padded width n = replicate (width - length (decimal n)) CHR ''0'' @ decimal n"

text \<open>\<open>while frac_str.ends_with('0') { frac_str.pop(); }\<close>\<close>

definition pop_zeros :: "string \<Rightarrow> string" where
  "pop_zeros s = rev (dropWhile (\<lambda>c. c = CHR ''0'') (rev s))"

definition encode :: "parts \<Rightarrow> 8 word \<Rightarrow> any option" where
  "encode p digits =
     (if 9999 < unat (pt_year p) \<or> pt_month p = 0 \<or> 12 < unat (pt_month p)
         \<or> pt_day p = 0 \<or> 31 < unat (pt_day p) then None
      else if 23 < unat (pt_hour p) \<or> 59 < unat (pt_minute p) \<or> 59 < unat (pt_second p) then None
      else if 9 < unat digits then None
      else
        let s = padded 4 (unat (pt_year p)) @ padded 2 (unat (pt_month p)) @ padded 2 (unat (pt_day p))
              @ padded 2 (unat (pt_hour p)) @ padded 2 (unat (pt_minute p)) @ padded 2 (unat (pt_second p));
            fraction =
              (if 0 < unat digits then
                 let scale = 10 ^ (9 - unat digits);
                     frac_str = pop_zeros (padded (unat digits) (unat (pt_nanosecond p) div scale))
                 in if frac_str = [] then [] else CHR ''.'' # frac_str
               else [])
        in Some \<lparr>an_tag = TAG_GENERALIZED_TIME, an_value = s @ fraction @ ''Z''\<rparr>)"

text \<open>\<open>str::strip_suffix\<close> of one character, \<open>str::split_once\<close>.\<close>

definition strip_last :: "char \<Rightarrow> string \<Rightarrow> string option" where
  "strip_last c s = (if s \<noteq> [] \<and> last s = c then Some (butlast s) else None)"

fun split_once :: "char \<Rightarrow> string \<Rightarrow> (string \<times> string) option" where
  "split_once c [] = None"
| "split_once c (x # xs) = (if x = c then Some ([], xs)
     else map_option (\<lambda>(a, b). (x # a, b)) (split_once c xs))"

text \<open>The text of the value cut in its two parts. A byte that is not of a digit is refused, so
  that no control of the encoding as UTF-8 changes the outcome.\<close>

definition split_value :: "string \<Rightarrow> (string \<times> string) option" where
  "split_value v =
     (case strip_last CHR ''Z'' v of
        None \<Rightarrow> None
      | Some s \<Rightarrow>
          let (whole, frac) = (case split_once CHR ''.'' s of Some (w, f) \<Rightarrow> (w, f) | None \<Rightarrow> (s, [])) in
          if length whole \<noteq> 14 \<or> \<not> list_all is_digit whole then None
          else if \<not> list_all is_digit frac \<or> 9 < length frac then None
          else Some (whole, frac))"

definition slice :: "nat \<Rightarrow> nat \<Rightarrow> 'a list \<Rightarrow> 'a list" where
  "slice i j xs = take (j - i) (drop i xs)"

text \<open>\<open>digit(\<dots>)? as u16\<close>, \<open>as u8\<close>: on digits only, few enough for a \<open>u32\<close>.\<close>

definition digit :: "string \<Rightarrow> 32 word option" where
  "digit s = map_option of_nat (parse_u32 s)"

definition decode :: "any \<Rightarrow> parts option" where
  "decode a =
     (if an_tag a \<noteq> TAG_GENERALIZED_TIME then None
      else
        Option.bind (split_value (an_value a)) (\<lambda>(whole, frac).
        Option.bind (digit (slice 0 4 whole)) (\<lambda>year.
        Option.bind (digit (slice 4 6 whole)) (\<lambda>month.
        Option.bind (digit (slice 6 8 whole)) (\<lambda>day.
        Option.bind (digit (slice 8 10 whole)) (\<lambda>hour.
        Option.bind (digit (slice 10 12 whole)) (\<lambda>minute.
        Option.bind (digit (slice 12 14 whole)) (\<lambda>second.
        Option.bind (if frac = [] then Some 0
                     else map_option (\<lambda>f. f * 10 ^ (9 - length frac)) (digit frac)) (\<lambda>nanosecond.
        Some \<lparr>pt_year = ucast year, pt_month = ucast month, pt_day = ucast day, pt_hour = ucast hour,
          pt_minute = ucast minute, pt_second = ucast second, pt_nanosecond = nanosecond\<rparr>)))))))))"

definition to_rfc3339 :: "any \<Rightarrow> string option" where
  "to_rfc3339 a =
     Option.bind (decode a) (\<lambda>_.
     Option.bind (strip_last CHR ''Z'' (an_value a)) (\<lambda>s.
     let (whole, frac) = (case split_once CHR ''.'' s of Some (w, f) \<Rightarrow> (w, Some f) | None \<Rightarrow> (s, None)) in
     Some (slice 0 4 whole @ ''-'' @ slice 4 6 whole @ ''-'' @ slice 6 8 whole @ ''T''
       @ slice 8 10 whole @ '':'' @ slice 10 12 whole @ '':'' @ slice 12 14 whole
       @ (case frac of Some f \<Rightarrow> CHR ''.'' # f | None \<Rightarrow> []) @ ''Z'')))"

section \<open>Decimal digits\<close>

lemma digits_value_append: "digits_value (s @ [c]) = digits_value s * 10 + ((of_char c :: nat) - 48)"
  by (simp add: digits_value_def)

lemma digits_value_zeros: "digits_value (replicate n CHR ''0'' @ s) = digits_value s"
  by (induction n) (simp_all add: digits_value_def)

lemma of_char_digit: "n < 10 \<Longrightarrow> (of_char (char_of (48 + n)) :: nat) = 48 + n"
  by (simp add: of_char_of)

lemma is_digit_char: "n < 10 \<Longrightarrow> is_digit (char_of (48 + n :: nat))"
  by (simp add: is_digit_def)

lemma decimal_digits: "list_all is_digit (decimal n)"
  by (induction n rule: decimal.induct) (subst decimal.simps, auto intro: is_digit_char)

lemma decimal_value: "digits_value (decimal n) = n"
proof (induction n rule: decimal.induct)
  case (1 n)
  then show ?case
    by (subst decimal.simps) (auto simp: digits_value_append, simp add: digits_value_def)
qed

lemma decimal_length: "0 < k \<Longrightarrow> n < 10 ^ k \<Longrightarrow> length (decimal n) \<le> k"
proof (induction n arbitrary: k rule: decimal.induct)
  case (1 n)
  show ?case
  proof (cases "n < 10")
    case False
    with 1(3) obtain j where j: "k = Suc j" "0 < j"
      by (cases k; cases "k - 1") auto
    with 1(3) have "n div 10 < 10 ^ j" by (simp add: div_less_iff_less_mult mult.commute)
    with 1(1) [OF False j(2)] j(1) False show ?thesis by (subst decimal.simps) simp
  qed (use 1(2) in \<open>subst decimal.simps, simp\<close>)
qed

lemma padded_digits: "list_all is_digit (padded k n)"
  by (simp add: padded_def decimal_digits) (simp add: list_all_iff is_digit_def)

lemma padded_value: "digits_value (padded k n) = n"
  by (simp add: padded_def digits_value_zeros decimal_value)

lemma padded_length: "0 < k \<Longrightarrow> n < 10 ^ k \<Longrightarrow> length (padded k n) = k"
  using decimal_length [of k n] by (simp add: padded_def)

lemma digit_padded:
  assumes "0 < k" and "k \<le> 9" and "n < 10 ^ k"
  shows "digit (padded k n) = Some (of_nat n)"
proof -
  have "(10::nat) ^ k \<le> 10 ^ 9" using assms(2) by (rule power_increasing) simp
  with assms(3) have "n \<le> 4294967295" by simp
  moreover have "padded k n \<noteq> []" using padded_length [OF assms(1,3)] assms(1) by auto
  ultimately show ?thesis
    using padded_digits [of k n]
    by (cases "padded k n")
      (auto simp: digit_def parse_u32_def parse_unsigned_def padded_value is_digit_def
        dest: arg_cong [of _ _ digits_value])
qed

lemma split_once_digits: "list_all is_digit s \<Longrightarrow> split_once CHR ''.'' (s @ CHR ''.'' # f) = Some (s, f)"
  by (induction s) (auto simp: is_digit_def)

lemma split_once_none: "list_all is_digit s \<Longrightarrow> split_once CHR ''.'' s = None"
  by (induction s) (auto simp: is_digit_def)

lemma split_onceD: "split_once c s = Some (a, b) \<Longrightarrow> s = a @ c # b"
  by (induction s arbitrary: a) (auto split: if_splits)

section \<open>The fraction\<close>

lemma pop_zeros_split: "\<exists>j. s = pop_zeros s @ replicate j CHR ''0''"
proof (induction s rule: rev_induct)
  case (snoc c s)
  then obtain j where j: "s = pop_zeros s @ replicate j CHR ''0''" by blast
  show ?case
  proof (cases "c = CHR ''0''")
    case True
    then have "pop_zeros (s @ [c]) = pop_zeros s" by (simp add: pop_zeros_def)
    with j True show ?thesis
      by (metis append.assoc replicate_append_same replicate_Suc)
  qed (simp add: pop_zeros_def exI [of _ 0])
qed (simp add: pop_zeros_def)

lemma digits_value_shift: "digits_value (s @ replicate j CHR ''0'') = digits_value s * 10 ^ j"
proof (induction j)
  case (Suc j)
  have "s @ replicate (Suc j) CHR ''0'' = (s @ replicate j CHR ''0'') @ [CHR ''0'']"
    by (simp add: replicate_append_same)
  then show ?case unfolding Suc by (simp only: digits_value_append Suc) (simp add: of_char_def)
qed simp

lemma fraction_value:
  assumes "0 < d" and "d \<le> 9" and "n < 10 ^ d" and "f = pop_zeros (padded d n)"
  shows "length f \<le> d" and "list_all is_digit f" and "digits_value f * 10 ^ (9 - length f) = n * 10 ^ (9 - d)"
proof -
  obtain j where j: "padded d n = f @ replicate j CHR ''0''"
    using pop_zeros_split [of "padded d n"] assms(4) by blast
  with padded_length [OF assms(1,3)] have len: "length f + j = d" by (metis length_append length_replicate)
  then show "length f \<le> d" by simp
  show "list_all is_digit f" using padded_digits [of d n] j by simp
  have "n = digits_value f * 10 ^ j"
    using padded_value [of d n] j digits_value_shift [of f j] by simp
  moreover have "9 - length f = j + (9 - d)" using len assms(2) by simp
  ultimately show "digits_value f * 10 ^ (9 - length f) = n * 10 ^ (9 - d)" by (simp add: power_add)
qed

lemma digits_value_bound: "list_all is_digit s \<Longrightarrow> digits_value s < 10 ^ length s"
  by (induction s rule: rev_induct) (auto simp: digits_value_append is_digit_def, simp add: digits_value_def)

lemma digit_digits:
  assumes "list_all is_digit s" and "s \<noteq> []" and "length s \<le> 9"
  shows "digit s = Some (of_nat (digits_value s))"
proof -
  have "(10::nat) ^ length s \<le> 10 ^ 9" using assms(3) by (rule power_increasing) simp
  with digits_value_bound [OF assms(1)] have "digits_value s \<le> 4294967295" by simp
  with assms(1,2) show ?thesis
    by (cases s) (auto simp: digit_def parse_u32_def parse_unsigned_def is_digit_def)
qed

lemma slices:
  assumes "length a = 4" "length b = 2" "length c = 2" "length d = 2" "length e = 2" "length f = 2"
  shows "slice 0 4 (a @ b @ c @ d @ e @ f) = a" "slice 4 6 (a @ b @ c @ d @ e @ f) = b"
    "slice 6 8 (a @ b @ c @ d @ e @ f) = c" "slice 8 10 (a @ b @ c @ d @ e @ f) = d"
    "slice 10 12 (a @ b @ c @ d @ e @ f) = e" "slice 12 14 (a @ b @ c @ d @ e @ f) = f"
  using assms by (simp_all add: slice_def)

section \<open>What is read back\<close>

lemma strip_last_iff: "strip_last c s = Some t \<longleftrightarrow> s = t @ [c]"
  by (cases s rule: rev_cases) (auto simp: strip_last_def)

lemma split_value_iff:
  "split_value v = Some (w, f) \<longleftrightarrow> length w = 14 \<and> list_all is_digit w \<and> list_all is_digit f
     \<and> length f \<le> 9 \<and> (v = w @ CHR ''.'' # f @ ''Z'' \<or> f = [] \<and> v = w @ ''Z'')"
proof
  assume split: "split_value v = Some (w, f)"
  then obtain s where s: "v = s @ ''Z''"
    by (auto simp: split_value_def strip_last_iff split: option.splits)
  with split show "length w = 14 \<and> list_all is_digit w \<and> list_all is_digit f
     \<and> length f \<le> 9 \<and> (v = w @ CHR ''.'' # f @ ''Z'' \<or> f = [] \<and> v = w @ ''Z'')"
    by (auto simp: split_value_def strip_last_def split: option.splits if_splits dest!: split_onceD)
next
  assume "length w = 14 \<and> list_all is_digit w \<and> list_all is_digit f
     \<and> length f \<le> 9 \<and> (v = w @ CHR ''.'' # f @ ''Z'' \<or> f = [] \<and> v = w @ ''Z'')"
  then show "split_value v = Some (w, f)"
    by (auto simp: split_value_def strip_last_def split_once_digits split_once_none butlast_append)
qed

lemma split_of_digits:
  assumes "length w = 14" and "list_all is_digit w" and "list_all is_digit f" and "length f \<le> 9"
  shows "split_value (w @ (if f = [] then [] else CHR ''.'' # f) @ ''Z'') = Some (w, f)"
  using assms by (cases f) (simp_all add: split_value_iff)

text \<open>The fraction that \<open>encode\<close> writes, with the nanoseconds it stands for.\<close>

definition kept_fraction :: "parts \<Rightarrow> nat \<Rightarrow> string" where
  "kept_fraction p d = (if 0 < d then pop_zeros (padded d (unat (pt_nanosecond p) div 10 ^ (9 - d))) else [])"

definition kept_nanoseconds :: "parts \<Rightarrow> nat \<Rightarrow> nat" where
  "kept_nanoseconds p d = unat (pt_nanosecond p) div 10 ^ (9 - d) * 10 ^ (9 - d)"

lemma kept_fraction:
  assumes "d \<le> 9" and "unat (pt_nanosecond p) < 10 ^ 9"
  shows "length (kept_fraction p d) \<le> 9" and "list_all is_digit (kept_fraction p d)"
    and "digits_value (kept_fraction p d) * 10 ^ (9 - length (kept_fraction p d)) = kept_nanoseconds p d"
proof -
  have small: "unat (pt_nanosecond p) div 10 ^ (9 - d) < 10 ^ d"
    using assms by (simp add: div_less_iff_less_mult flip: power_add)
  note f = fraction_value [OF _ assms(1) small refl]
  show "length (kept_fraction p d) \<le> 9" "list_all is_digit (kept_fraction p d)"
    using f(1,2) assms(1) by (auto simp: kept_fraction_def)
  show "digits_value (kept_fraction p d) * 10 ^ (9 - length (kept_fraction p d)) = kept_nanoseconds p d"
  proof (cases "0 < d")
    case False
    then show ?thesis using assms(2) by (simp add: kept_fraction_def kept_nanoseconds_def digits_value_def)
  qed (use f(3) in \<open>simp add: kept_fraction_def kept_nanoseconds_def\<close>)
qed

lemma encode_value:
  "encode p digits = Some a \<Longrightarrow> an_tag a = TAG_GENERALIZED_TIME \<and> an_value a =
     (padded 4 (unat (pt_year p)) @ padded 2 (unat (pt_month p)) @ padded 2 (unat (pt_day p))
      @ padded 2 (unat (pt_hour p)) @ padded 2 (unat (pt_minute p)) @ padded 2 (unat (pt_second p)))
     @ (if kept_fraction p (unat digits) = [] then [] else CHR ''.'' # kept_fraction p (unat digits)) @ ''Z''"
  by (auto simp: encode_def kept_fraction_def Let_def split: if_splits)

lemma word_nonzero: "w = 0 \<longleftrightarrow> \<not> 1 \<le> unat w" for w :: "8 word"
  using unat_eq_0 [of w] by linarith

lemma past_guards: "(if a then None else if b then None else if c then None else Some x) \<noteq> None \<longleftrightarrow> \<not> a \<and> \<not> b \<and> \<not> c"
  by simp

lemma encodable:
  "encode p digits \<noteq> None \<longleftrightarrow> unat (pt_year p) \<le> 9999
     \<and> (1 \<le> unat (pt_month p) \<and> unat (pt_month p) \<le> 12) \<and> (1 \<le> unat (pt_day p) \<and> unat (pt_day p) \<le> 31)
     \<and> unat (pt_hour p) \<le> 23 \<and> unat (pt_minute p) \<le> 59 \<and> unat (pt_second p) \<le> 59 \<and> unat digits \<le> 9"
  unfolding encode_def Let_def word_nonzero past_guards
  by (simp only: de_Morgan_disj not_less not_not conj_assoc)

lemma digit_parts:
  assumes "encode p digits \<noteq> None"
  shows "digit (padded 4 (unat (pt_year p))) = Some (ucast (pt_year p))"
    "digit (padded 2 (unat (pt_month p))) = Some (ucast (pt_month p))"
    "digit (padded 2 (unat (pt_day p))) = Some (ucast (pt_day p))"
    "digit (padded 2 (unat (pt_hour p))) = Some (ucast (pt_hour p))"
    "digit (padded 2 (unat (pt_minute p))) = Some (ucast (pt_minute p))"
    "digit (padded 2 (unat (pt_second p))) = Some (ucast (pt_second p))"
  using assms [unfolded encodable] by (simp_all add: digit_padded)

lemma cast_back:
  "ucast (ucast x :: 32 word) = (x :: 16 word)" "ucast (ucast y :: 32 word) = (y :: 8 word)"
  by (simp_all add: ucast_up_ucast_id is_up)

lemma parts_back:
  "\<lparr>pt_year = ucast (ucast (pt_year p) :: 32 word), pt_month = ucast (ucast (pt_month p) :: 32 word),
    pt_day = ucast (ucast (pt_day p) :: 32 word), pt_hour = ucast (ucast (pt_hour p) :: 32 word),
    pt_minute = ucast (ucast (pt_minute p) :: 32 word), pt_second = ucast (ucast (pt_second p) :: 32 word),
    pt_nanosecond = n\<rparr> = p\<lparr>pt_nanosecond := n\<rparr>"
  by (cases p) (simp add: cast_back)

text \<open>C40. What is written is read back: the instant to the number of digits asked for. The time of a
  token that \<open>encode\<close> accepts, with a fraction below one second, is decoded as the same year, month,
  day, hour, minute and second, and the nanoseconds truncated, never rounded up.\<close>

theorem decode_encode:
  assumes "encode p digits = Some a" and "unat (pt_nanosecond p) < 10 ^ 9"
  shows "decode a = Some (p\<lparr>pt_nanosecond :=
    of_nat (unat (pt_nanosecond p) div 10 ^ (9 - unat digits) * 10 ^ (9 - unat digits))\<rparr>)"
proof -
  let ?w = "padded 4 (unat (pt_year p)) @ padded 2 (unat (pt_month p)) @ padded 2 (unat (pt_day p))
      @ padded 2 (unat (pt_hour p)) @ padded 2 (unat (pt_minute p)) @ padded 2 (unat (pt_second p))"
  let ?f = "kept_fraction p (unat digits)"
  from assms(1) have some: "encode p digits \<noteq> None" by simp
  note range = some [unfolded encodable]
  have lens: "length (padded 4 (unat (pt_year p))) = 4" "length (padded 2 (unat (pt_month p))) = 2"
    "length (padded 2 (unat (pt_day p))) = 2" "length (padded 2 (unat (pt_hour p))) = 2"
    "length (padded 2 (unat (pt_minute p))) = 2" "length (padded 2 (unat (pt_second p))) = 2"
    using range by (simp_all add: padded_length)
  have d: "unat digits \<le> 9" using range by blast
  note kept = kept_fraction [OF d assms(2)]
  have split: "split_value (an_value a) = Some (?w, ?f)"
    using encode_value [OF assms(1)] split_of_digits [of ?w ?f] kept lens padded_digits by simp
  have nanos: "(if ?f = [] then Some 0 else map_option (\<lambda>f. f * 10 ^ (9 - length ?f)) (digit ?f))
      = Some (of_nat (kept_nanoseconds p (unat digits)))"
    using digit_digits [OF kept(2) _ kept(1)] kept(3) [symmetric]
    by (simp add: digits_value_def [of "[]"])
  have tag: "an_tag a = TAG_GENERALIZED_TIME" using encode_value [OF assms(1)] by blast
  show ?thesis
    unfolding decode_def split tag
    by (simp add: slices [OF lens] digit_parts [OF some] parts_back nanos [unfolded kept_nanoseconds_def]
      del: of_nat_mult of_nat_power)
qed

definition sample_parts :: parts where
  "sample_parts = \<lparr>pt_year = 2026, pt_month = 1, pt_day = 15, pt_hour = 10, pt_minute = 0, pt_second = 0,
     pt_nanosecond = 123456789\<rparr>"

theorem decode_encode_witness:
  "\<exists>a. encode sample_parts 3 = Some a \<and> decode a = Some (sample_parts\<lparr>pt_nanosecond := 123000000\<rparr>)"
proof -
  have "encode sample_parts 3 \<noteq> None" unfolding encodable by (simp add: sample_parts_def)
  then obtain a where a: "encode sample_parts 3 = Some a" by blast
  from decode_encode [OF a] have "decode a = Some (sample_parts\<lparr>pt_nanosecond := 123000000\<rparr>)"
    by (simp add: sample_parts_def)
  with a show ?thesis by blast
qed

section \<open>What is accepted\<close>

lemma slice_digits:
  assumes "list_all is_digit w" and "length w = 14" and "j \<le> 14" and "i < j" and "j - i \<le> 9"
  shows "\<exists>n. digit (slice i j w) = Some n"
proof -
  have "list_all is_digit (slice i j w)"
    using assms(1) by (auto simp: slice_def list_all_iff dest: in_set_takeD in_set_dropD)
  moreover have "length (slice i j w) = j - i" using assms(2,3,4) by (simp add: slice_def)
  ultimately show ?thesis using digit_digits [of "slice i j w"] assms(4,5) by fastforce
qed

lemma slices_digits:
  assumes "list_all is_digit w" and "length w = 14"
  shows "\<exists>n. digit (slice 0 4 w) = Some n" "\<exists>n. digit (slice 4 6 w) = Some n"
    "\<exists>n. digit (slice 6 8 w) = Some n" "\<exists>n. digit (slice 8 10 w) = Some n"
    "\<exists>n. digit (slice 10 12 w) = Some n" "\<exists>n. digit (slice 12 14 w) = Some n"
  using assms by (rule slice_digits; simp)+

lemma decode_split:
  "decode a \<noteq> None \<longleftrightarrow> an_tag a = TAG_GENERALIZED_TIME \<and> split_value (an_value a) \<noteq> None"
proof (cases "split_value (an_value a)")
  case (Some p)
  obtain w f where p: "p = (w, f)" by (cases p)
  with Some have shape: "length w = 14" "list_all is_digit w" "list_all is_digit f" "length f \<le> 9"
    by (auto simp: split_value_iff)
  show ?thesis
    using slices_digits [OF shape(2,1)] Some p digit_digits [OF shape(3) _ shape(4)]
    by (elim exE) (simp add: decode_def)
qed (simp add: decode_def)

text \<open>The times that are read: fourteen digits, then a fraction of at most nine digits after a point,
  or none, then a Z, and nothing else; the formatting for a facade accepts the same. No control is
  made of the ranges: a thirteenth month or a ninety-ninth hour is decoded like any other.\<close>

theorem decodable:
  "(decode a \<noteq> None \<longleftrightarrow> an_tag a = TAG_GENERALIZED_TIME \<and>
      (\<exists>w f. length w = 14 \<and> list_all is_digit w \<and> list_all is_digit f \<and> length f \<le> 9
         \<and> an_value a \<in> {w @ CHR ''.'' # f @ ''Z'', w @ ''Z''}))
   \<and> (to_rfc3339 a \<noteq> None \<longleftrightarrow> decode a \<noteq> None)"
proof
  have "split_value v \<noteq> None \<longleftrightarrow> (\<exists>w f. split_value v = Some (w, f))" for v by auto
  also have "(\<exists>w f. split_value v = Some (w, f)) \<longleftrightarrow> (\<exists>w f. length w = 14 \<and> list_all is_digit w
      \<and> list_all is_digit f \<and> length f \<le> 9 \<and> v \<in> {w @ CHR ''.'' # f @ ''Z'', w @ ''Z''})" for v
    unfolding split_value_iff by (auto intro: exI [of _ "[]"])
  finally show "decode a \<noteq> None \<longleftrightarrow> an_tag a = TAG_GENERALIZED_TIME \<and>
      (\<exists>w f. length w = 14 \<and> list_all is_digit w \<and> list_all is_digit f \<and> length f \<le> 9
         \<and> an_value a \<in> {w @ CHR ''.'' # f @ ''Z'', w @ ''Z''})"
    using decode_split [of a] by simp
  have "strip_last CHR ''Z'' (an_value a) \<noteq> None" if "decode a \<noteq> None"
    using that decode_split [of a] by (cases "strip_last CHR ''Z'' (an_value a)") (simp_all add: split_value_def)
  then show "to_rfc3339 a \<noteq> None \<longleftrightarrow> decode a \<noteq> None"
    by (cases "decode a"; cases "strip_last CHR ''Z'' (an_value a)")
      (auto simp: to_rfc3339_def Let_def split: prod.split)
qed

end
