(* ===== verification/Ntp.thy ===== *)
theory Ntp
  imports Prelude "HOL-Library.Word"
begin

unbundle bit_operations_syntax

text \<open>
  \<open>crates/oe-timesource/src/ntp.rs\<close>: the SNTP client. The timestamps of 64 bits, the request with
  its random low-order bits, the controls on a response and the two formulas of RFC 5905.
  An instant is a number of nanoseconds since 1970, a duration a number of nanoseconds.
\<close>

section \<open>Timestamps\<close>

definition NTP_UNIX_EPOCH_OFFSET :: int where "NTP_UNIX_EPOCH_OFFSET = 2208988800"

definition MAX_STRATUM :: byte where "MAX_STRATUM = 15"

definition unix_seconds :: "instant \<Rightarrow> int" where "unix_seconds t = t div 1000000000"
definition nanosecond_of :: "instant \<Rightarrow> nat" where "nanosecond_of t = nat (t mod 1000000000)"

text \<open>The eight bytes written: the seconds cut to 32 bits, the fraction in units of \<open>2\<^sup>-\<^sup>3\<^sup>2\<close> s.\<close>

definition write_ntp_timestamp :: "instant \<Rightarrow> bytes" where
  "write_ntp_timestamp t =
     (let seconds = (word_of_int (unix_seconds t + NTP_UNIX_EPOCH_OFFSET) :: 32 word);
          frac = (word_of_nat (nanosecond_of t * 2 ^ 32 div 1000000000) :: 32 word)
      in be_bytes 4 (unat seconds) @ be_bytes 4 (unat frac))"

text \<open>A number of seconds of 32 bits is always an instant of the library, which goes from the
  year -9999 to 9999: the fallback to the epoch is never taken.\<close>

definition read_ntp_timestamp :: "bytes \<Rightarrow> instant" where
  "read_ntp_timestamp buf =
     (let seconds = int (of_be_bytes (take 4 buf)) - NTP_UNIX_EPOCH_OFFSET;
          frac = of_be_bytes (take 4 (drop 4 buf));
          nanos = frac * 1000000000 div 2 ^ 32
      in seconds * 1000000000 + int nanos)"

section \<open>Request and response\<close>

record ntp_sample =
  ns_offset :: duration
  ns_rtt :: duration
  ns_stratum :: byte
  ns_leap :: byte

datatype ntp_error =
    NtpIo string
  | Truncated
  | Unsolicited
  | BadVersion
  | BadMode
  | NullTimestamp
  | NegativeRoundTrip
  | LeapUnsynchronized
  | KissOfDeath
  | StratumTooHigh
  | RoundTripTooLong duration duration

text \<open>\<open>packet[40..48]\<close> is the transmit timestamp, its last two bytes random.\<close>

definition build_request :: "instant \<Rightarrow> bytes \<Rightarrow> bytes" where
  "build_request t1 random = 0x23 # replicate 39 0 @ take 6 (write_ntp_timestamp t1) @ random"

text \<open>The division of a duration by two, towards zero.\<close>

definition half :: "duration \<Rightarrow> duration" where
  "half d = (if d < 0 then - (- d div 2) else d div 2)"

definition field :: "nat \<Rightarrow> nat \<Rightarrow> bytes \<Rightarrow> bytes" where
  "field i j buf = take (j - i) (drop i buf)"

definition parse_response ::
    "bytes \<Rightarrow> bytes \<Rightarrow> instant \<Rightarrow> instant \<Rightarrow> duration \<Rightarrow> ntp_error + ntp_sample" where
  "parse_response request buf t1 t4 max_rtt =
     sbind (require (\<not> length buf < 48) Truncated) (\<lambda>_.
     sbind (require (field 24 32 buf = field 40 48 request) Unsolicited) (\<lambda>_.
     let leap = drop_bit 6 (buf ! 0);
         version = drop_bit 3 (buf ! 0) AND 7;
         mode = (buf ! 0) AND 7 in
     sbind (require (leap \<noteq> 3) LeapUnsynchronized) (\<lambda>_.
     sbind (require (\<not> (version \<noteq> 3 \<and> version \<noteq> 4)) BadVersion) (\<lambda>_.
     sbind (require (mode = 4) BadMode) (\<lambda>_.
     let stratum = buf ! 1 in
     sbind (require (stratum \<noteq> 0) KissOfDeath) (\<lambda>_.
     sbind (require (\<not> MAX_STRATUM < stratum) StratumTooHigh) (\<lambda>_.
     sbind (require (\<not> (list_all (\<lambda>b. b = 0) (field 32 40 buf) \<or> list_all (\<lambda>b. b = 0) (field 40 48 buf)))
              NullTimestamp) (\<lambda>_.
     let t2 = read_ntp_timestamp (field 32 40 buf);
         t3 = read_ntp_timestamp (field 40 48 buf);
         offset = half ((t2 - t1) + (t3 - t4));
         rtt = (t4 - t1) - (t3 - t2) in
     sbind (require (\<not> rtt < 0) NegativeRoundTrip) (\<lambda>_.
     sbind (require (\<not> max_rtt < rtt) (RoundTripTooLong rtt max_rtt)) (\<lambda>_.
     Inr \<lparr>ns_offset = offset, ns_rtt = rtt, ns_stratum = stratum, ns_leap = leap\<rparr>))))))))))"

text \<open>The well-formed answer of a server of the tests.\<close>

definition server_reply :: "bytes \<Rightarrow> instant \<Rightarrow> duration \<Rightarrow> bytes" where
  "server_reply request t1 offset = [0x24, 2] @ replicate 22 0 @ field 40 48 request
     @ write_ntp_timestamp (t1 + offset) @ write_ntp_timestamp (t1 + offset)"

section \<open>Numbers in bytes\<close>

lemma length_write [simp]: "length (write_ntp_timestamp t) = 8"
  by (simp add: write_ntp_timestamp_def Let_def)

section \<open>Reading what was written\<close>

lemma fraction_back:
  assumes "n < 1000000000"
  shows "n * 2 ^ 32 div 1000000000 < (2 ^ 32 :: nat)"
    and "n * 2 ^ 32 div 1000000000 * 1000000000 div 2 ^ 32 \<le> n"
    and "n \<le> Suc (n * 2 ^ 32 div 1000000000 * 1000000000 div 2 ^ 32)"
  using assms by simp_all

lemma instant_parts: "t = unix_seconds t * 1000000000 + int (nanosecond_of t)" "nanosecond_of t < 1000000000"
  by (simp_all add: unix_seconds_def nanosecond_of_def)

lemma seconds_word: "int (unat (word_of_int u :: 32 word) mod 4294967296) = u mod 4294967296"
  by (simp add: unsigned_of_int take_bit_eq_mod zmod_int)

lemma era_split:
  "u = q * 4294967296 + r \<Longrightarrow>
     (r - c) * 1000000000 + x + q * (4294967296 * 1000000000) = (u - c) * 1000000000 + x" for u :: int
  by simp

lemma read_write:
  "read_ntp_timestamp (write_ntp_timestamp t) =
     ((unix_seconds t + NTP_UNIX_EPOCH_OFFSET) mod 2 ^ 32 - NTP_UNIX_EPOCH_OFFSET) * 1000000000
     + int (nanosecond_of t * 2 ^ 32 div 1000000000 * 1000000000 div 2 ^ 32)"
proof -
  have "unat (word_of_nat (nanosecond_of t * 2 ^ 32 div 1000000000) :: 32 word)
      = nanosecond_of t * 2 ^ 32 div 1000000000"
    using fraction_back(1) [OF instant_parts(2)] by (simp add: unat_of_nat)
  moreover have "nanosecond_of t * 2 ^ 32 div 1000000000 mod 256 ^ 4 = nanosecond_of t * 2 ^ 32 div 1000000000"
    using fraction_back(1) [OF instant_parts(2)] by simp
  ultimately show ?thesis
    unfolding read_ntp_timestamp_def write_ntp_timestamp_def Let_def
    by (simp add: of_be_be seconds_word del: of_int_add)
qed

text \<open>A timestamp of NTP carries the instant to the nanosecond, never later, but only modulo the
  era of \<open>2\<^sup>3\<^sup>2\<close> seconds: from 1900 to February 2036 it is read back as it was written, and an instant of
  the next era as one 136 years before it.\<close>

theorem ntp_timestamp_roundtrip:
  "read_ntp_timestamp (write_ntp_timestamp t)
     + (unix_seconds t + NTP_UNIX_EPOCH_OFFSET) div 2 ^ 32 * seconds (2 ^ 32) \<in> {t - 1 .. t}"
proof -
  let ?u = "unix_seconds t + NTP_UNIX_EPOCH_OFFSET" and ?n = "nanosecond_of t"
  have "?u = ?u div 4294967296 * 4294967296 + ?u mod 4294967296" by simp
  from era_split [OF this, of NTP_UNIX_EPOCH_OFFSET]
  have "read_ntp_timestamp (write_ntp_timestamp t) + ?u div 2 ^ 32 * seconds (2 ^ 32)
      = unix_seconds t * 1000000000 + int (?n * 2 ^ 32 div 1000000000 * 1000000000 div 2 ^ 32)"
    unfolding read_write seconds_def by simp
  moreover note fraction_back(2,3) [OF instant_parts(2) [of t]] instant_parts(1) [of t]
  ultimately show ?thesis by simp
qed

section \<open>What a response is worth\<close>

lemma parse_responseD:
  assumes "parse_response request buf t1 t4 max_rtt = Inr s"
  shows "field 24 32 buf = field 40 48 request" "48 \<le> length buf"
    "ns_rtt s = (t4 - t1) - (read_ntp_timestamp (field 40 48 buf) - read_ntp_timestamp (field 32 40 buf))"
    "ns_offset s = half ((read_ntp_timestamp (field 32 40 buf) - t1) + (read_ntp_timestamp (field 40 48 buf) - t4))"
    "0 \<le> ns_rtt s" "ns_rtt s \<le> max_rtt" "ns_leap s \<noteq> 3" "0 < unat (ns_stratum s)" "ns_stratum s \<le> 15"
  using assms by (auto simp: parse_response_def Let_def wp MAX_STRATUM_def not_less word_gt_0_no unat_gt_0)

lemma half_bounds: "2 * half d \<le> d + 1" "d \<le> 2 * half d + 1"
  by (auto simp: half_def)

text \<open>The measured offset is right to within half of the round trip. Let a server whose clock is
  ahead of the local one by \<open>ahead\<close> receive the request after \<open>out\<close> and have its answer reach
  us after \<open>back\<close>; then an accepted response answers this very request, its round trip is the
  time spent on the way, within the bound, and twice the error of the offset is at most the round
  trip and a nanosecond of rounding. The offset is positive when the server is ahead.\<close>

theorem ntp_offset_bound:
  assumes "parse_response request buf t1 t4 max_rtt = Inr s"
    and "read_ntp_timestamp (field 32 40 buf) = t1 + out + ahead"
    and "t4 = read_ntp_timestamp (field 40 48 buf) - ahead + back" and "0 \<le> out" and "0 \<le> back"
  shows "field 24 32 buf = field 40 48 request \<and> ns_rtt s = out + back \<and> ns_rtt s \<le> max_rtt
    \<and> 2 * \<bar>ns_offset s - ahead\<bar> \<le> ns_rtt s + 1"
proof -
  note s = parse_responseD [OF assms(1)]
  have rtt: "ns_rtt s = out + back" using s(3) assms(2,3) by simp
  have "ns_offset s = half (2 * ahead + (out - back))" using s(4) assms(2,3) by (simp add: algebra_simps)
  note bounds = this half_bounds [of "2 * ahead + (out - back)"] rtt assms(4,5)
  have "2 * (ns_offset s - ahead) \<le> ns_rtt s + 1" using bounds by simp
  moreover have "2 * (ahead - ns_offset s) \<le> ns_rtt s + 1" using bounds by simp
  ultimately have "2 * \<bar>ns_offset s - ahead\<bar> \<le> ns_rtt s + 1" by (simp add: abs_if)
  with s(1,6) rtt show ?thesis by simp
qed

text \<open>A server one second ahead, that answers at once.\<close>

definition sample_request :: bytes where
  "sample_request = 0x23 # replicate 39 0 @ [1, 2, 3, 4, 5, 6, 7, 8]"

definition sample_reply :: bytes where
  "sample_reply = [0x24, 2] @ replicate 22 0 @ [1, 2, 3, 4, 5, 6, 7, 8]
     @ [131, 170, 126, 129, 0, 0, 0, 0] @ [131, 170, 126, 129, 0, 0, 0, 0]"

lemma sample_reply_fields:
  "field 24 32 sample_reply = [1, 2, 3, 4, 5, 6, 7, 8]"
  "field 32 40 sample_reply = [131, 170, 126, 129, 0, 0, 0, 0]"
  "field 40 48 sample_reply = [131, 170, 126, 129, 0, 0, 0, 0]"
  "field 40 48 sample_request = [1, 2, 3, 4, 5, 6, 7, 8]"
  "length sample_reply = 48" "sample_reply ! 0 = 0x24" "sample_reply ! Suc 0 = 2"
  by (simp_all add: field_def sample_reply_def sample_request_def)

lemma sample_reply_time: "read_ntp_timestamp [131, 170, 126, 129, 0, 0, 0, 0] = seconds 1"
  by (simp add: read_ntp_timestamp_def of_be_bytes_def NTP_UNIX_EPOCH_OFFSET_def seconds_def)

theorem ntp_offset_bound_witness:
  "\<exists>s. parse_response sample_request sample_reply 0 0 (seconds 1) = Inr s
     \<and> 2 * \<bar>ns_offset s - seconds 1\<bar> \<le> ns_rtt s + 1"
proof -
  have "\<exists>s. parse_response sample_request sample_reply 0 0 (seconds 1) = Inr s"
    by (simp add: parse_response_def sample_reply_fields sample_reply_time MAX_STRATUM_def seconds_def)
  then obtain s where "parse_response sample_request sample_reply 0 0 (seconds 1) = Inr s" ..
  from ntp_offset_bound [OF this, of 0 "seconds 1" 0] this show ?thesis
    by (auto simp: sample_reply_fields sample_reply_time)
qed

end
