(* ===== verification/Time_Source.thy ===== *)
theory Time_Source
  imports Ntp Ca_Core
begin

text \<open>
  \<open>crates/oe-timesource/src/lib.rs\<close>: the monitor of the time sources (EN 319 421 7.7.2). It
  measures the local clock against several servers, decides whether the time is traceable to
  UTC (\<open>evaluate\<close>), writes each measure to the journal, and gives the time to be stamped, or
  refuses (\<open>monitor_now\<close>). The world of a monitor is its options and status, the journal, the
  clock, the random generator, and the network, whose answers are an oracle.
\<close>

section \<open>Policies, measures, status\<close>

datatype policy = Enforce | Monitor | Disabled

fun policy_text :: "policy \<Rightarrow> string" where
  "policy_text Enforce = ''enforce''"
| "policy_text Monitor = ''monitor''"
| "policy_text Disabled = ''disabled''"

text \<open>\<open>to_lowercase\<close>: the three names are of ASCII letters only, to which no other letter is
  lowered but the Kelvin sign, which none of them contains.\<close>

definition ascii_lower :: "char \<Rightarrow> char" where
  "ascii_lower c = (let n = of_char c :: nat in if 65 \<le> n \<and> n \<le> 90 then char_of (n + 32) else c)"

definition policy_parse :: "string \<Rightarrow> string + policy" where
  "policy_parse s =
     (let t = map ascii_lower (trim s) in
      if t = ''enforce'' then Inr Enforce
      else if t = ''monitor'' then Inr Monitor
      else if t = ''disabled'' then Inr Disabled
      else Inl s)"

datatype source_error = SourceNtp ntp_error | SourceNts string

record sample =
  sm_server :: string
  sm_offset :: duration
  sm_rtt :: duration
  sm_stratum :: byte
  sm_authenticated :: bool
  sm_leap :: byte
  sm_at :: instant
  sm_err :: "source_error option"

definition sample_ok :: "sample \<Rightarrow> bool" where
  "sample_ok s \<longleftrightarrow> sm_err s = None"

text \<open>The reason of a status: a constructor with the values of its message.\<close>

datatype reason =
    NoReason
  | MonitoringDisabled
  | NoMeasure
  | TooFewSources nat nat
  | MeasureTooOld duration duration
  | Drift duration duration
  | Disagreement duration duration
  | JournalOut string
  | LeapNotLogged string

record status =
  st_policy :: policy
  st_traceable :: bool
  st_reason :: reason
  st_offset :: duration
  st_spread :: duration
  st_last_sync :: "instant option"
  st_sources :: "sample list"
  st_leap :: byte

definition status_default :: status where
  "status_default = \<lparr>st_policy = Enforce, st_traceable = False, st_reason = NoReason, st_offset = 0,
     st_spread = 0, st_last_sync = None, st_sources = [], st_leap = 0\<rparr>"

definition leap_name :: "byte \<Rightarrow> string" where
  "leap_name leap = (if leap = 1 then ''insertion'' else if leap = 2 then ''suppression'' else ''aucune'')"

record options =
  mo_servers :: "string list"
  mo_policy :: policy
  mo_max_offset :: duration
  mo_max_age :: duration
  mo_min_sources :: nat
  mo_max_rtt :: duration
  mo_nts_extra_roots :: "bytes list"
  mo_recorder :: bool

datatype new_error = NoServers | QuorumExceedsServers nat nat | InvalidNtsRoot string

section \<open>The world\<close>

text \<open>A session of NTS is what the library of the protocol keeps, as bytes. Opening a socket,
  exchanging one datagram, negotiating a session and asking through it are answered by the
  oracle of the network, in the order of the calls.\<close>

record time_world =
  tw_status :: status
  tw_sessions :: "(string \<times> bytes) list"
  tw_journal :: journal
  tw_clock :: "nat \<Rightarrow> instant"
  tw_tick :: nat
  tw_rand :: "nat \<Rightarrow> byte"
  tw_draws :: nat
  tw_open :: "nat \<Rightarrow> string \<Rightarrow> string option"
  tw_reply :: "nat \<Rightarrow> bytes \<Rightarrow> string + bytes"
  tw_exchange :: "nat \<Rightarrow> string \<Rightarrow> nat \<Rightarrow> string + bytes"
  tw_nts :: "nat \<Rightarrow> bytes \<Rightarrow> (string + ntp_sample) \<times> bytes"
  tw_calls :: nat

text \<open>Functions of the libraries and of the formatting of floating-point numbers.\<close>

record time_deps =
  td_cookies_left :: "bytes \<Rightarrow> nat"
  td_add_root :: "bytes \<Rightarrow> string option"
  td_duration :: "duration \<Rightarrow> string"
  td_rfc3339 :: "instant \<Rightarrow> string option"
  td_reason :: "reason \<Rightarrow> string"
  td_error :: "source_error \<Rightarrow> string"

type_synonym ('x, 'e, 'a) timed = "('x time_world_scheme, 'e, 'a) res"

definition clock_now :: "('x, 'e, instant) timed" where
  "clock_now = (\<lambda>w. (Inr (tw_clock w (tw_tick w)), w\<lparr>tw_tick := tw_tick w + 1\<rparr>))"

definition draw_bytes :: "nat \<Rightarrow> ('x, 'e, bytes) timed" where
  "draw_bytes n = (\<lambda>w. (Inr (map (tw_rand w) [tw_draws w ..< tw_draws w + n]), w\<lparr>tw_draws := tw_draws w + n\<rparr>))"

definition recorder_append :: "string \<Rightarrow> json \<Rightarrow> ('x, string, unit) timed" where
  "recorder_append event data = (\<lambda>w.
     let j = tw_journal w; j' = j\<lparr>j_tries := j_tries j + 1\<rparr> in
     case j_outage j (j_tries j) of
       Some e \<Rightarrow> (Inl e, w\<lparr>tw_journal := j'\<rparr>)
     | None \<Rightarrow> (Inr (), w\<lparr>tw_journal := j'\<lparr>j_entries := j_entries j @ [(event, data)]\<rparr>\<rparr>))"

text \<open>The next answer of the network.\<close>

definition network :: "('x time_world_scheme \<Rightarrow> nat \<Rightarrow> 'e + 'a) \<Rightarrow> ('x, 'e, 'a) timed" where
  "network f = (\<lambda>w. (f w (tw_calls w), w\<lparr>tw_calls := tw_calls w + 1\<rparr>))"

section \<open>One measure\<close>

definition ntp_query :: "string \<Rightarrow> duration \<Rightarrow> ('x, ntp_error, ntp_sample) timed" where
  "ntp_query server max_rtt =
     (let addr = (if CHR '':'' \<in> set server then server else server @ '':123'') in
      bindr (network (\<lambda>w n. case tw_open w n addr of Some e \<Rightarrow> Inl (NtpIo e) | None \<Rightarrow> Inr ())) (\<lambda>_.
      bindr clock_now (\<lambda>t1.
      bindr (draw_bytes 2) (\<lambda>random.
      let packet = build_request t1 random in
      bindr (network (\<lambda>w n. or_else_err NtpIo (tw_reply w n packet))) (\<lambda>buf.
      bindr clock_now (\<lambda>t4.
      lift (parse_response packet (take 48 buf) t1 t4 max_rtt)))))))"

definition NTS_KE_PORT :: nat where "NTS_KE_PORT = 4460"

definition trim_end_matches :: "char \<Rightarrow> string \<Rightarrow> string" where
  "trim_end_matches c s = rev (dropWhile (\<lambda>x. x = c) (rev s))"

text \<open>\<open>str::rsplit_once\<close> of one character.\<close>

definition rsplit_once :: "char \<Rightarrow> string \<Rightarrow> (string \<times> string) option" where
  "rsplit_once c s = (if c \<in> set s then
     Some (rev (tl (dropWhile (\<lambda>x. x \<noteq> c) (rev s))), rev (takeWhile (\<lambda>x. x \<noteq> c) (rev s))) else None)"

definition parse_source :: "string \<Rightarrow> (string \<times> nat) option" where
  "parse_source server =
     (case strip_prefix ''nts://'' server of
        None \<Rightarrow> None
      | Some r \<Rightarrow>
          let rest = trim_end_matches CHR ''/'' r in
          case rsplit_once CHR '':'' rest of
            Some (host, port) \<Rightarrow>
              if host \<noteq> [] then map_option (\<lambda>p. (host, p)) (parse_unsigned 65535 port)
              else if rest \<noteq> [] then Some (rest, NTS_KE_PORT) else None
          | None \<Rightarrow> if rest \<noteq> [] then Some (rest, NTS_KE_PORT) else None)"

definition session_insert :: "string \<Rightarrow> bytes \<Rightarrow> (string \<times> bytes) list \<Rightarrow> (string \<times> bytes) list" where
  "session_insert server s ss = (server, s) # filter (\<lambda>(k, v). k \<noteq> server) ss"

definition set_session :: "string \<Rightarrow> bytes option \<Rightarrow> ('x, 'e, unit) timed" where
  "set_session server s = modify (\<lambda>w. w\<lparr>tw_sessions := (case s of
     Some v \<Rightarrow> session_insert server v (tw_sessions w)
   | None \<Rightarrow> filter (\<lambda>(k, v). k \<noteq> server) (tw_sessions w))\<rparr>)"

definition query_nts :: "time_deps \<Rightarrow> string \<Rightarrow> string \<Rightarrow> nat \<Rightarrow> ('x, string, ntp_sample) timed" where
  "query_nts T server host port =
     bindr (gets (\<lambda>w. map_of (tw_sessions w) server)) (\<lambda>known.
     bindr (case known of
         Some s \<Rightarrow>
           if td_cookies_left T s = 0 then network (\<lambda>w n. tw_exchange w n host port) else ok s
       | None \<Rightarrow> network (\<lambda>w n. tw_exchange w n host port)) (\<lambda>session.
     bindr (network (\<lambda>w n. Inr (tw_nts w n session))) (\<lambda>(answer, session').
     case answer of
       Inr x \<Rightarrow> bindr (set_session server (Some session')) (\<lambda>_. ok x)
     | Inl e \<Rightarrow> bindr (set_session server None) (\<lambda>_. fail e))))"

definition query_source :: "time_deps \<Rightarrow> options \<Rightarrow> string \<Rightarrow> ('x, 'e, sample) timed" where
  "query_source T M server =
     bindr clock_now (\<lambda>at.
     bindr (case parse_source server of
         Some (host, port) \<Rightarrow> bindr (attempt (query_nts T server host port)) (\<lambda>r.
           ok (or_else_err SourceNts r, True))
       | None \<Rightarrow> bindr (attempt (ntp_query server (mo_max_rtt M))) (\<lambda>r.
           ok (or_else_err SourceNtp r, False))) (\<lambda>(result, authenticated).
     ok (case result of
         Inr x \<Rightarrow> \<lparr>sm_server = server, sm_offset = ns_offset x, sm_rtt = ns_rtt x,
           sm_stratum = ns_stratum x, sm_authenticated = authenticated, sm_leap = ns_leap x,
           sm_at = at, sm_err = None\<rparr>
       | Inl e \<Rightarrow> \<lparr>sm_server = server, sm_offset = 0, sm_rtt = 0, sm_stratum = 0,
           sm_authenticated = False, sm_leap = 0, sm_at = at, sm_err = Some e\<rparr>)))"

section \<open>The decision\<close>

definition max_of :: "('a::linorder) list \<Rightarrow> 'a option" where
  "max_of xs = (case xs of [] \<Rightarrow> None | y # ys \<Rightarrow> Some (fold max ys y))"

definition max_abs :: "duration list \<Rightarrow> duration" where
  "max_abs ds = (case max_of (map abs ds) of None \<Rightarrow> 0 | Some d \<Rightarrow> d)"

definition spread :: "duration list \<Rightarrow> duration" where
  "spread ds = (case ds of [] \<Rightarrow> 0 | [d] \<Rightarrow> 0 | d # e # ds' \<Rightarrow> fold max (e # ds') d - fold min (e # ds') d)"

definition evaluate :: "sample list \<Rightarrow> options \<Rightarrow> instant \<Rightarrow> status" where
  "evaluate samples M now =
     (let offsets = map sm_offset (filter sample_ok samples);
          newest = max_of (map sm_at (filter sample_ok samples));
          offset = (if newest = None then 0 else max_abs offsets);
          spreading = (if newest = None then 0 else spread offsets);
          leap = (case max_of (map sm_leap (filter (\<lambda>s. sample_ok s \<and> (sm_leap s = 1 \<or> sm_leap s = 2)) samples)) of
            None \<Rightarrow> 0 | Some l \<Rightarrow> l);
          (traceable, why) =
            (if length offsets < mo_min_sources M then (False, TooFewSources (length offsets) (mo_min_sources M))
             else case newest of
               None \<Rightarrow> (False, NoReason)
             | Some t \<Rightarrow>
                 let age = now - t in
                 if mo_max_age M < age then (False, MeasureTooOld age (mo_max_age M))
                 else if mo_max_offset M < offset then (False, Drift offset (mo_max_offset M))
                 else if mo_max_offset M < spreading then (False, Disagreement spreading (mo_max_offset M))
                 else (True, NoReason))
      in \<lparr>st_policy = mo_policy M, st_traceable = traceable, st_reason = why, st_offset = offset,
          st_spread = spreading, st_last_sync = newest, st_sources = samples, st_leap = leap\<rparr>)"

text \<open>The day of an instant, and whether its minute is the last of the day.\<close>

definition day_of :: "instant \<Rightarrow> int" where "day_of t = t div days 1"

definition leap_second_blocks :: "byte \<Rightarrow> instant option \<Rightarrow> instant \<Rightarrow> bool" where
  "leap_second_blocks leap last_sync now =
     (if leap \<noteq> 1 \<and> leap \<noteq> 2 then False
      else
        let last_minute = (minutes (23 * 60 + 59) \<le> now mod days 1);
            measured_before_the_day_change =
              (case last_sync of None \<Rightarrow> True | Some t \<Rightarrow> day_of t < day_of now)
        in last_minute \<or> measured_before_the_day_change)"

section \<open>The monitor\<close>

fun add_roots :: "time_deps \<Rightarrow> bytes list \<Rightarrow> new_error + unit" where
  "add_roots T [] = Inr ()"
| "add_roots T (c # cs) = (case td_add_root T c of Some e \<Rightarrow> Inl (InvalidNtsRoot e) | None \<Rightarrow> add_roots T cs)"

text \<open>The options as the monitor keeps them, and its first status.\<close>

definition monitor_new :: "time_deps \<Rightarrow> options \<Rightarrow> new_error + options \<times> status" where
  "monitor_new T opts =
     sbind (require (\<not> (mo_policy opts \<noteq> Disabled \<and> mo_servers opts = [])) NoServers) (\<lambda>_.
     let M = (if mo_min_sources opts = 0 then opts\<lparr>mo_min_sources := 1\<rparr> else opts) in
     sbind (require (\<not> (mo_policy M \<noteq> Disabled \<and> length (mo_servers M) < mo_min_sources M))
       (QuorumExceedsServers (mo_min_sources M) (length (mo_servers M)))) (\<lambda>_.
     let status = (if mo_policy M = Disabled
       then status_default\<lparr>st_policy := Disabled, st_traceable := True, st_reason := MonitoringDisabled\<rparr>
       else status_default\<lparr>st_policy := mo_policy M, st_reason := NoMeasure\<rparr>) in
     sbind (add_roots T (mo_nts_extra_roots M)) (\<lambda>_.
     Inr (M, status))))"

datatype not_traceable = NotTraceable reason | LeapSecondAnnounced byte

definition monitor_now :: "options \<Rightarrow> ('x, not_traceable, instant) timed" where
  "monitor_now M =
     bindr (gets tw_status) (\<lambda>status.
     bindr (ensure (\<not> (\<not> st_traceable status \<and> mo_policy M = Enforce)) (NotTraceable (st_reason status))) (\<lambda>_.
     bindr clock_now (\<lambda>now.
     bindr (ensure (\<not> (mo_policy M = Enforce \<and> leap_second_blocks (st_leap status) (st_last_sync status) now))
       (LeapSecondAnnounced (st_leap status))) (\<lambda>_.
     ok now))))"

definition leap_poll_due :: "('x, 'e, bool) timed" where
  "leap_poll_due =
     bindr (gets tw_status) (\<lambda>status.
     if st_leap status = 0 then ok False
     else case st_last_sync status of
       None \<Rightarrow> ok False
     | Some t \<Rightarrow> bindr clock_now (\<lambda>now. ok (day_of t < day_of now)))"

text \<open>The sources as an object by name: a later measure of the same name replaces an earlier one.\<close>

definition opt_json :: "('a \<Rightarrow> json) \<Rightarrow> 'a option \<Rightarrow> json" where
  "opt_json f v = (case v of None \<Rightarrow> JNull | Some x \<Rightarrow> f x)"

definition sample_json :: "time_deps \<Rightarrow> sample \<Rightarrow> json" where
  "sample_json T s = JObj [(''server'', JStr (sm_server s)), (''offset'', JStr (td_duration T (sm_offset s))),
     (''rtt'', JStr (td_duration T (sm_rtt s))), (''stratum'', JNum (uint (sm_stratum s))),
     (''authenticated'', JBool (sm_authenticated s)), (''leap'', JNum (uint (sm_leap s))),
     (''at'', JStr (case td_rfc3339 T (sm_at s) of None \<Rightarrow> [] | Some t \<Rightarrow> t)),
     (''error'', opt_json (\<lambda>e. JStr (td_error T e)) (sm_err s))]"

definition by_name :: "(sample \<Rightarrow> json) \<Rightarrow> sample list \<Rightarrow> json" where
  "by_name f ss = JObj (fold (\<lambda>s. j_insert (sm_server s) (f s)) ss [])"

definition EVENT_TIME_MEASUREMENT :: string where "EVENT_TIME_MEASUREMENT = ''time.measurement''"
definition EVENT_TIME_LEAP_SECOND :: string where "EVENT_TIME_LEAP_SECOND = ''time.leap_second''"

definition measurement :: "time_deps \<Rightarrow> options \<Rightarrow> status \<Rightarrow> json" where
  "measurement T M status = JObj [(''traceable'', JBool (st_traceable status)),
     (''offset'', JStr (td_duration T (st_offset status))),
     (''spread'', JStr (td_duration T (st_spread status))),
     (''reason'', JStr (td_reason T (st_reason status))),
     (''sources'', by_name (sample_json T) (st_sources status)),
     (''max_offset'', JStr (td_duration T (mo_max_offset M)))]"

definition record_measure :: "time_deps \<Rightarrow> options \<Rightarrow> status \<Rightarrow> ('x, 'e, status) timed" where
  "record_measure T M status =
     (if \<not> mo_recorder M then ok status
      else bindr (attempt (recorder_append EVENT_TIME_MEASUREMENT (measurement T M status))) (\<lambda>r.
        ok (case r of Inr _ \<Rightarrow> status
          | Inl e \<Rightarrow> status\<lparr>st_traceable := False, st_reason := JournalOut e\<rparr>)))"

definition leap_event :: "time_deps \<Rightarrow> byte \<Rightarrow> status \<Rightarrow> json" where
  "leap_event T previous_leap status =
     (let (phase, leap) = (if st_leap status \<noteq> 0 then (''annoncee'', st_leap status)
        else (''appliquee'', previous_leap)) in
      JObj [(''phase'', JStr phase), (''leap'', JStr (leap_name leap)),
        (''at'', opt_json JStr (Option.bind (st_last_sync status) (td_rfc3339 T))),
        (''offset'', JStr (td_duration T (st_offset status))),
        (''traceable'', JBool (st_traceable status)),
        (''sources'', by_name (\<lambda>s. JNum (uint (sm_leap s))) (filter sample_ok (st_sources status)))])"

definition record_leap :: "time_deps \<Rightarrow> options \<Rightarrow> byte \<Rightarrow> status \<Rightarrow> ('x, 'e, status) timed" where
  "record_leap T M previous_leap status =
     (if \<not> mo_recorder M then ok status
      else if previous_leap = st_leap status then ok status
      else bindr (attempt (recorder_append EVENT_TIME_LEAP_SECOND (leap_event T previous_leap status))) (\<lambda>r.
        ok (case r of Inr _ \<Rightarrow> status
          | Inl e \<Rightarrow> status\<lparr>st_traceable := False, st_reason := LeapNotLogged e\<rparr>)))"

fun query_all :: "time_deps \<Rightarrow> options \<Rightarrow> string list \<Rightarrow> ('x, 'e, sample list) timed" where
  "query_all T M [] = ok []"
| "query_all T M (s # ss) = bindr (query_source T M s) (\<lambda>x. bindr (query_all T M ss) (\<lambda>xs. ok (x # xs)))"

definition poll_once :: "time_deps \<Rightarrow> options \<Rightarrow> ('x, 'e, unit) timed" where
  "poll_once T M =
     (if mo_policy M = Disabled then ok ()
      else
        bindr (query_all T M (mo_servers M)) (\<lambda>samples.
        bindr clock_now (\<lambda>now.
        bindr (gets (\<lambda>w. st_leap (tw_status w))) (\<lambda>previous_leap.
        bindr (record_measure T M (evaluate samples M now)) (\<lambda>status.
        bindr (record_leap T M previous_leap status) (\<lambda>status'.
        modify (\<lambda>w. w\<lparr>tw_status := status'\<rparr>)))))))"

section \<open>Rules\<close>

lemma runs_clock_now [run]:
  "runs clock_now Q E w \<longleftrightarrow> Q (tw_clock w (tw_tick w)) (w\<lparr>tw_tick := tw_tick w + 1\<rparr>)"
  by (simp add: runs_def clock_now_def)

lemma runs_recorder_append [run]:
  "runs (recorder_append event data) Q E w \<longleftrightarrow>
     (\<forall>e. j_outage (tw_journal w) (j_tries (tw_journal w)) = Some e \<longrightarrow>
        E e (w\<lparr>tw_journal := tried (tw_journal w)\<rparr>))
     \<and> (j_outage (tw_journal w) (j_tries (tw_journal w)) = None \<longrightarrow>
        Q () (w\<lparr>tw_journal := written event data (tw_journal w)\<rparr>))"
  by (simp add: runs_def recorder_append_def Let_def tried_def written_def split: option.splits)

text \<open>What only the poll changes, the status, and what only grows, the journal.\<close>

definition later :: "'x time_world_scheme \<Rightarrow> 'x time_world_scheme \<Rightarrow> bool" where
  "later w v \<longleftrightarrow> tw_status v = tw_status w
     \<and> set (j_entries (tw_journal w)) \<subseteq> set (j_entries (tw_journal v))"

lemma later_refl: "later w w"
  by (simp add: later_def)

lemma keeps_later_calls [pres]:
  "keeps (later w) clock_now" "keeps (later w) (draw_bytes n)" "keeps (later w) (network f)"
  "keeps (later w) (set_session server s)" "keeps (later w) (recorder_append event data)"
  by (auto simp: keeps_def later_def clock_now_def draw_bytes_def network_def set_session_def modify_def
    recorder_append_def Let_def split: option.split)

lemma keeps_later_query [pres]: "keeps (later w) (query_source T M server)"
  unfolding query_source_def query_nts_def ntp_query_def Let_def
  by (auto intro!: pres split: prod.split)

lemma keeps_later_queries [pres]: "keeps (later w) (query_all T M ss)"
  by (induction ss) (auto intro!: pres)

section \<open>What a traceable time rests on\<close>

lemma max_of_Max: "max_of xs = (if xs = [] then None else Some (Max (set xs)))"
  by (cases xs) (simp_all add: max_of_def Max.set_eq_fold [symmetric] del: list.set)

lemma max_abs_bound: "d \<in> set ds \<Longrightarrow> \<bar>d\<bar> \<le> max_abs ds"
  by (auto simp: max_abs_def max_of_Max)

lemma spread_alt: "spread ds = (if ds = [] then 0 else Max (set ds) - Min (set ds))"
proof (cases ds)
  case (Cons d es)
  have "Max (set (d # es)) = fold max es d" "Min (set (d # es)) = fold min es d"
    by (rule Max.set_eq_fold, rule Min.set_eq_fold)
  with Cons show ?thesis unfolding spread_def by (cases es) simp_all
qed (simp add: spread_def)

lemma spread_bound: "d \<in> set ds \<Longrightarrow> e \<in> set ds \<Longrightarrow> d - e \<le> spread ds"
  by (auto simp: spread_alt intro: diff_mono)

text \<open>What the decision has controlled.\<close>

definition agreed :: "options \<Rightarrow> sample list \<Rightarrow> bool" where
  "agreed M ss \<longleftrightarrow> mo_min_sources M \<le> length (filter sample_ok ss)
     \<and> list_all (\<lambda>s. \<bar>sm_offset s\<bar> \<le> mo_max_offset M) (filter sample_ok ss)
     \<and> list_all (\<lambda>s. list_all (\<lambda>s'. sm_offset s - sm_offset s' \<le> mo_max_offset M)
         (filter sample_ok ss)) (filter sample_ok ss)"

lemma evaluate_simps:
  "st_sources (evaluate ss M now) = ss" "st_policy (evaluate ss M now) = mo_policy M"
  "st_last_sync (evaluate ss M now) = max_of (map sm_at (filter sample_ok ss))"
  by (simp_all add: evaluate_def Let_def split: prod.split)

lemma evaluate_traceable:
  assumes "st_traceable (evaluate ss M now)"
  shows "agreed M ss" and "\<exists>t. max_of (map sm_at (filter sample_ok ss)) = Some t \<and> now - t \<le> mo_max_age M"
proof -
  let ?ds = "map sm_offset (filter sample_ok ss)"
  from assms obtain t where t: "max_of (map sm_at (filter sample_ok ss)) = Some t" "now - t \<le> mo_max_age M"
    and ok: "mo_min_sources M \<le> length ?ds" "max_abs ?ds \<le> mo_max_offset M" "spread ?ds \<le> mo_max_offset M"
    by (auto simp: evaluate_def Let_def split: if_splits option.splits prod.splits)
  then show "\<exists>t. max_of (map sm_at (filter sample_ok ss)) = Some t \<and> now - t \<le> mo_max_age M" by blast
  show "agreed M ss"
    unfolding agreed_def list_all_iff
  proof (intro conjI ballI)
    fix s s' assume s: "s \<in> set (filter sample_ok ss)" "s' \<in> set (filter sample_ok ss)"
    with spread_bound [of "sm_offset s" ?ds "sm_offset s'"] ok(3)
    show "sm_offset s - sm_offset s' \<le> mo_max_offset M" by auto
  next
    fix s assume "s \<in> set (filter sample_ok ss)"
    with max_abs_bound [of "sm_offset s" ?ds] ok(2) show "\<bar>sm_offset s\<bar> \<le> mo_max_offset M" by auto
  qed (use ok(1) in simp)
qed

text \<open>The status of a monitor that enforces: either it is not traceable, or the sources agreed and
  the measure is in the journal.\<close>

definition backed :: "time_deps \<Rightarrow> options \<Rightarrow> status \<Rightarrow> 'x time_world_scheme \<Rightarrow> bool" where
  "backed T M st w \<longleftrightarrow> (st_traceable st \<longrightarrow> agreed M (st_sources st) \<and>
     (mo_recorder M \<longrightarrow> (EVENT_TIME_MEASUREMENT, measurement T M st) \<in> set (j_entries (tw_journal w))))"

lemma backed_later: "backed T M st w \<Longrightarrow> later w v \<Longrightarrow> backed T M st v"
  by (auto simp: backed_def later_def)

lemma runs_record_measure:
  "runs (record_measure T M (evaluate ss M now)) (\<lambda>st. backed T M st) E w"
  by (auto simp: record_measure_def run backed_def evaluate_traceable(1) evaluate_simps)

lemma runs_record_leap: "backed T M st w \<Longrightarrow> runs (record_leap T M l st) (\<lambda>st'. backed T M st') E w"
  by (auto simp: record_leap_def run backed_def)

definition monitored :: "time_deps \<Rightarrow> options \<Rightarrow> 'x time_world_scheme \<Rightarrow> bool" where
  "monitored T M w \<longleftrightarrow> backed T M (tw_status w) w"

lemma monitored_later: "later w v \<Longrightarrow> monitored T M w \<Longrightarrow> monitored T M v"
  by (auto simp: monitored_def later_def backed_def)

lemma runs_poll: "monitored T M w \<Longrightarrow> runs (poll_once T M) (\<lambda>_. monitored T M) (\<lambda>_. monitored T M) w"
proof -
  assume w: "monitored T M w"
  have leap: "runs (record_leap T M l st)
      (\<lambda>st'. runs (modify (\<lambda>v. v\<lparr>tw_status := st'\<rparr>)) (\<lambda>_. monitored T M) (\<lambda>_. monitored T M)) (\<lambda>_. monitored T M) v"
    if "backed T M st v" for l st and v :: "'a time_world_scheme"
    by (rule runs_mono [OF runs_record_leap [OF that, where E = "\<lambda>_. monitored T M"]])
      (simp_all add: run monitored_def backed_def)
  have measure: "runs (record_measure T M (evaluate ss M now)) (\<lambda>st. runs (record_leap T M l st)
      (\<lambda>st'. runs (modify (\<lambda>v. v\<lparr>tw_status := st'\<rparr>)) (\<lambda>_. monitored T M) (\<lambda>_. monitored T M)) (\<lambda>_. monitored T M))
      (\<lambda>_. monitored T M) v" for ss now l and v :: "'a time_world_scheme"
    by (rule runs_mono [OF runs_record_measure [where E = "\<lambda>_. monitored T M"]]) (blast intro: leap)+
  show ?thesis
    unfolding poll_once_def runs_if runs_bindr
    using w by (auto simp: run measure intro: monitored_later
      intro!: runs_mono [OF runs_keeps [OF keeps_later_queries later_refl]])
qed

section \<open>The life of a monitor\<close>

text \<open>A poll, a reading of the time, the control of the thread, and writes of others to the journal.\<close>

inductive mon_step :: "time_deps \<Rightarrow> options \<Rightarrow> 'x time_world_scheme \<Rightarrow> 'x time_world_scheme \<Rightarrow> bool" for T M where
  mon_poll: "mon_step T M w (snd (poll_once T M w :: (unit + unit) \<times> 'x time_world_scheme))"
| mon_now: "mon_step T M w (snd (monitor_now M w))"
| mon_due: "mon_step T M w (snd (leap_poll_due w :: (unit + bool) \<times> 'x time_world_scheme))"
| mon_other: "mon_step T M w (snd (recorder_append event data w))"

abbreviation mon_steps :: "time_deps \<Rightarrow> options \<Rightarrow> 'x time_world_scheme \<Rightarrow> 'x time_world_scheme \<Rightarrow> bool" where
  "mon_steps T M \<equiv> (mon_step T M)\<^sup>*\<^sup>*"

lemma keeps_later_reads [pres]: "keeps (later w) (monitor_now M)" "keeps (later w) leap_poll_due"
  unfolding monitor_now_def leap_poll_due_def by (auto intro!: pres)

lemma later_snd: "keeps (later w) m \<Longrightarrow> later w (snd (m w))"
  by (simp add: keeps_def later_refl)

lemma runs_snd: "runs m (\<lambda>_. P) (\<lambda>_. P) w \<Longrightarrow> P (snd (m w))"
  by (auto simp: runs_def split: prod.splits sum.splits)

lemma mon_step_monitored: "mon_step T M w v \<Longrightarrow> monitored T M w \<Longrightarrow> monitored T M v"
  by (cases rule: mon_step.cases)
    (auto intro: runs_snd runs_poll monitored_later later_snd keeps_later_reads keeps_later_calls)

lemma mon_steps_monitored: "mon_steps T M w v \<Longrightarrow> monitored T M w \<Longrightarrow> monitored T M v"
  by (induction rule: rtranclp_induct) (auto dest: mon_step_monitored)

lemma monitor_newD:
  "monitor_new T opts = Inr (M, st) \<Longrightarrow> 1 \<le> mo_min_sources M \<and> mo_policy M = mo_policy opts
     \<and> (mo_policy M \<noteq> Disabled \<longrightarrow> \<not> st_traceable st \<and> mo_min_sources M \<le> length (mo_servers M))"
  by (auto simp: monitor_new_def Let_def wp status_default_def Suc_le_eq split: if_splits)

lemma monitor_nowD:
  assumes "monitor_now M w = (Inr t, v)" and "mo_policy M = Enforce"
  shows "st_traceable (tw_status w)" and "t = tw_clock w (tw_tick w)"
    and "\<not> leap_second_blocks (st_leap (tw_status w)) (st_last_sync (tw_status w)) t"
  using assms by (auto simp: monitor_now_def wp clock_now_def split: if_splits)

text \<open>C27. The time rests on an agreement of the sources. A monitor that enforces the policy gives a time
  only when the sources of its last poll, at least as many as required and at least one, are each
  within the bound of the local clock and within the bound of each other, when that measure is in
  the journal, and when no announced leap second is being applied; from the start to the first
  poll, and after a poll of which the measure could not be written, it gives none.\<close>

theorem time_is_backed:
  assumes "monitor_new T opts = Inr (M, tw_status w)" and "mo_policy opts = Enforce"
    and "mon_steps T M w v" and "monitor_now M v = (Inr t, u)"
  shows "agreed M (st_sources (tw_status v)) \<and> 1 \<le> mo_min_sources M
    \<and> (mo_recorder M \<longrightarrow>
        (EVENT_TIME_MEASUREMENT, measurement T M (tw_status v)) \<in> set (j_entries (tw_journal v)))
    \<and> \<not> leap_second_blocks (st_leap (tw_status v)) (st_last_sync (tw_status v)) t"
proof -
  from monitor_newD [OF assms(1)] assms(2)
  have M: "1 \<le> mo_min_sources M" "mo_policy M = Enforce" and "\<not> st_traceable (tw_status w)" by auto
  then have "monitored T M w" by (simp add: monitored_def backed_def)
  with assms(3) have "monitored T M v" by (rule mon_steps_monitored)
  with monitor_nowD [OF assms(4) M(2)] M(1) show ?thesis by (simp add: monitored_def backed_def)
qed

text \<open>C28. The time given does not age. The decision compares the age of the measures with the bound only
  at the end of a poll, when they were just made. Once a poll found the time traceable and no leap
  second is announced, the time is given however long ago that was: also when the same decision,
  taken at the moment of the call on the same measures, would find them out of date.\<close>

theorem stale_measure_is_served:
  assumes "tw_status w = evaluate ss M polled" and "st_traceable (tw_status w)" and "st_leap (tw_status w) = 0"
    and "max_of (map sm_at (filter sample_ok ss)) = Some t" and "mo_max_age M < tw_clock w (tw_tick w) - t"
  shows "fst (monitor_now M w) = Inr (tw_clock w (tw_tick w))
    \<and> \<not> st_traceable (evaluate ss M (tw_clock w (tw_tick w)))"
proof
  show "fst (monitor_now M w) = Inr (tw_clock w (tw_tick w))"
    using assms(2,3) by (simp add: monitor_now_def bindr_def gets_def ensure_def ok_def clock_now_def
      leap_second_blocks_def)
  show "\<not> st_traceable (evaluate ss M (tw_clock w (tw_tick w)))"
    using evaluate_traceable(2) assms(4,5) by fastforce
qed

section \<open>A monitor of one source\<close>

definition sample_time_deps :: time_deps where
  "sample_time_deps = \<lparr>td_cookies_left = length, td_add_root = (\<lambda>_. None), td_duration = (\<lambda>_. ''d''),
     td_rfc3339 = (\<lambda>_. None), td_reason = (\<lambda>_. ''r''), td_error = (\<lambda>_. ''e'')\<rparr>"

definition sample_options :: options where
  "sample_options = \<lparr>mo_servers = [''nts://a''], mo_policy = Enforce, mo_max_offset = seconds 1,
     mo_max_age = seconds 3600, mo_min_sources = 1, mo_max_rtt = seconds 1, mo_nts_extra_roots = [],
     mo_recorder = True\<rparr>"

text \<open>The clock shows the first second, and at its third reading, the one after the poll, a year later.\<close>

definition sample_time :: time_world where
  "sample_time = \<lparr>tw_status = status_default\<lparr>st_reason := NoMeasure\<rparr>, tw_sessions = [],
     tw_journal = \<lparr>j_entries = [], j_tries = 0, j_outage = (\<lambda>_. None)\<rparr>,
     tw_clock = (\<lambda>n. if n < 2 then seconds 1 else days 365), tw_tick = 0, tw_rand = (\<lambda>_. 0), tw_draws = 0,
     tw_open = (\<lambda>_ _. None), tw_reply = (\<lambda>_ _. Inl ''lost''), tw_exchange = (\<lambda>_ _ _. Inr [1]),
     tw_nts = (\<lambda>_ s. (Inr \<lparr>ns_offset = 5, ns_rtt = 7, ns_stratum = 1, ns_leap = 0\<rparr>, s)), tw_calls = 0\<rparr>"

definition sample_polled :: time_world where
  "sample_polled = snd (poll_once sample_time_deps sample_options sample_time :: (unit + unit) \<times> time_world)"

definition sample_measure :: sample where
  "sample_measure = \<lparr>sm_server = ''nts://a'', sm_offset = 5, sm_rtt = 7, sm_stratum = 1,
     sm_authenticated = True, sm_leap = 0, sm_at = seconds 1, sm_err = None\<rparr>"

lemma sample_poll: "tw_status sample_polled = evaluate [sample_measure] sample_options (seconds 1)"
  by code_simp

lemma sample_polled_facts: "st_traceable (tw_status sample_polled)" "st_leap (tw_status sample_polled) = 0"
  "\<not> isl (fst (monitor_now sample_options sample_polled))" "tw_clock sample_polled (tw_tick sample_polled) = days 365"
  by code_simp+

theorem time_is_backed_witness: "agreed sample_options [sample_measure]"
proof -
  have new: "monitor_new sample_time_deps sample_options = Inr (sample_options, tw_status sample_time)"
    by (simp add: monitor_new_def sample_options_def sample_time_def status_default_def)
  have steps: "mon_steps sample_time_deps sample_options sample_time sample_polled"
    unfolding sample_polled_def by (rule r_into_rtranclp, rule mon_poll)
  obtain t u where "monitor_now sample_options sample_polled = (Inr t, u)"
    using sample_polled_facts(3) by (metis isl_def prod.collapse sum.collapse(2))
  from time_is_backed [OF new _ steps this] show ?thesis
    by (simp add: sample_options_def sample_poll evaluate_simps)
qed

theorem stale_measure_is_served_witness: "fst (monitor_now sample_options sample_polled) = Inr (days 365)"
proof -
  have "max_of (map sm_at (filter sample_ok [sample_measure])) = Some (seconds 1)" by code_simp
  moreover have "mo_max_age sample_options < tw_clock sample_polled (tw_tick sample_polled) - seconds 1"
    by (simp add: sample_polled_facts sample_options_def days_def hours_def minutes_def seconds_def)
  ultimately show ?thesis
    using stale_measure_is_served [OF sample_poll sample_polled_facts(1,2)] sample_polled_facts(4) by simp
qed

end
