(* ===== verification/Audit_Log.thy ===== *)
theory Audit_Log
  imports Webauthn
begin

text \<open>
  \<open>crates/oe-audit/src/lib.rs\<close>: the journal, a file of lines of JSON chained by their SHA-256
  digests, written by several processes at a time. The file is its bytes; the parser and the
  serialiser of JSON and the digest are functions of the libraries. An error of the file system
  is an argument of the operation that it befalls.
\<close>

section \<open>Records\<close>

definition GENESIS_HASH :: string where "GENESIS_HASH = replicate 64 CHR ''0''"

definition EVENT_SEALED :: string where "EVENT_SEALED = ''log.sealed''"

record payload =
  pl_seq :: "64 word"
  pl_time :: string
  pl_event :: string
  pl_data :: "(string \<times> json) list option"
  pl_prev :: string

record log_record = payload +
  lr_hash :: string

record json_lib =
  jl_payload :: "payload \<Rightarrow> string + bytes"
  jl_record :: "log_record \<Rightarrow> string + bytes"
  jl_parse :: "bytes \<Rightarrow> string + log_record"
  jl_sha256 :: "bytes \<Rightarrow> bytes"

datatype audit_error =
    AuditIo string
  | AuditJson string
  | UnreadableLine nat string
  | BrokenChain "64 word" string string
  | BrokenSequence "64 word" "64 word"
  | TamperedRecord "64 word" string string

text \<open>The escapes of Go on the bytes of a JSON text: \<open><\<close>, \<open>>\<close>, \<open>&\<close>, and U+2028 and U+2029, which are
  E2 80 A8 and E2 80 A9.\<close>

definition escaped :: "string \<Rightarrow> bytes" where
  "escaped digits = text_bytes (CHR 0x5C # CHR ''u'' # digits)"

definition escape_byte :: "byte \<Rightarrow> bytes" where
  "escape_byte b = (if b = 0x3C then escaped ''003c'' else if b = 0x3E then escaped ''003e''
     else if b = 0x26 then escaped ''0026'' else [b])"

fun html_escape_json :: "bytes \<Rightarrow> bytes" where
  "html_escape_json (b # c # d # rest) =
     (if b = 0xE2 \<and> c = 0x80 \<and> (d = 0xA8 \<or> d = 0xA9)
      then escaped (if d = 0xA8 then ''2028'' else ''2029'') @ html_escape_json rest
      else escape_byte b @ html_escape_json (c # d # rest))"
| "html_escape_json (b # bs) = escape_byte b @ html_escape_json bs"
| "html_escape_json [] = []"

definition payload_bytes :: "json_lib \<Rightarrow> log_record \<Rightarrow> string + bytes" where
  "payload_bytes J r = sbind (jl_payload J (payload.truncate r)) (\<lambda>raw. Inr (html_escape_json raw))"

definition compute_hash :: "json_lib \<Rightarrow> log_record \<Rightarrow> audit_error + string" where
  "compute_hash J r = sbind (or_else_err AuditJson (payload_bytes J r)) (\<lambda>raw.
     Inr (hex_encode (jl_sha256 J raw)))"

section \<open>Reading the chain\<close>

record report =
  rp_records :: nat
  rp_first :: "64 word"
  rp_last :: "64 word"
  rp_head :: string
  rp_seals :: nat

definition report_default :: report where
  "report_default = \<lparr>rp_records = 0, rp_first = 0, rp_last = 0, rp_head = GENESIS_HASH, rp_seals = 0\<rparr>"

definition check_record :: "json_lib \<Rightarrow> nat \<Rightarrow> bytes \<Rightarrow> report \<Rightarrow> audit_error + log_record \<times> report" where
  "check_record J line_no raw report =
     sbind (or_else_err (UnreadableLine line_no) (jl_parse J raw)) (\<lambda>r.
     sbind (require (\<not> pl_prev r \<noteq> rp_head report) (BrokenChain (pl_seq r) (rp_head report) (pl_prev r))) (\<lambda>_.
     let expected = (if rp_records report = 0 then pl_seq r else rp_last report + 1) in
     sbind (require (\<not> pl_seq r \<noteq> expected) (BrokenSequence expected (pl_seq r))) (\<lambda>_.
     sbind (compute_hash J r) (\<lambda>hash.
     sbind (require (\<not> hash \<noteq> lr_hash r) (TamperedRecord (pl_seq r) hash (lr_hash r))) (\<lambda>_.
     Inr (r, \<lparr>rp_records = rp_records report + 1,
       rp_first = (if rp_records report = 0 then pl_seq r else rp_first report), rp_last = pl_seq r,
       rp_head = lr_hash r,
       rp_seals = (if pl_event r = EVENT_SEALED then rp_seals report + 1 else rp_seals report)\<rparr>))))))"

abbreviation newline :: byte where "newline \<equiv> 10"

text \<open>\<open>scan_chain\<close>: the lines from \<open>line_no\<close> on, with the report, the records and the number of
  bytes read so far. The last line needs no newline.\<close>

function scan :: "json_lib \<Rightarrow> nat \<Rightarrow> bytes \<Rightarrow> report \<Rightarrow> log_record list \<Rightarrow> nat
    \<Rightarrow> audit_error + report \<times> log_record list \<times> nat" where
  "scan J line_no buf report sink read =
     (if buf = [] then Inr (report, sink, read)
      else
        let raw = takeWhile (\<lambda>b. b \<noteq> newline) buf;
            rest = dropWhile (\<lambda>b. b \<noteq> newline) buf;
            has_newline = (rest \<noteq> []);
            read' = read + length raw + (if has_newline then 1 else 0) in
        if raw = [] then scan J (line_no + 1) (tl rest) report sink read'
        else
          sbind (check_record J (line_no + 1) raw report) (\<lambda>(r, report').
          if \<not> has_newline then Inr (report', sink @ [r], read')
          else scan J (line_no + 1) (tl rest) report' (sink @ [r]) read'))"
  by pat_completeness auto

lemma shorter_rest: "buf \<noteq> [] \<Longrightarrow> length (dropWhile P buf) - Suc 0 < length buf" for buf :: bytes
  using length_dropWhile_le [of P buf] by (cases buf) (auto simp: le_less_trans less_Suc_eq_le)

termination scan
  by (relation "measure (\<lambda>(J, n, buf, rep, sink, k). length buf)") (auto intro: shorter_rest)

declare scan.simps [simp del]

definition verify :: "json_lib \<Rightarrow> bytes \<Rightarrow> audit_error + report" where
  "verify J file = sbind (scan J 0 file report_default [] 0) (\<lambda>(report, records, n). Inr report)"

definition read_log :: "json_lib \<Rightarrow> bytes \<Rightarrow> audit_error + log_record list" where
  "read_log J file = sbind (scan J 0 file report_default [] 0) (\<lambda>(report, records, n). Inr records)"

section \<open>Writing\<close>

text \<open>\<open>Log\<close>: the position up to which this process has read and verified the file.\<close>

record log_state =
  lg_seq :: "64 word"
  lg_head :: string
  lg_offset :: nat

definition log_open :: "json_lib \<Rightarrow> bytes \<Rightarrow> audit_error + log_state" where
  "log_open J file = sbind (scan J 0 file report_default [] 0) (\<lambda>(report, records, n).
     Inr \<lparr>lg_seq = rp_last report, lg_head = rp_head report, lg_offset = n\<rparr>)"

definition catch_up :: "json_lib \<Rightarrow> bytes \<Rightarrow> log_state \<Rightarrow> audit_error + log_state" where
  "catch_up J file st =
     (let report = report_default\<lparr>rp_last := lg_seq st, rp_head := lg_head st, rp_records := unat (lg_seq st)\<rparr> in
      sbind (scan J 0 (drop (lg_offset st) file) report [] 0) (\<lambda>(report', records, n).
      Inr \<lparr>lg_seq = rp_last report', lg_head = rp_head report', lg_offset = lg_offset st + n\<rparr>))"

text \<open>How the file system answers an append: it fails before anything is written, after \<open>n\<close> bytes
  of the line, or after all of it, at the synchronisation; or it does not fail.\<close>

datatype disk = Disk_ok | Fails_first string | Fails_writing nat string | Fails_sync string

definition new_record :: "json_lib \<Rightarrow> log_state \<Rightarrow> string \<Rightarrow> string \<Rightarrow> (string \<times> json) list option
    \<Rightarrow> audit_error + log_record" where
  "new_record J st time event data =
     (let r = \<lparr>pl_seq = lg_seq st + 1, pl_time = time, pl_event = event, pl_data = data,
        pl_prev = lg_head st, lr_hash = []\<rparr> in
      sbind (compute_hash J r) (\<lambda>hash. Inr (r\<lparr>lr_hash := hash\<rparr>)))"

definition record_line :: "json_lib \<Rightarrow> log_record \<Rightarrow> audit_error + bytes" where
  "record_line J r = sbind (or_else_err AuditJson (jl_record J r)) (\<lambda>raw. Inr (html_escape_json raw @ [newline]))"

text \<open>The answer, what the process remembers and the file, after an append under the lock.\<close>

definition log_append :: "json_lib \<Rightarrow> string \<Rightarrow> string \<Rightarrow> (string \<times> json) list option \<Rightarrow> disk
    \<Rightarrow> log_state \<Rightarrow> bytes \<Rightarrow> (audit_error + unit) \<times> log_state \<times> bytes" where
  "log_append J time event data disk st file =
     (case disk of Fails_first e \<Rightarrow> (Inl (AuditIo e), st, file)
      | _ \<Rightarrow>
     (case catch_up J file st of Inl e \<Rightarrow> (Inl e, st, file)
      | Inr st' \<Rightarrow>
     (case sbind (new_record J st' time event data) (\<lambda>r. sbind (record_line J r) (\<lambda>line. Inr (r, line))) of
        Inl e \<Rightarrow> (Inl e, st', file)
      | Inr (r, line) \<Rightarrow>
     (case disk of
        Fails_writing n e \<Rightarrow> (Inl (AuditIo e), st', file @ take n line)
      | Fails_sync e \<Rightarrow> (Inl (AuditIo e), st', file @ line)
      | _ \<Rightarrow> (Inr (), \<lparr>lg_seq = pl_seq r, lg_head = lr_hash r, lg_offset = lg_offset st' + length line\<rparr>,
              file @ line)))))"

definition log_head :: "json_lib \<Rightarrow> log_state \<Rightarrow> bytes \<Rightarrow> (audit_error + 64 word \<times> string) \<times> log_state" where
  "log_head J st file = (case catch_up J file st of
     Inl e \<Rightarrow> (Inl e, st) | Inr st' \<Rightarrow> (Inr (lg_seq st', lg_head st'), st'))"

section \<open>Reading on\<close>

text \<open>Where a line ends: an empty text, or one whose last byte is a newline.\<close>

definition whole_lines :: "bytes \<Rightarrow> bool" where
  "whole_lines f \<longleftrightarrow> f = [] \<or> last f = newline"

lemma scan_Nil: "scan J n [] rep sink k = Inr (rep, sink, k)"
  by (simp add: scan.simps)

lemma scan_blank: "scan J n (newline # buf) rep sink k = scan J (n + 1) buf rep sink (k + 1)"
  by (subst scan.simps) simp

lemma cut_line:
  assumes "newline \<notin> set raw"
  shows "takeWhile (\<lambda>b. b \<noteq> newline) (raw @ newline # buf) = raw" "takeWhile (\<lambda>b. b \<noteq> newline) raw = raw"
    "dropWhile (\<lambda>b. b \<noteq> newline) (raw @ newline # buf) = newline # buf" "dropWhile (\<lambda>b. b \<noteq> newline) raw = []"
  using assms by (induction raw) auto

lemma scan_line:
  assumes "raw \<noteq> []" and "newline \<notin> set raw"
  shows "scan J n (raw @ newline # buf) rep sink k = sbind (check_record J (n + 1) raw rep) (\<lambda>(r, rep').
    scan J (n + 1) buf rep' (sink @ [r]) (k + length raw + 1))"
    and "scan J n raw rep sink k = sbind (check_record J (n + 1) raw rep) (\<lambda>(r, rep').
      Inr (rep', sink @ [r], k + length raw))"
  using assms(1) by (subst scan.simps, simp add: cut_line [OF assms(2)] Let_def)+

lemma first_line:
  "buf \<noteq> [] \<Longrightarrow> (newline \<notin> set buf) \<or> (\<exists>raw rest. buf = raw @ newline # rest \<and> newline \<notin> set raw)"
  by (metis in_set_conv_decomp_first)

lemma text_induct [case_names Nil Blank Line End]:
  assumes "P []" and "\<And>buf. P buf \<Longrightarrow> P (newline # buf)"
    and "\<And>raw buf. raw \<noteq> [] \<Longrightarrow> newline \<notin> set raw \<Longrightarrow> P buf \<Longrightarrow> P (raw @ newline # buf)"
    and "\<And>raw. raw \<noteq> [] \<Longrightarrow> newline \<notin> set raw \<Longrightarrow> P raw"
  shows "P f"
proof (induction f rule: length_induct)
  case (1 f)
  show ?case
  proof (cases "f = []")
    case False
    from first_line [OF False] show ?thesis
    proof (elim disjE exE conjE)
      fix raw rest assume f: "f = raw @ newline # rest" "newline \<notin> set raw"
      with 1 have "P rest" by simp
      with f assms(2,3) show ?thesis by (cases "raw = []") auto
    qed (use False assms(4) in blast)
  qed (use assms(1) in simp)
qed

lemma whole_lines_simps [simp]:
  "whole_lines []" "whole_lines (newline # buf) \<longleftrightarrow> whole_lines buf"
  "whole_lines (raw @ newline # buf) \<longleftrightarrow> whole_lines buf"
  "whole_lines f \<Longrightarrow> whole_lines g \<Longrightarrow> whole_lines (f @ g)"
  by (auto simp: whole_lines_def last_append)

lemma whole_lines_end: "raw \<noteq> [] \<Longrightarrow> newline \<notin> set raw \<Longrightarrow> \<not> whole_lines raw"
  by (metis last_in_set whole_lines_def)

text \<open>After lines that were read, a reading goes on with the rest.\<close>

lemma scan_append:
  assumes "whole_lines f" and "scan J n f rep sink k = Inr (rep', rs, m)"
  shows "\<exists>n'. \<forall>g. scan J n (f @ g) rep sink k = scan J n' g rep' rs m"
  using assms
proof (induction f arbitrary: n rep sink k rule: text_induct)
  case Nil
  then show ?case by (auto simp: scan_Nil)
next
  case (Blank buf)
  then have "scan J (n + 1) buf rep sink (k + 1) = Inr (rep', rs, m)" by (simp add: scan_blank)
  from Blank(1) [OF _ this] Blank(2) show ?case by (simp add: scan_blank)
next
  case (Line raw buf)
  from Line(5) obtain r rep1 where c: "check_record J (n + 1) raw rep = Inr (r, rep1)"
    and s: "scan J (n + 1) buf rep1 (sink @ [r]) (k + length raw + 1) = Inr (rep', rs, m)"
    by (auto simp: scan_line(1) [OF Line(1,2)] wp simp del: One_nat_def)
  from Line(3) [OF _ s] Line(4) show ?case by (simp add: scan_line(1) [OF Line(1,2)] c [simplified])
qed (simp add: whole_lines_end)

lemma check_record_line:
  "check_record J n raw rep = Inr x \<Longrightarrow> check_record J n' raw rep = Inr x"
  by (auto simp: check_record_def wp)

text \<open>Reports with the same end of the chain.\<close>

definition same_tip :: "report \<Rightarrow> report \<Rightarrow> bool" where
  "same_tip a b \<longleftrightarrow> rp_head a = rp_head b \<and> rp_last a = rp_last b \<and> (rp_records a = 0 \<longleftrightarrow> rp_records b = 0)"

lemma check_record_tip:
  assumes "check_record J n raw rep = Inr (r, rep1)" and "same_tip rep rep'"
  shows "\<exists>rep1'. check_record J n' raw rep' = Inr (r, rep1') \<and> same_tip rep1 rep1'"
  using assms by (auto simp: check_record_def wp Let_def same_tip_def)

lemma scan_resume:
  assumes "scan J n f rep sink k = Inr (rep1, rs, m)" and "same_tip rep rep'"
  shows "\<exists>rep1' new. rs = sink @ new \<and> m = k + length f \<and> same_tip rep1 rep1'
    \<and> scan J n' f rep' sink' k' = Inr (rep1', sink' @ new, k' + length f)"
  using assms
proof (induction f arbitrary: n n' rep rep' sink sink' k k' rule: text_induct)
  case Nil
  then show ?case by (auto simp: scan_Nil)
next
  case (Blank buf)
  then have "scan J (n + 1) buf rep sink (k + 1) = Inr (rep1, rs, m)" by (simp add: scan_blank)
  from Blank(1) [OF this Blank(3), of "n' + 1" sink' "k' + 1"] show ?case by (auto simp: scan_blank)
next
  case (Line raw buf)
  from Line(4) obtain r repc where c: "check_record J (n + 1) raw rep = Inr (r, repc)"
    and s: "scan J (n + 1) buf repc (sink @ [r]) (k + length raw + 1) = Inr (rep1, rs, m)"
    by (auto simp: scan_line(1) [OF Line(1,2)] wp simp del: One_nat_def)
  from check_record_tip [OF c Line(5)] obtain repc' where
    c': "check_record J (n' + 1) raw rep' = Inr (r, repc')" "same_tip repc repc'" by blast
  from Line(3) [OF s c'(2), of "n' + 1" "sink' @ [r]" "k' + length raw + 1"] show ?case
    by (auto simp: scan_line(1) [OF Line(1,2)] c'(1) [simplified])
next
  case (End raw)
  from End(3) obtain r where c: "check_record J (n + 1) raw rep = Inr (r, rep1)"
    and s: "rs = sink @ [r]" "m = k + length raw"
    by (auto simp: scan_line(2) [OF End(1,2)] wp)
  from check_record_tip [OF c End(4)] obtain repc' where
    c': "check_record J (n' + 1) raw rep' = Inr (r, repc')" "same_tip rep1 repc'" by blast
  with s show ?case by (auto simp: scan_line(2) [OF End(1,2)])
qed

section \<open>A journal written by several processes\<close>

text \<open>What the journal asks of \<open>serde_json\<close>: a compact JSON text has no newline, and is read back,
  with the escapes of Go, as the record that it was.\<close>

definition json_ok :: "json_lib \<Rightarrow> bool" where
  "json_ok J \<longleftrightarrow> (\<forall>r raw. jl_record J r = Inr raw \<longrightarrow>
     raw \<noteq> [] \<and> newline \<notin> set raw \<and> jl_parse J (html_escape_json raw) = Inr r)"

lemma escape_clean: "newline \<notin> set (escaped ''2028'')" "newline \<notin> set (escaped ''2029'')"
  "b \<noteq> newline \<Longrightarrow> newline \<notin> set (escape_byte b)" "escape_byte b \<noteq> []"
  by (auto simp: escape_byte_def escaped_def text_bytes_def)

lemma html_escape_clean: "newline \<notin> set bs \<Longrightarrow> newline \<notin> set (html_escape_json bs)"
  by (induction bs rule: html_escape_json.induct) (auto simp: escape_clean)

lemma html_escape_nonempty: "bs \<noteq> [] \<Longrightarrow> html_escape_json bs \<noteq> []"
  by (cases bs rule: html_escape_json.cases) (auto simp: escape_clean escaped_def text_bytes_def)

text \<open>A file whose lines are chained from the first record, which has the number 1.\<close>

definition reads :: "json_lib \<Rightarrow> bytes \<Rightarrow> report \<Rightarrow> log_record list \<Rightarrow> bool" where
  "reads J f rep rs \<longleftrightarrow> whole_lines f \<and> scan J 0 f report_default [] 0 = Inr (rep, rs, length f)
     \<and> rp_records rep = length rs \<and> rp_last rep = of_nat (length rs) \<and> length rs < 2 ^ 64"

definition follows :: "json_lib \<Rightarrow> bytes \<Rightarrow> log_state \<Rightarrow> bool" where
  "follows J f st \<longleftrightarrow> (\<exists>f1 f2 rep rs. f = f1 @ f2 \<and> reads J f1 rep rs \<and> lg_offset st = length f1
     \<and> lg_seq st = rp_last rep \<and> lg_head st = rp_head rep)"

lemma reads_empty: "reads J [] report_default []"
  by (simp add: reads_def scan_Nil report_default_def)

lemma follows_end: "reads J f rep rs \<Longrightarrow> follows J f \<lparr>lg_seq = rp_last rep, lg_head = rp_head rep, lg_offset = length f\<rparr>"
  unfolding follows_def by force

lemma follows_more: "follows J f st \<Longrightarrow> follows J (f @ g) st"
  unfolding follows_def by (metis append.assoc)

lemma catch_up_follows:
  assumes "reads J f rep rs" and "follows J f st"
  shows "catch_up J f st = Inr \<lparr>lg_seq = rp_last rep, lg_head = rp_head rep, lg_offset = length f\<rparr>"
proof -
  from assms(2) obtain f1 f2 rep1 rs1 where f: "f = f1 @ f2" and r1: "reads J f1 rep1 rs1"
    and st: "lg_offset st = length f1" "lg_seq st = rp_last rep1" "lg_head st = rp_head rep1"
    by (auto simp: follows_def)
  let ?tip = "report_default\<lparr>rp_last := lg_seq st, rp_head := lg_head st, rp_records := unat (lg_seq st)\<rparr>"
  from r1 obtain n' where "scan J 0 (f1 @ f2) report_default [] 0 = scan J n' f2 rep1 rs1 (length f1)"
    using scan_append [of f1 J 0 report_default "[]" 0 rep1 rs1 "length f1"] by (auto simp: reads_def)
  with assms(1) f have s: "scan J n' f2 rep1 rs1 (length f1) = Inr (rep, rs, length f)" by (simp add: reads_def)
  have "unat (of_nat (length rs1) :: 64 word) = length rs1" using r1 by (simp add: reads_def unat_of_nat)
  with r1 st have "same_tip rep1 ?tip" by (simp add: same_tip_def reads_def)
  from scan_resume [OF s this, of 0 "[]" 0] obtain rep' new where
    "same_tip rep rep'" "scan J 0 f2 ?tip [] 0 = Inr (rep', new, length f2)" by auto
  with f st show ?thesis by (simp add: catch_up_def Let_def same_tip_def)
qed

lemma new_recordD:
  "new_record J st time event data = Inr r \<Longrightarrow> pl_seq r = lg_seq st + 1 \<and> pl_prev r = lg_head st
     \<and> pl_event r = event \<and> pl_data r = data \<and> compute_hash J r = Inr (lr_hash r)"
  by (auto simp: new_record_def wp compute_hash_def payload_bytes_def payload.defs or_else_err_def Let_def)

lemma reads_append:
  assumes "json_ok J" and "reads J f rep rs" and "Suc (length rs) < 2 ^ 64"
    and "new_record J \<lparr>lg_seq = rp_last rep, lg_head = rp_head rep, lg_offset = n\<rparr> time event data = Inr r"
    and "record_line J r = Inr line"
  shows "\<exists>rep'. reads J (f @ line) rep' (rs @ [r]) \<and> rp_last rep' = pl_seq r \<and> rp_head rep' = lr_hash r"
proof -
  from assms(5) obtain raw where raw: "jl_record J r = Inr raw" "line = html_escape_json raw @ [newline]"
    by (auto simp: record_line_def wp or_else_err_Inr)
  let ?e = "html_escape_json raw"
  from assms(1) raw(1) have e: "?e \<noteq> []" "newline \<notin> set ?e" "jl_parse J ?e = Inr r"
    by (auto simp: json_ok_def html_escape_nonempty html_escape_clean)
  note r = new_recordD [OF assms(4), simplified]
  from assms(2) obtain n' where n': "\<And>g. scan J 0 (f @ g) report_default [] 0 = scan J n' g rep rs (length f)"
    using scan_append [of f J 0 report_default "[]" 0 rep rs "length f"] by (auto simp: reads_def)
  obtain rep' where rep': "check_record J (n' + 1) ?e rep = Inr (r, rep')"
    "rp_records rep' = rp_records rep + 1" "rp_last rep' = pl_seq r" "rp_head rep' = lr_hash r"
    using e(3) r by (auto simp: check_record_def wp Let_def)
  have "scan J 0 (f @ line) report_default [] 0 = Inr (rep', rs @ [r], length (f @ line))"
    unfolding raw(2) n' using scan_line(1) [OF e(1,2), of J n' "[]" rep rs "length f"] rep'(1)
    by (simp add: scan_Nil)
  with assms(2,3) rep' r raw(2) show ?thesis
    by (auto simp: reads_def whole_lines_def add.commute)
qed

text \<open>The journal as its processes see it: its file, what each open one remembers, and the entries
  that reached the file. A write is whole or fails before the first byte or after the last; the
  case where it is cut is treated below.\<close>

inductive log_run :: "json_lib \<Rightarrow> bytes \<Rightarrow> (nat \<Rightarrow> log_state option) \<Rightarrow> (string \<times> (string \<times> json) list option) list
    \<Rightarrow> bool" for J where
  run_start: "log_run J [] (\<lambda>_. None) []"
| run_open: "log_run J f logs es \<Longrightarrow> log_open J f = Inr st \<Longrightarrow> log_run J f (logs(p := Some st)) es"
| run_close: "log_run J f logs es \<Longrightarrow> log_run J f (logs(p := None)) es"
| run_head: "log_run J f logs es \<Longrightarrow> logs p = Some st \<Longrightarrow>
    log_run J f (logs(p := Some (snd (log_head J st f)))) es"
| run_append: "log_run J f logs es \<Longrightarrow> logs p = Some st \<Longrightarrow> (\<And>n e. disk \<noteq> Fails_writing n e) \<Longrightarrow>
    log_append J time event data disk st f = (res, st', f') \<Longrightarrow>
    log_run J f' (logs(p := Some st')) (if f' = f then es else es @ [(event, data)])"

text \<open>The two outcomes of such an append.\<close>

lemma log_append_eval:
  assumes "catch_up J f st = Inr tip" and "\<And>e. disk \<noteq> Fails_first e" and "\<And>n e. disk \<noteq> Fails_writing n e"
  shows "log_append J time event data disk st f =
    (case sbind (new_record J tip time event data) (\<lambda>r. sbind (record_line J r) (\<lambda>line. Inr (r, line))) of
       Inl e \<Rightarrow> (Inl e, tip, f)
     | Inr (r, line) \<Rightarrow> (case disk of Fails_sync e \<Rightarrow> (Inl (AuditIo e), tip, f @ line)
         | _ \<Rightarrow> (Inr (), \<lparr>lg_seq = pl_seq r, lg_head = lr_hash r, lg_offset = lg_offset tip + length line\<rparr>, f @ line)))"
  using assms by (cases disk) (auto simp: log_append_def split: sum.split)

lemma log_append_cases:
  assumes "reads J f rep rs" and "follows J f st" and "json_ok J" and "Suc (length rs) < 2 ^ 64"
    and "\<And>n e. disk \<noteq> Fails_writing n e" and "log_append J time event data disk st f = (res, st', f')"
  shows "f' = f \<and> follows J f st' \<and> isl res
    \<or> (\<exists>r rep' line. f' = f @ line \<and> line \<noteq> [] \<and> reads J f' rep' (rs @ [r]) \<and> follows J f' st'
        \<and> pl_event r = event \<and> pl_data r = data)"
proof (cases "\<exists>e. disk = Fails_first e")
  case True
  with assms(2,6) show ?thesis by (auto simp: log_append_def)
next
  case first: False
  let ?tip = "\<lparr>lg_seq = rp_last rep, lg_head = rp_head rep, lg_offset = length f\<rparr>"
  note up = catch_up_follows [OF assms(1,2)] and tip = follows_end [OF assms(1)]
  from first have "\<And>e. disk \<noteq> Fails_first e" by blast
  note eval = log_append_eval [OF up this assms(5), of time event data, unfolded assms(6)]
  show ?thesis
  proof (cases "sbind (new_record J ?tip time event data) (\<lambda>r. sbind (record_line J r) (\<lambda>line. Inr (r, line)))")
    case (Inl e)
    with eval have "res = Inl e" "st' = ?tip" "f' = f" by simp_all
    with tip show ?thesis by simp
  next
    case (Inr x)
    then obtain r line where x: "x = (r, line)" and r: "new_record J ?tip time event data = Inr r"
      and line: "record_line J r = Inr line" by (auto simp: wp)
    from reads_append [OF assms(3,1,4) r line] obtain rep' where
      rep': "reads J (f @ line) rep' (rs @ [r])" "rp_last rep' = pl_seq r" "rp_head rep' = lr_hash r" by blast
    have "line \<noteq> []" using line by (auto simp: record_line_def wp)
    moreover have "f' = f @ line" using eval Inr x by (simp split: disk.splits)
    moreover have "follows J (f @ line) st'"
      using eval Inr x follows_end [OF rep'(1)] rep'(2,3) follows_more [OF tip]
      by (simp split: disk.splits)
    ultimately show ?thesis using rep'(1) new_recordD [OF r] by auto
  qed
qed

lemma log_run_reads:
  assumes "log_run J f logs es" and "json_ok J" and "Suc (length es) < 2 ^ 64"
  shows "\<exists>rep rs. reads J f rep rs \<and> map (\<lambda>r. (pl_event r, pl_data r)) rs = es
    \<and> (\<forall>p st. logs p = Some st \<longrightarrow> follows J f st)"
  using assms(1,3)
proof (induction rule: log_run.induct)
  case run_start
  show ?case using reads_empty [of J] by force
next
  case (run_open f logs es st p)
  then obtain rep rs where r: "reads J f rep rs" "map (\<lambda>r. (pl_event r, pl_data r)) rs = es"
    "\<forall>p st. logs p = Some st \<longrightarrow> follows J f st" by blast
  from r(1) run_open(2) have "st = \<lparr>lg_seq = rp_last rep, lg_head = rp_head rep, lg_offset = length f\<rparr>"
    by (simp add: reads_def log_open_def)
  with follows_end [OF r(1)] r show ?case by auto
next
  case (run_close f logs es p)
  then obtain rep rs where "reads J f rep rs" "map (\<lambda>r. (pl_event r, pl_data r)) rs = es"
    "\<forall>p st. logs p = Some st \<longrightarrow> follows J f st" by blast
  then show ?case by auto
next
  case (run_head f logs es p st)
  then obtain rep rs where r: "reads J f rep rs" "map (\<lambda>r. (pl_event r, pl_data r)) rs = es"
    "\<forall>p st. logs p = Some st \<longrightarrow> follows J f st" by blast
  with run_head(2) have "follows J f (snd (log_head J st f))"
    using catch_up_follows [OF r(1)] follows_end [OF r(1)] by (simp add: log_head_def)
  with r show ?case by auto
next
  case (run_append f logs es p st disk time event data res st' f')
  have few: "Suc (length es) < 2 ^ 64" using run_append(6) by (auto split: if_splits)
  with run_append obtain rep rs where r: "reads J f rep rs" "map (\<lambda>r. (pl_event r, pl_data r)) rs = es"
    "\<forall>p st. logs p = Some st \<longrightarrow> follows J f st" by blast
  from r(2) few have rs: "Suc (length rs) < 2 ^ 64" by (metis length_map)
  from run_append(2) r(3) have "follows J f st" by blast
  from log_append_cases [OF r(1) this assms(2) rs run_append(3,4)] show ?case
  proof (elim disjE exE conjE)
    assume "f' = f" "follows J f st'"
    with r show ?case by auto
  next
    fix x rep' line assume "f' = f @ line" "line \<noteq> []" "reads J f' rep' (rs @ [x])" "follows J f' st'"
      "pl_event x = event" "pl_data x = data"
    with r(2,3) show ?case
      by (intro exI [of _ rep'] exI [of _ "rs @ [x]"]) (auto intro: follows_more)
  qed
qed

lemma reads_seqs:
  assumes "reads J f rep rs"
  shows "read_log J f = Inr rs" and "verify J f = Inr rep"
  using assms by (simp_all add: read_log_def verify_def reads_def)

text \<open>C29. The journal is a list of entries to which several processes append. Whatever the processes
  that open the file, write to it and close it, in whatever order, and whatever the failures of
  their writes as long as none is cut in the middle of a line, the file verifies, is read as exactly
  the entries that were written in their order, and every open journal can go on from where it is.\<close>

theorem journal_is_one_list:
  assumes "log_run J f logs es" and "json_ok J" and "Suc (length es) < 2 ^ 64" and "logs p = Some st"
  shows "\<exists>rep rs. verify J f = Inr rep \<and> read_log J f = Inr rs \<and> rp_records rep = length es
    \<and> map (\<lambda>r. (pl_event r, pl_data r)) rs = es
    \<and> catch_up J f st = Inr \<lparr>lg_seq = rp_last rep, lg_head = rp_head rep, lg_offset = length f\<rparr>"
proof -
  from log_run_reads [OF assms(1-3)] obtain rep rs where r: "reads J f rep rs"
    "map (\<lambda>r. (pl_event r, pl_data r)) rs = es" "follows J f st" using assms(4) by blast
  from r(1,2) have "rp_records rep = length es" by (auto simp: reads_def)
  with reads_seqs [OF r(1)] catch_up_follows [OF r(1,3)] r(2) show ?thesis by blast
qed

section \<open>Tampering\<close>

text \<open>Two different texts with one digest.\<close>

definition collision :: "json_lib \<Rightarrow> bool" where
  "collision J \<longleftrightarrow> (\<exists>x y. x \<noteq> y \<and> jl_sha256 J x = jl_sha256 J y)"

text \<open>The serialiser writes different payloads differently.\<close>

definition payloads_differ :: "json_lib \<Rightarrow> bool" where
  "payloads_differ J \<longleftrightarrow> (\<forall>p q b. sbind (jl_payload J p) (\<lambda>raw. Inr (html_escape_json raw)) = Inr b
     \<longrightarrow> sbind (jl_payload J q) (\<lambda>raw. Inr (html_escape_json raw)) = Inr b \<longrightarrow> p = q)"

text \<open>A chain from the genesis digest, read backwards: its last record first.\<close>

fun chained :: "json_lib \<Rightarrow> log_record list \<Rightarrow> string \<Rightarrow> bool" where
  "chained J [] head \<longleftrightarrow> head = GENESIS_HASH"
| "chained J (r # rs) head \<longleftrightarrow> lr_hash r = head \<and> compute_hash J r = Inr head \<and> chained J rs (pl_prev r)"

lemma check_record_chained:
  assumes "check_record J n raw rep = Inr (r, rep')" and "chained J (rev sink) (rp_head rep)"
  shows "chained J (rev (sink @ [r])) (rp_head rep')"
  using assms by (auto simp: check_record_def wp Let_def)

lemma scan_chained:
  assumes "scan J n f rep sink k = Inr (rep', rs, m)" and "chained J (rev sink) (rp_head rep)"
  shows "chained J (rev rs) (rp_head rep')"
  using assms
proof (induction f arbitrary: n rep sink k rule: text_induct)
  case (Line raw buf)
  from Line(4) obtain r repc where "check_record J (n + 1) raw rep = Inr (r, repc)"
    and "scan J (n + 1) buf repc (sink @ [r]) (k + length raw + 1) = Inr (rep', rs, m)"
    by (auto simp: scan_line(1) [OF Line(1,2)] wp simp del: One_nat_def)
  with Line(3,5) check_record_chained show ?case by blast
next
  case (End raw)
  from End(3) obtain r where "check_record J (n + 1) raw rep = Inr (r, rep')" "rs = sink @ [r]"
    by (auto simp: scan_line(2) [OF End(1,2)] wp)
  with End(4) check_record_chained show ?case by blast
qed (auto simp: scan_Nil scan_blank)

lemma chained_same:
  assumes "payloads_differ J" and "\<not> collision J" and "chained J rs head" and "chained J rs' head"
    and "length rs = length rs'"
  shows "rs = rs'"
  using assms(5,3,4)
proof (induction rs rs' arbitrary: head rule: list_induct2)
  case (Cons r rs r' rs')
  from Cons(3,4) obtain b b' where b: "payload_bytes J r = Inr b" "payload_bytes J r' = Inr b'"
    and h: "hex_encode (jl_sha256 J b) = hex_encode (jl_sha256 J b')" "lr_hash r = lr_hash r'"
    by (auto simp: compute_hash_def wp or_else_err_Inr)
  from h(1) assms(2) have "b = b'" by (auto simp: collision_def hex_encode_inj)
  with b assms(1) have "payload.truncate r = payload.truncate r'"
    by (auto simp: payloads_differ_def payload_bytes_def)
  with h(2) have "r = r'" by (cases r; cases r') (simp add: payload.defs)
  with Cons show ?case by auto
qed simp


section \<open>A last line without its newline\<close>

lemma scan_prefix:
  assumes "whole_lines f" and "scan J n (f @ g) rep sink k = Inr x"
  shows "\<exists>rep' rs. scan J n f rep sink k = Inr (rep', rs, k + length f)"
  using assms
proof (induction f arbitrary: n rep sink k rule: text_induct)
  case (Blank buf)
  from Blank(1) [of "n + 1" rep sink "k + 1"] Blank(2,3) show ?case by (simp add: scan_blank)
next
  case (Line raw buf)
  from Line(5) obtain r repc where c: "check_record J (n + 1) raw rep = Inr (r, repc)"
    and s: "scan J (n + 1) (buf @ g) repc (sink @ [r]) (k + length raw + 1) = Inr x"
    by (auto simp: scan_line(1) [OF Line(1,2)] wp simp del: One_nat_def)
  from Line(3) [OF _ s] Line(4) show ?case
    by (auto simp: scan_line(1) [OF Line(1,2)] c [simplified])
qed (simp_all add: scan_Nil whole_lines_end)


section \<open>A library of one record\<close>

definition sample_entry :: log_record where
  "sample_entry = \<lparr>pl_seq = 1, pl_time = ''t'', pl_event = ''e'', pl_data = None, pl_prev = GENESIS_HASH,
     lr_hash = hex_encode [80]\<rparr>"

definition sample_entry2 :: log_record where
  "sample_entry2 = \<lparr>pl_seq = 2, pl_time = ''t'', pl_event = ''e'', pl_data = None, pl_prev = hex_encode [80],
     lr_hash = hex_encode [81]\<rparr>"

definition sample_json_lib :: json_lib where
  "sample_json_lib = \<lparr>jl_payload = (\<lambda>p. if p = payload.truncate sample_entry then Inr [80]
       else if p = payload.truncate sample_entry2 then Inr [81] else Inl ''payload''),
     jl_record = (\<lambda>r. if r = sample_entry then Inr [82] else if r = sample_entry2 then Inr [83] else Inl ''record''),
     jl_parse = (\<lambda>b. if b = [82] then Inr sample_entry else if b = [83] then Inr sample_entry2 else Inl ''text''),
     jl_sha256 = (\<lambda>b. b)\<rparr>"

lemma sample_json_ok: "json_ok sample_json_lib" "payloads_differ sample_json_lib"
  by (auto simp: json_ok_def payloads_differ_def sample_json_lib_def escape_byte_def wp split: if_splits)

definition sample_log :: log_state where
  "sample_log = \<lparr>lg_seq = 1, lg_head = hex_encode [80], lg_offset = 2\<rparr>"

lemma sample_appended:
  "log_append sample_json_lib ''t'' ''e'' None Disk_ok \<lparr>lg_seq = 0, lg_head = GENESIS_HASH, lg_offset = 0\<rparr> []
     = (Inr (), sample_log, [82, 10])"
  "log_append sample_json_lib ''t'' ''e'' None Disk_ok (sample_log\<lparr>lg_offset := 1\<rparr>) [82]
     = (Inr (), \<lparr>lg_seq = 2, lg_head = hex_encode [81], lg_offset = 3\<rparr>, [82, 83, 10])"
  by code_simp+

lemma sample_opened_logs:
  "log_open sample_json_lib [] = Inr \<lparr>lg_seq = 0, lg_head = GENESIS_HASH, lg_offset = 0\<rparr>"
  "log_open sample_json_lib [82, 10] = Inr sample_log"
  "log_open sample_json_lib [82] = Inr (sample_log\<lparr>lg_offset := 1\<rparr>)"
  by code_simp+

theorem journal_is_one_list_witness:
  "\<exists>rs. read_log sample_json_lib [82, 10] = Inr rs \<and> map (\<lambda>r. (pl_event r, pl_data r)) rs = [(''e'', None)]"
proof -
  note run = run_open [OF run_start sample_opened_logs(1), of 0]
  have "log_run sample_json_lib [82, 10] ((\<lambda>_. None)(0 \<mapsto> sample_log)) [(''e'', None)]"
    using run_append [OF run _ _ sample_appended(1), of 0] by simp
  from run_open [OF this sample_opened_logs(2), of 1]
  have "log_run sample_json_lib [82, 10] ((\<lambda>_. None)(0 \<mapsto> sample_log, 1 \<mapsto> sample_log)) [(''e'', None)]" .
  from journal_is_one_list [OF this sample_json_ok(1), of 1 sample_log] show ?thesis by auto
qed

lemma sample_readings:
  "verify sample_json_lib [82, 10] = verify sample_json_lib [10, 82, 10]"
  "\<not> isl (verify sample_json_lib [82, 10])" "read_log sample_json_lib [82, 10] = Inr [sample_entry]"
  "read_log sample_json_lib [10, 82, 10] = Inr [sample_entry]"
  by code_simp+



end
