(* ===== verification/Hsm.thy ===== *)
theory Hsm
  imports X509
begin

text \<open>
  \<open>Pkcs11Token\<close> of \<open>crates/oe-hsm/src/lib.rs\<close>: the private keys of the services, in a module
  of PKCS#11. The module is not in the repository: it answers each call as a function of the
  calls before it, nothing is assumed of the answers, and every call is recorded with its
  answer, so that the theorems can say what happened between the service and the module. Shown
  here: which signatures leave the token, and how often it reconnects.
\<close>

section \<open>Choosing a scheme\<close>

text \<open>\<open>to_lowercase\<close>, as far as a comparison with a text of ASCII letters can see: the
  capital letters of ASCII, and the Kelvin sign, whose small letter is \<open>k\<close>. What any other
  character is lowered to has a character that is not of ASCII.\<close>

fun lowercase :: "string \<Rightarrow> string" where
  "lowercase (c # d # e # s) =
     (if c = CHR 0xE2 \<and> d = CHR 0x84 \<and> e = CHR 0xAA then CHR ''k'' # lowercase s
      else (if CHR ''A'' \<le> c \<and> c \<le> CHR ''Z'' then char_of ((of_char c :: nat) + 32) else c)
             # lowercase (d # e # s))"
| "lowercase (c # s) =
     (if CHR ''A'' \<le> c \<and> c \<le> CHR ''Z'' then char_of ((of_char c :: nat) + 32) else c) # lowercase s"
| "lowercase [] = []"

definition scheme_from_str :: "string \<Rightarrow> string + scheme" where
  "scheme_from_str s =
     (let t = lowercase (trim s) in
      if t \<in> {''pkcs1v15'', ''pkcs1'', ''pkcs1-v1_5''} then Inr Pkcs1v15
      else if t \<in> {''pss'', ''rsassa-pss''} then Inr Pss
      else Inl t)"

text \<open>The variable of the environment is an argument.\<close>

definition scheme_from_env :: "string option \<Rightarrow> string + scheme" where
  "scheme_from_env var = (case var of
     Some v \<Rightarrow> if trim v \<noteq> [] then scheme_from_str v else Inr Pkcs1v15
   | None \<Rightarrow> Inr Pkcs1v15)"

section \<open>Digests\<close>

text \<open>The three prefixes, in decimal: they differ by their length, the last arc of the
  identifier of the digest, and the length of the digest.\<close>

definition digest_info_prefix :: "digest_alg \<Rightarrow> bytes" where
  "digest_info_prefix alg =
     (let (len, arc) = (case alg of Sha256 \<Rightarrow> (49, 1) | Sha384 \<Rightarrow> (65, 2) | Sha512 \<Rightarrow> (81, 3)) in
      [48, len] @ [48, 13, 6, 9, 96, 134, 72, 1, 101] @ [3, 4, 2, arc] @ [5, 0]
        @ [4, of_nat (expected_len alg)])"

definition wrap :: "digest_alg \<Rightarrow> bytes \<Rightarrow> hsm_error + bytes" where
  "wrap alg digest =
     sbind (require (length digest = expected_len alg)
       (DigestLength alg (expected_len alg) (length digest))) (\<lambda>_.
     Inr (digest_info_prefix alg @ digest))"

section \<open>The crates\<close>

text \<open>A public key of the crate \<open>rsa\<close>: modulus and exponent; how a signature is padded.\<close>

record rsa_key =
  rk_modulus :: nat
  rk_exponent :: nat

datatype padding = Pkcs1v15Sign digest_alg | PssSalt digest_alg nat

datatype object_class = PrivateKey | PublicKey

datatype attribute_type = TLocal | TNeverExtractable | TAlwaysSensitive | TSign | TDecrypt
  | TUnwrap | TDerive | TModulus | TPublicExponent

datatype attribute =
    AClass object_class
  | AId bytes
  | ALabel string
  | ALocal bool
  | ANeverExtractable bool
  | AAlwaysSensitive bool
  | ASign bool
  | ADecrypt bool
  | AUnwrap bool
  | ADerive bool
  | AModulus bytes
  | APublicExponent bytes
  | AToken bool
  | APrivate bool
  | AVerify bool
  | AModulusBits nat
  | ASensitive bool
  | AExtractable bool
  | AModifiable bool
  | AOther

datatype mechanism = RsaPkcs | RsaPkcsPss digest_alg digest_alg nat

type_synonym slot = nat
type_synonym session = nat
type_synonym handle = nat

text \<open>A call of the module, with its answer.\<close>

datatype ck_event =
    Initialized string "ck_error + unit"
  | Slots "ck_error + slot list"
  | TokenLabel slot "ck_error + string"
  | Opened slot "ck_error + session"
  | LoggedIn session string "ck_error + unit"
  | Found session "attribute list" "ck_error + handle list"
  | Attributes session handle "attribute_type list" "ck_error + attribute list"
  | Signed session mechanism handle bytes "ck_error + bytes"
  | Destroyed session handle "ck_error + unit"
  | Generated session "attribute list" "attribute list" "ck_error + unit"

record hsm_lib =
  hl_initialize :: "ck_event list \<Rightarrow> string \<Rightarrow> ck_error + unit"
  hl_slots :: "ck_event list \<Rightarrow> ck_error + slot list"
  hl_label :: "ck_event list \<Rightarrow> slot \<Rightarrow> ck_error + string"
  hl_open :: "ck_event list \<Rightarrow> slot \<Rightarrow> ck_error + session"
  hl_login :: "ck_event list \<Rightarrow> session \<Rightarrow> string \<Rightarrow> ck_error + unit"
  hl_find :: "ck_event list \<Rightarrow> session \<Rightarrow> attribute list \<Rightarrow> ck_error + handle list"
  hl_attributes :: "ck_event list \<Rightarrow> session \<Rightarrow> handle \<Rightarrow> attribute_type list \<Rightarrow> ck_error + attribute list"
  hl_sign :: "ck_event list \<Rightarrow> session \<Rightarrow> mechanism \<Rightarrow> handle \<Rightarrow> bytes \<Rightarrow> ck_error + bytes"
  hl_destroy :: "ck_event list \<Rightarrow> session \<Rightarrow> handle \<Rightarrow> ck_error + unit"
  hl_generate :: "ck_event list \<Rightarrow> session \<Rightarrow> attribute list \<Rightarrow> attribute list \<Rightarrow> ck_error + unit"
  hl_sha256 :: "bytes \<Rightarrow> bytes"
  hl_sha384 :: "bytes \<Rightarrow> bytes"
  hl_sha512 :: "bytes \<Rightarrow> bytes"
  hl_rsa_new :: "nat \<Rightarrow> nat \<Rightarrow> string + rsa_key"
  hl_rsa_verify :: "rsa_key \<Rightarrow> padding \<Rightarrow> bytes \<Rightarrow> bytes \<Rightarrow> bool"
  hl_rsa_der :: "rsa_key \<Rightarrow> string + bytes"

fun hash_with :: "hsm_lib \<Rightarrow> digest_alg \<Rightarrow> bytes \<Rightarrow> bytes" where
  "hash_with H Sha256 data = hl_sha256 H data"
| "hash_with H Sha384 data = hl_sha384 H data"
| "hash_with H Sha512 data = hl_sha512 H data"

fun padding_of :: "scheme \<Rightarrow> digest_alg \<Rightarrow> padding" where
  "padding_of Pkcs1v15 alg = Pkcs1v15Sign alg"
| "padding_of Pss alg = PssSalt alg (expected_len alg)"

definition verify_signature_with ::
    "hsm_lib \<Rightarrow> rsa_key \<Rightarrow> scheme \<Rightarrow> digest_alg \<Rightarrow> bytes \<Rightarrow> bytes \<Rightarrow> hsm_error + unit" where
  "verify_signature_with H pk sch alg digest sig =
     require (hl_rsa_verify H pk (padding_of sch alg) digest sig) SignatureVerification"

definition verify_signature ::
    "hsm_lib \<Rightarrow> rsa_key \<Rightarrow> digest_alg \<Rightarrow> bytes \<Rightarrow> bytes \<Rightarrow> hsm_error + unit" where
  "verify_signature H pk alg digest sig = verify_signature_with H pk Pkcs1v15 alg digest sig"

text \<open>The label is hashed as its bytes.\<close>

definition key_id :: "hsm_lib \<Rightarrow> string \<Rightarrow> bytes" where
  "key_id H key_label = take 8 (hl_sha256 H (map (\<lambda>c. word_of_nat (of_char c)) key_label))"

section \<open>The token\<close>

record hsm_options =
  ho_module_path :: string
  ho_token_label :: string
  ho_key_label :: string
  ho_pin :: string

record pkcs11_token =
  pt_session :: session
  pt_token_label :: string
  pt_pin :: string
  pt_key_id :: bytes
  pt_key_label :: string
  pt_provenance_verified :: bool
  pt_public_key :: "rsa_key option"

text \<open>What is shared by the process (the contexts, one per module), the calls so far, and the
  token in use.\<close>

record hsm_world =
  hw_contexts :: "string list"
  hw_history :: "ck_event list"
  hw_token :: pkcs11_token

type_synonym 'a hsm = "(hsm_world, hsm_error, 'a) res"

definition ck_call ::
    "(ck_event list \<Rightarrow> ck_error + 'a) \<Rightarrow> (ck_error + 'a \<Rightarrow> ck_event) \<Rightarrow> (hsm_world, ck_error, 'a) res" where
  "ck_call answer event = (\<lambda>w. let r = answer (hw_history w) in
     (r, w\<lparr>hw_history := hw_history w @ [event r]\<rparr>))"

definition tok :: "(pkcs11_token \<Rightarrow> 'a) \<Rightarrow> 'a hsm" where
  "tok f = gets (\<lambda>w. f (hw_token w))"

definition with_session :: "(session \<Rightarrow> (hsm_world, ck_error, 'a) res) \<Rightarrow> (hsm_world, ck_error, 'a) res" where
  "with_session call = bindr (gets (\<lambda>w. pt_session (hw_token w))) call"

definition set_token :: "(pkcs11_token \<Rightarrow> pkcs11_token) \<Rightarrow> 'a \<Rightarrow> 'a hsm" where
  "set_token f x = bindr (modify (\<lambda>w. w\<lparr>hw_token := f (hw_token w)\<rparr>)) (\<lambda>_. ok x)"

definition shared_context :: "hsm_lib \<Rightarrow> string \<Rightarrow> (hsm_world, ck_error, unit) res" where
  "shared_context H path =
     bindr (gets hw_contexts) (\<lambda>contexts.
     if path \<in> set contexts then ok ()
     else
       bindr (ck_call (\<lambda>h. hl_initialize H h path) (Initialized path)) (\<lambda>_.
       modify (\<lambda>w. w\<lparr>hw_contexts := path # hw_contexts w\<rparr>)))"

primrec find_slot :: "hsm_lib \<Rightarrow> string \<Rightarrow> slot list \<Rightarrow> slot option hsm" where
  "find_slot H label [] = ok None"
| "find_slot H label (s # ss) =
     bindr (attempt (ck_call (\<lambda>h. hl_label H h s) (TokenLabel s))) (\<lambda>r.
     if r = Inr label then ok (Some s) else find_slot H label ss)"

definition connect :: "hsm_lib \<Rightarrow> string \<Rightarrow> string \<Rightarrow> session hsm" where
  "connect H token_label pin =
     bindr (map_err Pkcs11Failed (ck_call (hl_slots H) Slots)) (\<lambda>slots.
     bindr (find_slot H token_label slots) (\<lambda>found.
     bindr (lift (ok_or (TokenNotFound token_label) found)) (\<lambda>slot.
     bindr (map_err Pkcs11Failed (ck_call (\<lambda>h. hl_open H h slot) (Opened slot))) (\<lambda>session.
     bindr (attempt (ck_call (\<lambda>h. hl_login H h session pin) (LoggedIn session pin))) (\<lambda>r.
     case r of
       Inr _ \<Rightarrow> ok session
     | Inl (Rv UserAlreadyLoggedIn) \<Rightarrow> ok session
     | Inl e \<Rightarrow> fail (Pkcs11Failed e))))))"

definition open_token :: "hsm_lib \<Rightarrow> hsm_options \<Rightarrow> pkcs11_token hsm" where
  "open_token H opts =
     bindr (map_err (HsmOpen (ho_module_path opts) (ho_token_label opts))
       (shared_context H (ho_module_path opts))) (\<lambda>_.
     bindr (connect H (ho_token_label opts) (ho_pin opts)) (\<lambda>session.
     ok \<lparr>pt_session = session, pt_token_label = ho_token_label opts, pt_pin = ho_pin opts,
         pt_key_id = key_id H (ho_key_label opts), pt_key_label = ho_key_label opts,
         pt_provenance_verified = False, pt_public_key = None\<rparr>))"

definition reconnect :: "hsm_lib \<Rightarrow> unit hsm" where
  "reconnect H =
     bindr (tok pt_token_label) (\<lambda>label.
     bindr (tok pt_pin) (\<lambda>pin.
     bindr (connect H label pin) (\<lambda>fresh.
     set_token (\<lambda>t. t\<lparr>pt_session := fresh, pt_provenance_verified := False\<rparr>) ())))"

definition is_session_lost :: "hsm_error \<Rightarrow> bool" where
  "is_session_lost err = (case err of
     KeyNotFound \<Rightarrow> True
   | Pkcs11Failed (Rv e) \<Rightarrow> e \<in> {UserNotLoggedIn, SessionClosed, SessionHandleInvalid,
       DeviceRemoved, DeviceError, TokenNotPresent}
   | FindKeyFailed _ (Rv e) \<Rightarrow> e \<in> {UserNotLoggedIn, SessionClosed, SessionHandleInvalid,
       DeviceRemoved, DeviceError, TokenNotPresent}
   | _ \<Rightarrow> False)"

definition retrying :: "hsm_lib \<Rightarrow> 'a hsm \<Rightarrow> 'a hsm" where
  "retrying H operation =
     bindr (attempt operation) (\<lambda>r.
     case r of
       Inl e \<Rightarrow> if is_session_lost e then bindr (reconnect H) (\<lambda>_. operation) else fail e
     | Inr x \<Rightarrow> ok x)"

section \<open>The private key and its provenance\<close>

definition key_template :: "object_class \<Rightarrow> pkcs11_token \<Rightarrow> attribute list" where
  "key_template c t = [AClass c, AId (pt_key_id t), ALabel (pt_key_label t)]"

definition find_keys :: "hsm_lib \<Rightarrow> object_class \<Rightarrow> handle list hsm" where
  "find_keys H c =
     bindr (tok (key_template c)) (\<lambda>template.
     bindr (tok pt_key_label) (\<lambda>label.
     map_err (FindKeyFailed label) (with_session (\<lambda>s.
       ck_call (\<lambda>h. hl_find H h s template) (Found s template)))))"

definition find_unique_private_key :: "hsm_lib \<Rightarrow> handle hsm" where
  "find_unique_private_key H =
     bindr (find_keys H PrivateKey) (\<lambda>keys.
     case keys of
       [] \<Rightarrow> fail KeyNotFound
     | [k] \<Rightarrow> ok k
     | _ \<Rightarrow> bindr (tok pt_key_label) (\<lambda>label. fail (KeyAmbiguous (length keys) label)))"

record key_provenance =
  kp_local :: bool
  kp_never_extractable :: bool
  kp_always_sensitive :: bool
  kp_sign :: bool
  kp_decrypt :: bool
  kp_unwrap :: bool
  kp_derive :: bool

definition provenance_default :: key_provenance where
  "provenance_default = \<lparr>kp_local = False, kp_never_extractable = False, kp_always_sensitive = False,
     kp_sign = False, kp_decrypt = True, kp_unwrap = True, kp_derive = True\<rparr>"

fun note_attribute :: "attribute \<Rightarrow> key_provenance \<Rightarrow> key_provenance" where
  "note_attribute (ALocal v) p = p\<lparr>kp_local := v\<rparr>"
| "note_attribute (ANeverExtractable v) p = p\<lparr>kp_never_extractable := v\<rparr>"
| "note_attribute (AAlwaysSensitive v) p = p\<lparr>kp_always_sensitive := v\<rparr>"
| "note_attribute (ASign v) p = p\<lparr>kp_sign := v\<rparr>"
| "note_attribute (ADecrypt v) p = p\<lparr>kp_decrypt := v\<rparr>"
| "note_attribute (AUnwrap v) p = p\<lparr>kp_unwrap := v\<rparr>"
| "note_attribute (ADerive v) p = p\<lparr>kp_derive := v\<rparr>"
| "note_attribute _ p = p"

definition wanted :: "attribute_type list" where
  "wanted = [TLocal, TNeverExtractable, TAlwaysSensitive, TSign, TDecrypt, TUnwrap, TDerive]"

definition provenance_of :: "attribute list \<Rightarrow> key_provenance" where
  "provenance_of attrs = fold note_attribute attrs provenance_default"

definition read_provenance :: "hsm_lib \<Rightarrow> key_provenance hsm" where
  "read_provenance H =
     bindr (retrying H (find_unique_private_key H)) (\<lambda>handle.
     bindr (map_err Pkcs11Failed (with_session (\<lambda>s.
       ck_call (\<lambda>h. hl_attributes H h s handle wanted) (Attributes s handle wanted)))) (\<lambda>attrs.
     ok (provenance_of attrs)))"

definition verify_key_provenance :: "hsm_lib \<Rightarrow> key_provenance hsm" where
  "verify_key_provenance H =
     bindr (read_provenance H) (\<lambda>p.
     bindr (tok pt_key_label) (\<lambda>label.
     bindr (ensure (kp_local p) (KeyAttribute label ''CKA_LOCAL'')) (\<lambda>_.
     bindr (ensure (kp_never_extractable p) (KeyAttribute label ''CKA_NEVER_EXTRACTABLE'')) (\<lambda>_.
     bindr (ensure (kp_always_sensitive p) (KeyAttribute label ''CKA_ALWAYS_SENSITIVE'')) (\<lambda>_.
     bindr (ensure (kp_sign p) (KeyAttribute label ''CKA_SIGN'')) (\<lambda>_.
     ok p))))))"

definition find_private_key :: "hsm_lib \<Rightarrow> handle hsm" where
  "find_private_key H =
     bindr (tok pt_provenance_verified) (\<lambda>verified.
     bindr (if \<not> verified then
         bindr (verify_key_provenance H) (\<lambda>_.
         set_token (\<lambda>t. t\<lparr>pt_provenance_verified := True\<rparr>) ())
       else ok ()) (\<lambda>_.
     find_unique_private_key H))"

section \<open>Making and destroying a key pair\<close>

primrec destroy_objects :: "hsm_lib \<Rightarrow> handle list \<Rightarrow> nat \<Rightarrow> nat hsm" where
  "destroy_objects H [] destroyed = ok destroyed"
| "destroy_objects H (obj # objs) destroyed =
     bindr (map_err Pkcs11Failed (with_session (\<lambda>s.
       ck_call (\<lambda>h. hl_destroy H h s obj) (Destroyed s obj)))) (\<lambda>_.
     destroy_objects H objs (destroyed + 1))"

definition destroy_key_pair :: "hsm_lib \<Rightarrow> nat hsm" where
  "destroy_key_pair H =
     bindr (find_keys H PrivateKey) (\<lambda>privates.
     bindr (destroy_objects H privates 0) (\<lambda>n.
     bindr (find_keys H PublicKey) (\<lambda>publics.
     bindr (destroy_objects H publics n) (\<lambda>destroyed.
     bindr (ensure (destroyed \<noteq> 0) KeyNotFound) (\<lambda>_.
     ok destroyed)))))"

definition generate_rsa_key :: "hsm_lib \<Rightarrow> nat \<Rightarrow> unit hsm" where
  "generate_rsa_key H bits =
     bindr (tok pt_key_id) (\<lambda>kid.
     bindr (tok pt_key_label) (\<lambda>label.
     let public = [AToken True, APrivate False, AVerify True, AModulusBits bits,
           APublicExponent [0x01, 0x00, 0x01], AId kid, ALabel label];
         private = [AToken True, APrivate True, ASensitive True, AExtractable False, ASign True,
           ADecrypt False, AUnwrap False, ADerive False, AModifiable False, AId kid, ALabel label] in
     map_err (GenerateKeyFailed bits) (with_session (\<lambda>s.
       ck_call (\<lambda>h. hl_generate H h s public private) (Generated s public private)))))"

section \<open>Signing\<close>

text \<open>The last modulus and the last exponent of the answer.\<close>

definition modulus_in :: "attribute list \<Rightarrow> bytes option" where
  "modulus_in attrs = fold (\<lambda>a m. case a of AModulus v \<Rightarrow> Some v | _ \<Rightarrow> m) attrs None"

definition exponent_in :: "attribute list \<Rightarrow> bytes option" where
  "exponent_in attrs = fold (\<lambda>a m. case a of APublicExponent v \<Rightarrow> Some v | _ \<Rightarrow> m) attrs None"

definition rsa_public_components :: "hsm_lib \<Rightarrow> (bytes \<times> bytes) hsm" where
  "rsa_public_components H =
     bindr (find_keys H PublicKey) (\<lambda>keys.
     bindr (lift (ok_or KeyNotFound (case keys of [] \<Rightarrow> None | k # _ \<Rightarrow> Some k))) (\<lambda>key.
     bindr (map_err Pkcs11Failed (with_session (\<lambda>s.
       ck_call (\<lambda>h. hl_attributes H h s key [TModulus, TPublicExponent])
         (Attributes s key [TModulus, TPublicExponent])))) (\<lambda>attrs.
     bindr (lift (ok_or KeyNotFound (modulus_in attrs))) (\<lambda>modulus.
     bindr (lift (ok_or KeyNotFound (exponent_in attrs))) (\<lambda>exponent.
     ok (modulus, exponent))))))"

definition rsa_public_key :: "hsm_lib \<Rightarrow> bytes \<times> bytes \<Rightarrow> hsm_error + rsa_key" where
  "rsa_public_key H components = (case components of (modulus, exponent) \<Rightarrow>
     or_else_err SoftwareSign (hl_rsa_new H (of_be_bytes modulus) (of_be_bytes exponent)))"

definition make_signature :: "hsm_lib \<Rightarrow> handle \<Rightarrow> scheme \<Rightarrow> digest_alg \<Rightarrow> bytes \<Rightarrow> bytes hsm" where
  "make_signature H key sch alg digest = (case sch of
     Pkcs1v15 \<Rightarrow>
       bindr (lift (wrap alg digest)) (\<lambda>digest_info.
       map_err Pkcs11Failed (with_session (\<lambda>s.
         ck_call (\<lambda>h. hl_sign H h s RsaPkcs key digest_info) (Signed s RsaPkcs key digest_info))))
   | Pss \<Rightarrow>
       bindr (ensure (length digest = expected_len alg)
         (DigestLength alg (expected_len alg) (length digest))) (\<lambda>_.
       let mech = RsaPkcsPss alg alg (expected_len alg) in
       map_err Pkcs11Failed (with_session (\<lambda>s.
         ck_call (\<lambda>h. hl_sign H h s mech key digest) (Signed s mech key digest)))))"

definition cached_public_key :: "hsm_lib \<Rightarrow> rsa_key hsm" where
  "cached_public_key H =
     bindr (tok pt_public_key) (\<lambda>known.
     case known of
       Some pk \<Rightarrow> ok pk
     | None \<Rightarrow>
         bindr (rsa_public_components H) (\<lambda>components.
         bindr (lift (rsa_public_key H components)) (\<lambda>pk.
         set_token (\<lambda>t. t\<lparr>pt_public_key := Some pk\<rparr>) pk)))"

definition sign_once :: "hsm_lib \<Rightarrow> scheme \<Rightarrow> digest_alg \<Rightarrow> bytes \<Rightarrow> bytes hsm" where
  "sign_once H sch alg digest =
     bindr (find_private_key H) (\<lambda>key.
     bindr (make_signature H key sch alg digest) (\<lambda>signature.
     bindr (cached_public_key H) (\<lambda>pk.
     bindr (lift (verify_signature_with H pk sch alg digest signature)) (\<lambda>_.
     ok signature))))"

definition sign_digest_with :: "hsm_lib \<Rightarrow> scheme \<Rightarrow> digest_alg \<Rightarrow> bytes \<Rightarrow> bytes hsm" where
  "sign_digest_with H sch alg digest = retrying H (sign_once H sch alg digest)"

definition sign_digest :: "hsm_lib \<Rightarrow> digest_alg \<Rightarrow> bytes \<Rightarrow> bytes hsm" where
  "sign_digest H alg digest = sign_digest_with H Pkcs1v15 alg digest"

definition public_key_der :: "hsm_lib \<Rightarrow> bytes hsm" where
  "public_key_der H =
     bindr (retrying H (rsa_public_components H)) (\<lambda>components.
     bindr (lift (rsa_public_key H components)) (\<lambda>pk.
     lift (or_else_err PublicKeyEncoding (hl_rsa_der H pk))))"

section \<open>How the calls run\<close>

lemma runs_ck_call [run]:
  "runs (ck_call f ev) Q E w \<longleftrightarrow>
     (\<forall>x. f (hw_history w) = Inr x \<longrightarrow> Q x (w\<lparr>hw_history := hw_history w @ [ev (Inr x)]\<rparr>))
     \<and> (\<forall>e. f (hw_history w) = Inl e \<longrightarrow> E e (w\<lparr>hw_history := hw_history w @ [ev (Inl e)]\<rparr>))"
  by (simp add: runs_def ck_call_def Let_def split: sum.split)

lemma runs_tok [run]: "runs (tok f) Q E w \<longleftrightarrow> Q (f (hw_token w)) w"
  by (simp add: tok_def run)

lemma runs_with_session [run]:
  "runs (with_session f) Q E w \<longleftrightarrow> runs (f (pt_session (hw_token w))) Q E w"
  by (simp add: with_session_def run)

lemma runs_set_token [run]:
  "runs (set_token f x) Q E w \<longleftrightarrow> Q x (w\<lparr>hw_token := f (hw_token w)\<rparr>)"
  by (simp add: set_token_def run)

lemma runs_retrying:
  assumes "\<And>v. I v \<Longrightarrow> runs m Q (\<lambda>_. I) v" and "keeps I (reconnect H)" and "I w"
  shows "runs (retrying H m) Q (\<lambda>_. I) w"
proof -
  have again: "runs (reconnect H) (\<lambda>_. runs m Q (\<lambda>_. I)) (\<lambda>_. I) v" if "I v" for v
    by (rule runs_mono [OF runs_keeps [OF assms(2) that]]) (use assms(1) in auto)
  have "runs m (\<lambda>x v. Q x v) (\<lambda>e v. runs (if is_session_lost e
      then bindr (reconnect H) (\<lambda>_. m) else fail e) Q (\<lambda>_. I) v) w"
    by (rule runs_mono [OF assms(1) [OF assms(3)]]) (simp_all add: run again)
  then show ?thesis
    by (simp add: retrying_def run) (erule runs_mono; simp add: run)
qed

section \<open>Which signatures leave the token\<close>

text \<open>In the session of the token, one private key answers to its label and identifier; the
  module says of such a key that it was born there, never left and signs.\<close>

definition found_alone :: "hsm_world \<Rightarrow> handle \<Rightarrow> bool" where
  "found_alone w h \<longleftrightarrow> (let t = hw_token w in
     Found (pt_session t) (key_template PrivateKey t) (Inr [h]) \<in> set (hw_history w))"

definition born_inside :: "key_provenance \<Rightarrow> bool" where
  "born_inside p \<longleftrightarrow> kp_local p \<and> kp_never_extractable p \<and> kp_always_sensitive p \<and> kp_sign p"

definition described :: "hsm_world \<Rightarrow> key_provenance \<Rightarrow> bool" where
  "described w p \<longleftrightarrow> (\<exists>h attrs. found_alone w h \<and> p = provenance_of attrs
     \<and> Attributes (pt_session (hw_token w)) h wanted (Inr attrs) \<in> set (hw_history w))"

definition vouched_key :: "hsm_world \<Rightarrow> bool" where
  "vouched_key w \<longleftrightarrow> (\<exists>p. described w p \<and> born_inside p)"

text \<open>The flag of the token tells the truth; the public key, once read, stays; the history only
  grows.\<close>

definition upright :: "rsa_key option \<Rightarrow> ck_event list \<Rightarrow> hsm_world \<Rightarrow> bool" where
  "upright k h w \<longleftrightarrow> (pt_provenance_verified (hw_token w) \<longrightarrow> vouched_key w)
     \<and> (k = None \<or> pt_public_key (hw_token w) = k) \<and> prefix h (hw_history w)"

lemma upright_call [simp]: "upright k h w \<Longrightarrow> upright k h (w\<lparr>hw_history := hw_history w @ es\<rparr>)"
  by (auto simp: upright_def vouched_key_def described_def found_alone_def Let_def)

lemma keeps_upright_calls [pres]:
  "keeps (upright k h) (ck_call f ev)" "keeps (upright k h) (tok g)"
  by (simp_all add: keeps_runs run)

lemma keeps_upright_session [pres]:
  "(\<And>s. keeps (upright k h) (f s)) \<Longrightarrow> keeps (upright k h) (with_session f)"
  by (simp add: keeps_runs run)

lemma keeps_upright_find_slot [pres]: "keeps (upright k h) (find_slot H label ss)"
  by (induction ss) (auto intro!: pres)

lemma keeps_upright_connect [pres]: "keeps (upright k h) (connect H label pin)"
  unfolding connect_def by (auto intro!: pres split: ck_error.split rv_error.split)

lemma keeps_upright_reconnect [pres]: "keeps (upright k h) (reconnect H)"
proof -
  have "keeps (upright k h) (set_token (\<lambda>t. t\<lparr>pt_session := s, pt_provenance_verified := False\<rparr>) ())" for s
    by (simp add: keeps_runs run upright_def)
  then show ?thesis unfolding reconnect_def by (auto intro!: pres)
qed

lemma found_alone_call [simp]:
  "found_alone w x \<Longrightarrow> found_alone (w\<lparr>hw_history := hw_history w @ es\<rparr>) x"
  by (simp add: found_alone_def Let_def)

lemma runs_find_unique:
  assumes "upright k h w"
  shows "runs (find_unique_private_key H) (\<lambda>x v. upright k h v \<and> found_alone v x \<and> hw_token v = hw_token w)
    (\<lambda>_. upright k h) w"
  using assms
  by (auto simp: find_unique_private_key_def find_keys_def run found_alone_def Let_def split: list.split)

lemma runs_read_provenance:
  assumes "upright k h w"
  shows "runs (read_provenance H) (\<lambda>p v. upright k h v \<and> described v p) (\<lambda>_. upright k h) w"
proof -
  have "runs (retrying H (find_unique_private_key H)) (\<lambda>x v. upright k h v \<and> found_alone v x)
      (\<lambda>_. upright k h) w"
    by (rule runs_retrying [where I = "upright k h"])
      (auto intro: pres assms runs_mono [OF runs_find_unique])
  then show ?thesis
    unfolding read_provenance_def runs_bindr
    by (rule runs_mono) (auto simp: run described_def intro!: found_alone_call)
qed

lemma vouched_flag [simp]:
  "vouched_key (w\<lparr>hw_token := (hw_token w)\<lparr>pt_provenance_verified := b\<rparr>\<rparr>) = vouched_key w"
  "vouched_key (w\<lparr>hw_token := (hw_token w)\<lparr>pt_public_key := pk\<rparr>\<rparr>) = vouched_key w"
  by (simp_all add: vouched_key_def described_def found_alone_def key_template_def Let_def)

lemma upright_flag:
  "upright k h w \<Longrightarrow> vouched_key w \<Longrightarrow>
     upright k h (w\<lparr>hw_token := (hw_token w)\<lparr>pt_provenance_verified := True\<rparr>\<rparr>)"
  by (simp add: upright_def)

lemma uprightD: "upright k h w \<Longrightarrow> pt_provenance_verified (hw_token w) \<Longrightarrow> vouched_key w"
  by (simp add: upright_def)

lemma runs_find_private_key:
  assumes "upright k h w"
  shows "runs (find_private_key H) (\<lambda>x v. upright k h v \<and> pt_provenance_verified (hw_token v))
    (\<lambda>_. upright k h) w"
proof -
  have "runs (verify_key_provenance H) (\<lambda>p v. upright k h v \<and> vouched_key v) (\<lambda>_. upright k h) w"
    unfolding verify_key_provenance_def runs_bindr
    by (rule runs_mono [OF runs_read_provenance [OF assms]])
      (auto simp: run vouched_key_def born_inside_def)
  then have "runs (if \<not> pt_provenance_verified (hw_token w) then
         bindr (verify_key_provenance H) (\<lambda>_.
         set_token (\<lambda>t. t\<lparr>pt_provenance_verified := True\<rparr>) ())
       else ok ()) (\<lambda>_ v. upright k h v \<and> pt_provenance_verified (hw_token v)) (\<lambda>_. upright k h) w"
    using assms by (auto simp: run upright_flag elim!: runs_mono)
  then show ?thesis
    unfolding find_private_key_def runs_bindr runs_tok
    by (rule runs_mono) (auto intro!: runs_mono [OF runs_find_unique])
qed

text \<open>The call of the module that made a signature, and what it was asked to sign.\<close>

fun signs_digest :: "scheme \<Rightarrow> digest_alg \<Rightarrow> bytes \<Rightarrow> bytes \<Rightarrow> ck_event \<Rightarrow> bool" where
  "signs_digest sch alg digest sig (Signed s mech key data (Inr sig')) \<longleftrightarrow>
     sig' = sig \<and> length digest = expected_len alg
     \<and> (case sch of
          Pkcs1v15 \<Rightarrow> mech = RsaPkcs \<and> data = digest_info_prefix alg @ digest
        | Pss \<Rightarrow> mech = RsaPkcsPss alg alg (expected_len alg) \<and> data = digest)"
| "signs_digest sch alg digest sig _ = False"

definition made_since ::
    "ck_event list \<Rightarrow> scheme \<Rightarrow> digest_alg \<Rightarrow> bytes \<Rightarrow> bytes \<Rightarrow> hsm_world \<Rightarrow> bool" where
  "made_since h sch alg digest sig w \<longleftrightarrow>
     (\<exists>ev \<in> set (drop (length h) (hw_history w)). signs_digest sch alg digest sig ev)"

lemma made_since_call [simp]:
  "made_since h sch alg digest sig w \<Longrightarrow>
     made_since h sch alg digest sig (w\<lparr>hw_history := hw_history w @ es\<rparr>)"
  by (auto simp: made_since_def)

lemma made_now:
  assumes "upright k h w" and "signs_digest sch alg digest sig ev"
  shows "made_since h sch alg digest sig (w\<lparr>hw_history := hw_history w @ [ev]\<rparr>)"
  using assms prefix_length_le [of h "hw_history w"] by (auto simp: made_since_def upright_def)

lemma runs_make_signature:
  assumes "upright k h w" and "pt_provenance_verified (hw_token w)"
  shows "runs (make_signature H key sch alg digest)
    (\<lambda>sig v. upright k h v \<and> pt_provenance_verified (hw_token v) \<and> made_since h sch alg digest sig v)
    (\<lambda>_. upright k h) w"
  using assms
  by (cases sch) (auto simp: make_signature_def wrap_def Let_def run wp intro!: made_now)

lemma upright_key:
  assumes "upright k h w" and "pt_public_key (hw_token w) = None"
  shows "upright k h (w\<lparr>hw_history := hw_history w @ es,
    hw_token := (hw_token w)\<lparr>pt_public_key := Some pk\<rparr>\<rparr>)"
proof -
  have "upright k h (w\<lparr>hw_history := hw_history w @ es\<rparr>)" (is "upright k h ?v")
    using assms(1) by (rule upright_call)
  then have "upright k h (?v\<lparr>hw_token := (hw_token ?v)\<lparr>pt_public_key := Some pk\<rparr>\<rparr>)"
    using assms(2) by (simp only: upright_def vouched_flag) auto
  then show ?thesis by simp
qed

lemma made_since_token [simp]:
  "made_since h sch alg digest sig (w\<lparr>hw_token := t\<rparr>) = made_since h sch alg digest sig w"
  by (simp add: made_since_def)

lemma runs_cached_public_key:
  assumes "upright k h w" and "pt_provenance_verified (hw_token w)" and "made_since h sch alg digest sig w"
  shows "runs (cached_public_key H)
    (\<lambda>pk v. upright k h v \<and> pt_provenance_verified (hw_token v) \<and> made_since h sch alg digest sig v
       \<and> pt_public_key (hw_token v) = Some pk)
    (\<lambda>_. upright k h) w"
  using assms
  by (auto simp: cached_public_key_def rsa_public_components_def find_keys_def run intro!: upright_key)

text \<open>What is said of a signature that leaves the token.\<close>

definition genuine ::
    "hsm_lib \<Rightarrow> rsa_key option \<Rightarrow> ck_event list \<Rightarrow> scheme \<Rightarrow> digest_alg \<Rightarrow> bytes \<Rightarrow> bytes \<Rightarrow> hsm_world \<Rightarrow> bool" where
  "genuine H k h sch alg digest sig w \<longleftrightarrow> upright k h w \<and> vouched_key w
     \<and> made_since h sch alg digest sig w
     \<and> (\<exists>pk. pt_public_key (hw_token w) = Some pk \<and> hl_rsa_verify H pk (padding_of sch alg) digest sig)"

lemma runs_check_signature:
  assumes "upright k h w" and "pt_provenance_verified (hw_token w)" and "made_since h sch alg digest sig w"
  shows "runs (bindr (cached_public_key H) (\<lambda>pk.
      bindr (lift (verify_signature_with H pk sch alg digest sig)) (\<lambda>_. ok sig)))
    (genuine H k h sch alg digest) (\<lambda>_. upright k h) w"
  unfolding runs_bindr
  by (rule runs_mono [OF runs_cached_public_key [OF assms]])
    (auto simp: run verify_signature_with_def wp genuine_def dest: uprightD)

lemma runs_sign_once:
  assumes "upright k h w"
  shows "runs (sign_once H sch alg digest) (genuine H k h sch alg digest) (\<lambda>_. upright k h) w"
  unfolding sign_once_def
proof (subst runs_bindr, rule runs_mono [OF runs_find_private_key [OF assms]])
  fix key v
  assume "upright k h v \<and> pt_provenance_verified (hw_token v)"
  then show "runs (bindr (make_signature H key sch alg digest) (\<lambda>signature.
      bindr (cached_public_key H) (\<lambda>pk.
      bindr (lift (verify_signature_with H pk sch alg digest signature)) (\<lambda>_. ok signature))))
    (genuine H k h sch alg digest) (\<lambda>_. upright k h) v"
    by (subst runs_bindr) (auto intro: runs_mono [OF runs_make_signature] runs_check_signature)
qed simp

lemma runs_sign:
  assumes "upright k h w"
  shows "runs (sign_digest_with H sch alg digest) (genuine H k h sch alg digest) (\<lambda>_. upright k h) w"
  unfolding sign_digest_with_def
  by (rule runs_retrying [where I = "upright k h"]) (auto intro: pres assms runs_sign_once)

section \<open>Every use of a token\<close>

inductive hsm_step :: "hsm_lib \<Rightarrow> hsm_world \<Rightarrow> hsm_world \<Rightarrow> bool" for H where
  open_step: "open_token H opts w = (Inr t, v) \<Longrightarrow> hsm_step H w (v\<lparr>hw_token := t\<rparr>)"
| sign_step: "hsm_step H w (snd (sign_digest_with H sch alg digest w))"
| public_step: "hsm_step H w (snd (public_key_der H w))"
| provenance_step: "hsm_step H w (snd (verify_key_provenance H w))"
| generate_step: "hsm_step H w (snd (generate_rsa_key H bits w))"
| destroy_step: "hsm_step H w (snd (destroy_key_pair H w))"

lemma keeps_upright_find [pres]: "keeps (upright k h) (find_keys H c)"
  unfolding find_keys_def by (auto intro!: pres)

lemma keeps_upright_destroy [pres]: "keeps (upright k h) (destroy_objects H objs n)"
  by (induction objs arbitrary: n) (auto intro!: pres)

lemma keeps_upright_components [pres]: "keeps (upright k h) (rsa_public_components H)"
  unfolding rsa_public_components_def by (auto intro!: pres)

lemma keeps_upright_retrying [pres]:
  "keeps (upright k h) m \<Longrightarrow> keeps (upright k h) (retrying H m)"
  unfolding retrying_def by (auto intro!: pres)

lemma keeps_upright_uses [pres]:
  "keeps (upright k h) (sign_digest_with H sch alg digest)"
  "keeps (upright k h) (public_key_der H)"
  "keeps (upright k h) (verify_key_provenance H)"
  "keeps (upright k h) (generate_rsa_key H bits)"
  "keeps (upright k h) (destroy_key_pair H)"
proof -
  show "keeps (upright k h) (sign_digest_with H sch alg digest)"
    unfolding keeps_runs by (auto intro!: runs_mono [OF runs_sign] simp: genuine_def)
  show "keeps (upright k h) (verify_key_provenance H)"
    unfolding keeps_runs verify_key_provenance_def runs_bindr
    by (auto intro!: runs_mono [OF runs_read_provenance] simp: run)
qed (auto simp: public_key_der_def generate_rsa_key_def destroy_key_pair_def Let_def intro!: pres)

lemma open_token_fresh:
  "open_token H opts w = (Inr t, v) \<Longrightarrow> \<not> pt_provenance_verified t"
  by (auto simp: open_token_def wp)

lemma step_upright:
  assumes "hsm_step H w v" and "upright None [] w"
  shows "upright None [] v"
  using assms(1)
proof (cases rule: hsm_step.cases)
  case (open_step opts t u)
  then show ?thesis by (simp add: upright_def open_token_fresh)
qed (simp_all add: assms(2) keeps_upright_uses [unfolded keeps_def, rule_format])

lemma steps_upright: "(hsm_step H)\<^sup>*\<^sup>* w v \<Longrightarrow> upright None [] w \<Longrightarrow> upright None [] v"
  by (induction rule: rtranclp_induct) (auto intro: step_upright)

lemma upright_now: "upright None [] w \<Longrightarrow> upright (pt_public_key (hw_token w)) (hw_history w) w"
  by (simp add: upright_def)

section \<open>How often the module is called\<close>

definition costs :: "(ck_event \<Rightarrow> bool) \<Rightarrow> nat \<Rightarrow> (hsm_world, 'e, 'a) res \<Rightarrow> bool" where
  "costs p n m \<longleftrightarrow> (\<forall>w. \<exists>es. hw_history (snd (m w)) = hw_history w @ es \<and> length (filter p es) \<le> n)"

named_theorems cost \<open>bounds on the number of calls\<close>

lemma costs_more: "costs p n m \<Longrightarrow> n \<le> k \<Longrightarrow> costs p k m"
  unfolding costs_def by (meson le_trans)

lemma costs_bindr [cost]:
  assumes "costs p a m" and "\<And>x. costs p b (k x)"
  shows "costs p (a + b) (bindr m k)"
  unfolding costs_def
proof
  fix w
  obtain r v where m: "m w = (r, v)" by (cases "m w")
  obtain es where es: "hw_history v = hw_history w @ es" "length (filter p es) \<le> a"
    using assms(1) m unfolding costs_def by (metis snd_conv)
  show "\<exists>es. hw_history (snd (bindr m k w)) = hw_history w @ es \<and> length (filter p es) \<le> a + b"
  proof (cases r)
    case (Inl e)
    then show ?thesis using es m by (auto simp: bindr_def)
  next
    case (Inr x)
    obtain fs where "hw_history (snd (k x v)) = hw_history v @ fs" "length (filter p fs) \<le> b"
      using assms(2) unfolding costs_def by blast
    then show ?thesis using es m Inr by (auto simp: bindr_def intro!: exI [of _ "es @ fs"])
  qed
qed

lemma costs_steps [cost]:
  "costs p 0 (ok x)" "costs p 0 (fail e)" "costs p 0 (ensure b e)" "costs p 0 (lift r)"
  "costs p 0 (gets f)" "costs p 0 (tok g)" "costs p 0 (set_token u x)"
  by (simp_all add: costs_def ok_def fail_def ensure_def lift_def gets_def tok_def set_token_def
      bindr_def modify_def)

lemma costs_ck_call [cost]:
  "(\<And>r. \<not> p (ev r)) \<Longrightarrow> costs p 0 (ck_call f ev)" "costs p 1 (ck_call f ev)"
  by (simp_all add: costs_def ck_call_def Let_def)

lemma snd_wrapped [simp]: "snd (map_err f m w) = snd (m w)" "snd (attempt m w) = snd (m w)"
  "snd (with_session g w) = snd (g (pt_session (hw_token w)) w)"
  by (simp_all add: map_err_def attempt_def with_session_def gets_def bindr_def split: prod.split sum.split)

lemma costs_wrapped [cost]:
  "costs p n m \<Longrightarrow> costs p n (map_err f m)" "costs p n m \<Longrightarrow> costs p n (attempt m)"
  "(\<And>s. costs p n (g s)) \<Longrightarrow> costs p n (with_session g)"
  by (simp_all add: costs_def)

lemma costs_cases [cost]:
  "costs p n a \<Longrightarrow> costs p n b \<Longrightarrow> costs p n (if c then a else b)"
  "costs p n a \<Longrightarrow> (\<And>x. costs p n (f x)) \<Longrightarrow> costs p n (case v of None \<Rightarrow> a | Some x \<Rightarrow> f x)"
  "(\<And>e. costs p n (g e)) \<Longrightarrow> (\<And>x. costs p n (f x)) \<Longrightarrow> costs p n (case r of Inl e \<Rightarrow> g e | Inr x \<Rightarrow> f x)"
  by (simp_all split: option.split sum.split)

text \<open>Opening a session, and asking for a signature.\<close>

fun is_open :: "ck_event \<Rightarrow> bool" where
  "is_open (Opened slot r) = True"
| "is_open _ = False"

fun is_sign :: "ck_event \<Rightarrow> bool" where
  "is_sign (Signed s mech key data r) = True"
| "is_sign _ = False"

lemma costs_find_slot [cost]: "costs is_open 0 (find_slot H label ss)" "costs is_sign 0 (find_slot H label ss)"
proof -
  have "costs p 0 (find_slot H label ss)" if "\<And>s r. \<not> p (TokenLabel s r)" for p
  proof (induction ss)
    case (Cons s ss)
    have "costs p (0 + 0) (find_slot H label (s # ss))"
      unfolding find_slot.simps by (rule cost | simp add: that Cons)+
    then show ?case by simp
  qed (simp add: cost)
  then show "costs is_open 0 (find_slot H label ss)" "costs is_sign 0 (find_slot H label ss)" by simp_all
qed

lemma costs_connect [cost]: "costs is_open 1 (connect H label pin)" "costs is_sign 0 (connect H label pin)"
proof -
  have login: "costs p 0 (case r of Inr _ \<Rightarrow> ok session | Inl (Rv UserAlreadyLoggedIn) \<Rightarrow> ok session
      | Inl e \<Rightarrow> fail (Pkcs11Failed e))" for p :: "ck_event \<Rightarrow> bool" and r :: "ck_error + unit" and session :: nat
    by (auto intro: cost split: sum.split ck_error.split rv_error.split)
  have "costs is_open (0 + (0 + (0 + (1 + (0 + 0))))) (connect H label pin)"
    unfolding connect_def by (rule cost login | simp)+
  then show "costs is_open 1 (connect H label pin)" by simp
  have "costs is_sign (0 + (0 + (0 + (0 + (0 + 0))))) (connect H label pin)"
    unfolding connect_def by (rule cost login | simp)+
  then show "costs is_sign 0 (connect H label pin)" by simp
qed

lemma costs_reconnect: "costs is_open 1 (reconnect H)" "costs is_sign 0 (reconnect H)"
proof -
  have "costs is_open (0 + (0 + (1 + 0))) (reconnect H)" "costs is_sign (0 + (0 + (0 + 0))) (reconnect H)"
    unfolding reconnect_def by (rule cost | simp)+
  then show "costs is_open 1 (reconnect H)" "costs is_sign 0 (reconnect H)" by simp_all
qed

lemma costs_retrying:
  assumes "costs p n m" and "costs p c (reconnect H)"
  shows "costs p (n + (c + n)) (retrying H m)"
proof -
  have "costs p (c + n) (case r of
       Inl e \<Rightarrow> if is_session_lost e then bindr (reconnect H) (\<lambda>_. m) else fail e
     | Inr x \<Rightarrow> ok x)" for r
    by (cases r) (auto intro: assms costs_bindr costs_more [OF costs_steps(1)] costs_more [OF costs_steps(2)])
  then show ?thesis
    unfolding retrying_def by (intro costs_bindr costs_wrapped assms)
qed

lemma costs_find_keys [cost]: "costs is_open 0 (find_keys H c)" "costs is_sign 0 (find_keys H c)"
proof -
  have "costs p (0 + (0 + 0)) (find_keys H c)" if "\<And>s t r. \<not> p (Found s t r)" for p
    unfolding find_keys_def by (rule cost | simp add: that)+
  then show "costs is_open 0 (find_keys H c)" "costs is_sign 0 (find_keys H c)" by simp_all
qed

lemma costs_find_unique [cost]:
  "costs is_open 0 (find_unique_private_key H)" "costs is_sign 0 (find_unique_private_key H)"
proof -
  have "costs p (0 + 0) (find_unique_private_key H)" if "costs p 0 (find_keys H PrivateKey)" for p
    unfolding find_unique_private_key_def
    by (rule costs_bindr [OF that])
      (auto intro: cost costs_bindr [of _ 0 _ 0, simplified] split: list.split)
  then show "costs is_open 0 (find_unique_private_key H)" "costs is_sign 0 (find_unique_private_key H)"
    by (simp_all add: cost)
qed

lemma costs_provenance:
  "costs is_open 1 (verify_key_provenance H)" "costs is_sign 0 (verify_key_provenance H)"
proof -
  have read: "costs p (n + (c + n) + (0 + 0)) (read_provenance H)"
    if "costs p n (find_unique_private_key H)" "costs p c (reconnect H)"
      "\<And>s h a r. \<not> p (Attributes s h a r)" for p n c
    unfolding read_provenance_def
    by (rule cost costs_retrying that | simp add: that)+
  have verify: "costs p (n + (0 + (0 + (0 + (0 + (0 + 0)))))) (verify_key_provenance H)"
    if "costs p n (read_provenance H)" for p n
    unfolding verify_key_provenance_def by (rule cost that)+
  show "costs is_open 1 (verify_key_provenance H)"
    using verify [OF read [OF costs_find_unique(1) costs_reconnect(1)]] by simp
  show "costs is_sign 0 (verify_key_provenance H)"
    using verify [OF read [OF costs_find_unique(2) costs_reconnect(2)]] by simp
qed

lemma costs_find_private_key: "costs is_open 1 (find_private_key H)" "costs is_sign 0 (find_private_key H)"
proof -
  have "costs p (0 + (n + 0)) (find_private_key H)"
    if "costs p n (verify_key_provenance H)" "costs p 0 (find_unique_private_key H)" for p n
    unfolding find_private_key_def
    by (intro costs_bindr cost that costs_cases)
      (auto intro: costs_bindr [of _ n _ 0, simplified] that cost costs_more [OF costs_steps(1)])
  then show "costs is_open 1 (find_private_key H)" "costs is_sign 0 (find_private_key H)"
    by (force intro: costs_provenance cost)+
qed

lemma costs_sign_once: "costs is_open 1 (sign_once H sch alg digest)" "costs is_sign 1 (sign_once H sch alg digest)"
proof -
  have make0: "costs is_open (0 + 0) (make_signature H key sch alg digest)"
    and make1: "costs is_sign (0 + 1) (make_signature H key sch alg digest)" for key
    unfolding make_signature_def Let_def
    by (cases sch; simp only: scheme.case; (rule cost | simp)+)+
  have make: "costs is_open 0 (make_signature H key sch alg digest)"
    "costs is_sign 1 (make_signature H key sch alg digest)" for key
    using make0 [of key] make1 [of key] by simp_all
  have comp: "costs p (0 + (0 + (0 + (0 + (0 + 0))))) (rsa_public_components H)"
    if "costs p 0 (find_keys H PublicKey)" "\<And>s h a r. \<not> p (Attributes s h a r)" for p
    unfolding rsa_public_components_def by (rule cost that | simp add: that)+
  have cached: "costs p 0 (cached_public_key H)" if "costs p 0 (rsa_public_components H)" for p
    unfolding cached_public_key_def
    by (auto intro!: costs_bindr [of _ 0 _ 0, simplified] cost that split: option.split)
  have once: "costs p (a + (b + (0 + (0 + 0)))) (sign_once H sch alg digest)"
    if "costs p a (find_private_key H)" "\<And>key. costs p b (make_signature H key sch alg digest)"
      "costs p 0 (cached_public_key H)" for p a b
    unfolding sign_once_def by (rule costs_bindr cost that)+
  show "costs is_open 1 (sign_once H sch alg digest)"
    using once [OF costs_find_private_key(1) make(1) cached] comp [OF costs_find_keys(1)] by simp
  show "costs is_sign 1 (sign_once H sch alg digest)"
    using once [OF costs_find_private_key(2) make(2) cached] comp [OF costs_find_keys(2)] by simp
qed

lemma costs_sign:
  "costs is_open 3 (sign_digest_with H sch alg digest)"
  "costs is_sign 2 (sign_digest_with H sch alg digest)"
  using costs_retrying [OF costs_sign_once(1) [of H sch alg digest] costs_reconnect(1)]
    costs_retrying [OF costs_sign_once(2) [of H sch alg digest] costs_reconnect(2)]
  by (simp_all add: sign_digest_with_def eval_nat_numeral)

section \<open>Properties\<close>

text \<open>A module in which one key was generated, whose signatures have the digest in them; and one
  in which no key is found.\<close>

definition sample_hsm :: "handle list \<Rightarrow> hsm_lib" where
  "sample_hsm keys = \<lparr>hl_initialize = (\<lambda>h path. Inr ()), hl_slots = (\<lambda>h. Inr [1, 2]),
     hl_label = (\<lambda>h slot. if slot = 2 then Inr ''TSU'' else Inr ''other''),
     hl_open = (\<lambda>h slot. Inr (length h)), hl_login = (\<lambda>h s pin. Inr ()),
     hl_find = (\<lambda>h s t. Inr keys),
     hl_attributes = (\<lambda>h s k ts. Inr [ALocal True, ANeverExtractable True, AAlwaysSensitive True,
       ASign True, ADecrypt False, AModulus [21], APublicExponent [3]]),
     hl_sign = (\<lambda>h s mech k d. Inr (7 # drop 19 d)),
     hl_destroy = (\<lambda>h s k. Inr ()), hl_generate = (\<lambda>h s a b. Inr ()),
     hl_sha256 = (\<lambda>b. take 32 (b @ replicate 32 0)), hl_sha384 = take 48, hl_sha512 = take 64,
     hl_rsa_new = (\<lambda>n e. Inr \<lparr>rk_modulus = n, rk_exponent = e\<rparr>),
     hl_rsa_verify = (\<lambda>pk p d s. s = 7 # d),
     hl_rsa_der = (\<lambda>pk. Inr [1, 2, 3])\<rparr>"

definition sample_hsm_options :: hsm_options where
  "sample_hsm_options = \<lparr>ho_module_path = ''softhsm2.so'', ho_token_label = ''TSU'',
     ho_key_label = ''tsu'', ho_pin = ''1234''\<rparr>"

definition sample_unopened :: hsm_world where
  "sample_unopened = \<lparr>hw_contexts = [], hw_history = [], hw_token =
     \<lparr>pt_session = 0, pt_token_label = [], pt_pin = [], pt_key_id = [], pt_key_label = [],
      pt_provenance_verified = False, pt_public_key = None\<rparr>\<rparr>"

definition sample_opened :: "handle list \<Rightarrow> hsm_world" where
  "sample_opened keys = (case open_token (sample_hsm keys) sample_hsm_options sample_unopened of
     (Inr t, w) \<Rightarrow> w\<lparr>hw_token := t\<rparr> | (Inl e, w) \<Rightarrow> w)"

text \<open>C38. Which signatures leave a token of PKCS#11, whatever the module answers and whatever
  was asked of the token before. The signature verifies, for the padding of the scheme and the
  digest that was given, under the public key the token keeps; the key is the one it kept
  before, if it had one. In this call the module made it, on the digest (wrapped in its
  DigestInfo for PKCS#1 v1.5, as it is for PSS), which has the length of its algorithm. And in
  the current session the module showed exactly one private key under the label and identifier
  of the token, born in the module, never extractable, always sensitive and allowed to sign.\<close>

theorem signature_is_genuine:
  assumes "(hsm_step H)\<^sup>*\<^sup>* w0 w" and "\<not> pt_provenance_verified (hw_token w0)"
    and "sign_digest_with H sch alg digest w = (Inr sig, v)"
  shows "(\<exists>pk. pt_public_key (hw_token v) = Some pk
      \<and> pt_public_key (hw_token w) \<in> {None, Some pk}
      \<and> hl_rsa_verify H pk (padding_of sch alg) digest sig)
    \<and> (\<exists>ev \<in> set (drop (length (hw_history w)) (hw_history v)). signs_digest sch alg digest sig ev)
    \<and> vouched_key v"
proof -
  have "upright None [] w"
    by (rule steps_upright [OF assms(1)]) (simp add: upright_def assms(2))
  from runs_okD [OF runs_sign [OF upright_now [OF this]] assms(3)]
  show ?thesis by (auto simp: genuine_def made_since_def upright_def)
qed

lemma sample_signature:
  "fst (sign_digest_with (sample_hsm [5]) Pkcs1v15 Sha256 (replicate 32 9) (sample_opened [5]))
     = Inr (7 # replicate 32 9)"
  by code_simp

lemma signature_is_genuine_witness:
  "vouched_key (snd (sign_digest_with (sample_hsm [5]) Pkcs1v15 Sha256 (replicate 32 9) (sample_opened [5])))"
proof -
  have "\<not> pt_provenance_verified (hw_token (sample_opened [5]))" by code_simp
  moreover have "sign_digest_with (sample_hsm [5]) Pkcs1v15 Sha256 (replicate 32 9) (sample_opened [5])
      = (Inr (7 # replicate 32 9), snd (sign_digest_with (sample_hsm [5]) Pkcs1v15 Sha256
          (replicate 32 9) (sample_opened [5])))"
    by (metis sample_signature prod.collapse)
  ultimately show ?thesis by (blast dest: signature_is_genuine [OF rtranclp.rtrancl_refl])
qed

text \<open>C39. Signing always ends, after at most two requests of a signature and three openings of a
  session, whatever the module answers: a signature is asked for again at most once, and inside
  each attempt the reading of the provenance may reconnect once more.\<close>

theorem signing_is_bounded:
  "\<exists>es. hw_history (snd (sign_digest_with H sch alg digest w)) = hw_history w @ es
     \<and> length (filter is_open es) \<le> 3 \<and> length (filter is_sign es) \<le> 2"
  using costs_sign [of H sch alg digest] unfolding costs_def by (metis same_append_eq)

text \<open>The three openings are reached: on a module that shows no key, while the source means to
  reconnect once.\<close>

lemma missing_key_reconnects_thrice:
  "fst (sign_digest_with (sample_hsm []) Pss Sha256 (replicate 32 9) (sample_opened []))
     = Inl KeyNotFound"
  "length (filter is_open (drop (length (hw_history (sample_opened []))) (hw_history (snd
     (sign_digest_with (sample_hsm []) Pss Sha256 (replicate 32 9) (sample_opened [])))))) = 3"
  by code_simp+

end
