(* ===== verification/Ocsp.thy ===== *)
theory Ocsp
  imports Hsm Issuer
begin

text \<open>
  The OCSP responder: \<open>crates/oe-ocsp-core/src/lib.rs\<close> and the structures of \<open>asn1.rs\<close>. It
  answers from the last revocation list it downloaded from the authority and verified
  (\<open>download\<close>, \<open>install\<close>), never from the register itself. The DER of the protocol, the
  HTTP client, RSA and the clocks are parameters or oracles; the reading of the number of a
  list, which the source does by hand, is modelled byte by byte.
\<close>

section \<open>Structures of the protocol (\<open>asn1.rs\<close>)\<close>

record cert_id =
  ci_hash_algorithm :: alg_id
  ci_issuer_name_hash :: bytes
  ci_issuer_key_hash :: bytes
  ci_serial_number :: bytes

record single_request =
  sq_req_cert :: cert_id
  sq_extensions :: "extension list option"

record ocsp_request =
  oq_version :: "byte option"
  oq_requestor_name :: "bytes option"
  oq_request_list :: "single_request list"
  oq_request_extensions :: "extension list option"
  oq_optional_signature :: "bytes option"

datatype response_status = Successful | MalformedRequest | InternalError | TryLater | SigRequired
  | Unauthorized

datatype responder_id = ByName dn | ByKey bytes

text \<open>Dates of the protocol are whole seconds since the epoch.\<close>

datatype cert_status = Good | Revoked_at int "nat option" | Unknown

record single_response =
  sp_cert_id :: cert_id
  sp_cert_status :: cert_status
  sp_this_update :: int
  sp_next_update :: "int option"
  sp_extensions :: "extension list option"

record response_data =
  rd_version :: "byte option"
  rd_responder_id :: responder_id
  rd_produced_at :: int
  rd_responses :: "single_response list"
  rd_extensions :: "extension list option"

record basic_response =
  br_tbs_response_data :: response_data
  br_signature_algorithm :: alg_id
  br_signature :: bytes
  br_certs :: "x509 list option"

record ocsp_response =
  op_status :: response_status
  op_bytes :: "(oid \<times> bytes) option"

definition OID_PKIX_OCSP_BASIC :: oid where "OID_PKIX_OCSP_BASIC = ''1.3.6.1.5.5.7.48.1.1''"
definition OID_PKIX_OCSP_NONCE :: oid where "OID_PKIX_OCSP_NONCE = ''1.3.6.1.5.5.7.48.1.2''"
definition OID_CRL_REASON :: oid where "OID_CRL_REASON = ''2.5.29.21''"

definition MAX_REQUESTS :: nat where "MAX_REQUESTS = 100"
definition MAX_NONCE_BYTES :: nat where "MAX_NONCE_BYTES = 32"
definition ON_DEMAND_REFRESH_COOLDOWN :: duration where "ON_DEMAND_REFRESH_COOLDOWN = seconds 2"

section \<open>Errors, options, state\<close>

datatype crl_signature_error = KeyUnreadable string | TbsUnencodable string
  | AlgorithmNotAdmitted oid | BadSignature hsm_error

datatype ocsp_error =
    MissingCrlUrl
  | Fetch string
  | UnexpectedStatus nat
  | InvalidCrl string
  | InvalidCrlSignature crl_signature_error
  | CrlWithoutNumber
  | CrlReplayed string string
  | OcspDer string
  | OcspSigning hsm_error

record ocsp_deps =
  oc_deps :: deps
  oc_hsm :: hsm_lib
  oc_request :: "bytes \<Rightarrow> string + ocsp_request"
  oc_reason :: "bytes \<Rightarrow> string + nat"
  oc_name :: "dn \<Rightarrow> string + bytes"
  oc_rsa_key :: "bytes \<Rightarrow> string + rsa_key"
  oc_response_data :: "response_data \<Rightarrow> string + bytes"
  oc_basic :: "basic_response \<Rightarrow> string + bytes"
  oc_response :: "ocsp_response \<Rightarrow> string + bytes"

record ocsp_options =
  oo_signer :: token
  oo_certificate :: x509
  oo_issuer :: x509
  oo_crl_url :: string
  oo_crl_refresh :: duration
  oo_scheme :: scheme

record revoked_serial =
  rv_at :: instant
  rv_reason :: "nat option"

record crl_snapshot =
  cs_revoked :: "bytes \<rightharpoonup> revoked_serial"
  cs_issued :: "bytes set"
  cs_this_update :: instant
  cs_next_update :: instant
  cs_last_fetch :: "instant option"
  cs_crl_number :: "bytes option"

definition snapshot_default :: crl_snapshot where
  "snapshot_default = \<lparr>cs_revoked = Map.empty, cs_issued = {}, cs_this_update = unix_epoch,
     cs_next_update = unix_epoch, cs_last_fetch = None, cs_crl_number = None\<rparr>"

text \<open>The world of a responder: its state, the two clocks (the date and the monotonic clock of
  the delays), and the answers of the authority's server, in the order of the requests: an
  error, or a status with a body that may itself fail to arrive.\<close>

record ocsp_world =
  os_snapshot :: crl_snapshot
  os_last_on_demand :: "instant option"
  os_clock :: "nat \<Rightarrow> instant"
  os_tick :: nat
  os_elapsed :: "nat \<Rightarrow> instant"
  os_elapsed_tick :: nat
  os_http :: "nat \<Rightarrow> string \<Rightarrow> string + nat \<times> (string + bytes)"
  os_fetches :: nat

type_synonym ('e, 'a) ocsp = "(ocsp_world, 'e, 'a) res"

definition ocsp_now :: "('e, instant) ocsp" where
  "ocsp_now = (\<lambda>w. (Inr (os_clock w (os_tick w)), w\<lparr>os_tick := os_tick w + 1\<rparr>))"

definition monotonic_now :: "('e, instant) ocsp" where
  "monotonic_now = (\<lambda>w. (Inr (os_elapsed w (os_elapsed_tick w)), w\<lparr>os_elapsed_tick := os_elapsed_tick w + 1\<rparr>))"

text \<open>\<open>Instant::elapsed\<close>\<close>

definition elapsed_since :: "instant \<Rightarrow> ('e, duration) ocsp" where
  "elapsed_since t = bindr monotonic_now (\<lambda>now. ok (max 0 (now - t)))"

definition http_get :: "string \<Rightarrow> (ocsp_error, nat \<times> (string + bytes)) ocsp" where
  "http_get url = (\<lambda>w. let w' = w\<lparr>os_fetches := os_fetches w + 1\<rparr> in
     case os_http w (os_fetches w) url of Inl e \<Rightarrow> (Inl (Fetch e), w') | Inr a \<Rightarrow> (Inr a, w'))"

text \<open>\<open>Responder::new\<close>: the state of a new responder; \<open>built\<close> is what building a client of
  HTTP gave.\<close>

definition responder_new :: "ocsp_options \<Rightarrow> string + unit \<Rightarrow> ocsp_error + crl_snapshot \<times> instant option" where
  "responder_new R built =
     sbind (require (oo_crl_url R \<noteq> []) MissingCrlUrl) (\<lambda>_.
     sbind (or_else_err Fetch built) (\<lambda>_.
     Inr (snapshot_default, None)))"

definition ocsp_crl_url :: "deps \<Rightarrow> string \<Rightarrow> x509 \<Rightarrow> string" where
  "ocsp_crl_url D pki_internal_url issuer =
     rev (dropWhile (\<lambda>c. c = CHR ''/'') (rev pki_internal_url)) @ ''/download/''
     @ d_file_name D (common_name issuer) @ ''.crl''"

section \<open>Numbers written by hand\<close>

datatype ordering = Less | Equal | Greater

fun byte_at :: "bytes \<Rightarrow> nat \<Rightarrow> byte option" where
  "byte_at [] i = None"
| "byte_at (b # bs) 0 = Some b"
| "byte_at (b # bs) (Suc i) = byte_at bs i"

text \<open>The length of a DER value and where its content starts: short, or on one or two bytes.\<close>

fun long_length :: "bytes \<Rightarrow> nat \<Rightarrow> nat \<Rightarrow> nat option" where
  "long_length raw i 0 = Some 0"
| "long_length raw i (Suc n) = (case (long_length raw i n, byte_at raw (i + n)) of
     (Some len, Some b) \<Rightarrow> Some (len * 256 + unat b) | _ \<Rightarrow> None)"

definition der_header :: "bytes \<Rightarrow> (nat \<times> nat) option" where
  "der_header raw = (case byte_at raw 1 of
     None \<Rightarrow> None
   | Some b \<Rightarrow>
       if b \<le> 0x7f then Some (unat b, 2)
       else let n = unat (b AND 0x7f) in
         if n = 0 \<or> n > 2 then None
         else map_option (\<lambda>len. (len, 2 + n)) (long_length raw 2 n))"

definition der_integer_magnitude :: "bytes \<Rightarrow> bytes option" where
  "der_integer_magnitude raw =
     (if byte_at raw 0 \<noteq> Some 0x02 then None
      else case der_header raw of
        None \<Rightarrow> None
      | Some (len, start) \<Rightarrow>
          if length raw < start + len then None
          else
            let content = take len (drop start raw) in
            if content = [] \<or> hd content AND 0x80 \<noteq> 0 \<or> length raw \<noteq> start + len then None
            else Some (dropWhile (\<lambda>b. b = 0) content))"

fun cmp_bytes :: "bytes \<Rightarrow> bytes \<Rightarrow> ordering" where
  "cmp_bytes [] [] = Equal"
| "cmp_bytes [] (b # bs) = Less"
| "cmp_bytes (a # as) [] = Greater"
| "cmp_bytes (a # as) (b # bs) = (if a < b then Less else if b < a then Greater else cmp_bytes as bs)"

definition uint_cmp :: "bytes \<Rightarrow> bytes \<Rightarrow> ordering" where
  "uint_cmp a b =
     (let a = dropWhile (\<lambda>x. x = 0) a; b = dropWhile (\<lambda>x. x = 0) b in
      if length a < length b then Less else if length b < length a then Greater else cmp_bytes a b)"

definition hex_upper :: "bytes \<Rightarrow> string" where
  "hex_upper bs = concat (map (\<lambda>b. map (\<lambda>n. ''0123456789ABCDEF'' ! n) [unat b div 16, unat b mod 16]) bs)"

text \<open>Dates of the crate \<open>der\<close>: from 1970 to 9999, in seconds. The fields of a date are put
  together as they were taken apart.\<close>

definition MAX_DER_DATE :: int where "MAX_DER_DATE = 253402300799"

definition offset_to_der_datetime :: "instant \<Rightarrow> string + int" where
  "offset_to_der_datetime t =
     (let s = t div seconds 1 in
      if 0 \<le> s \<and> s \<le> MAX_DER_DATE then Inr s else Inl ''DateTime'')"

definition x509_time_to_offset :: "int \<Rightarrow> instant" where
  "x509_time_to_offset s = (if 0 \<le> s \<and> s \<le> MAX_DER_DATE then seconds s else unix_epoch)"

section \<open>Reading a list\<close>

definition find_ext :: "oid \<Rightarrow> extension list option \<Rightarrow> extension option" where
  "find_ext target exts = Option.bind exts (find (\<lambda>e. ext_id e = target))"

definition read_crl_number :: "signed_crl \<Rightarrow> ocsp_error + bytes" where
  "read_crl_number crl =
     sbind (ok_or CrlWithoutNumber (find_ext OID_CRL_NUMBER (tc_exts (sc_tbs crl)))) (\<lambda>e.
     ok_or CrlWithoutNumber (der_integer_magnitude (ext_value e)))"

definition verify_crl_signature :: "ocsp_deps \<Rightarrow> signed_crl \<Rightarrow> x509 \<Rightarrow> crl_signature_error + unit" where
  "verify_crl_signature P crl issuer =
     sbind (or_else_err KeyUnreadable (oc_rsa_key P (x_spki issuer))) (\<lambda>public_key.
     sbind (or_else_err TbsUnencodable (d_tbs_crl (oc_deps P) (sc_tbs crl))) (\<lambda>tbs_der.
     sbind (ok_or (AlgorithmNotAdmitted (alg_oid (sc_alg crl))) (scheme_of (oc_deps P) (sc_alg crl)))
       (\<lambda>(sch, alg).
     or_else_err BadSignature (verify_signature_with (oc_hsm P) public_key sch alg
       (hash_with (oc_hsm P) alg tbs_der) (sc_signature crl)))))"

definition revoked_reason :: "ocsp_deps \<Rightarrow> revoked_entry \<Rightarrow> nat option" where
  "revoked_reason P entry = Option.bind (find_ext OID_CRL_REASON (re_exts entry)) (\<lambda>e.
     case oc_reason P (ext_value e) of Inl _ \<Rightarrow> None | Inr r \<Rightarrow> Some r)"

definition revoked_map :: "ocsp_deps \<Rightarrow> signed_crl \<Rightarrow> bytes \<rightharpoonup> revoked_serial" where
  "revoked_map P crl = fold (\<lambda>entry m. m(re_serial entry \<mapsto>
       \<lparr>rv_at = x509_time_to_offset (re_date entry), rv_reason = revoked_reason P entry\<rparr>))
     (case tc_revoked (sc_tbs crl) of None \<Rightarrow> [] | Some entries \<Rightarrow> entries) Map.empty"

record crl_reading =
  cr_revoked :: "bytes \<rightharpoonup> revoked_serial"
  cr_issued :: "bytes set"
  cr_number :: bytes
  cr_this_update :: instant
  cr_next_update :: instant

text \<open>From the body of the answer to what will be put in force.\<close>

definition read_crl :: "ocsp_deps \<Rightarrow> ocsp_options \<Rightarrow> bytes \<Rightarrow> ocsp_error + crl_reading" where
  "read_crl P R der =
     sbind (or_else_err InvalidCrl (from_der (d_crl (oc_deps P)) der)) (\<lambda>crl.
     sbind (or_else_err InvalidCrlSignature (verify_crl_signature P crl (oo_issuer R))) (\<lambda>_.
     sbind (ok_or (InvalidCrl ''Failed'') (find_ext OID_CRL_ISSUED_SERIALS (tc_exts (sc_tbs crl)))) (\<lambda>ext.
     sbind (or_else_err OcspDer (from_der (d_serials (oc_deps P)) (ext_value ext))) (\<lambda>serials.
     sbind (read_crl_number crl) (\<lambda>number.
     Inr \<lparr>cr_revoked = revoked_map P crl, cr_issued = set serials, cr_number = number,
          cr_this_update = x509_time_to_offset (tc_this_update (sc_tbs crl)),
          cr_next_update = (case tc_next_update (sc_tbs crl) of
            None \<Rightarrow> unix_epoch | Some t \<Rightarrow> x509_time_to_offset t)\<rparr>)))))"

text \<open>\<open>Responder::refresh\<close> in two steps: the download and its reading (a list out of date is
  only reported), and what happens under the lock.\<close>

definition download :: "ocsp_deps \<Rightarrow> ocsp_options \<Rightarrow> (ocsp_error, crl_reading) ocsp" where
  "download P R =
     bindr (http_get (oo_crl_url R)) (\<lambda>(status, body).
     bindr (ensure (200 \<le> status \<and> status < 300) (UnexpectedStatus status)) (\<lambda>_.
     bindr (lift (or_else_err Fetch body)) (\<lambda>der.
     bindr (lift (read_crl P R der)) (\<lambda>reading.
     bindr ocsp_now (\<lambda>_.
     ok reading)))))"

definition install :: "crl_reading \<Rightarrow> (ocsp_error, unit) ocsp" where
  "install r =
     bindr (gets (\<lambda>w. cs_crl_number (os_snapshot w))) (\<lambda>current.
     bindr (case current of
         Some c \<Rightarrow> ensure (uint_cmp (cr_number r) c \<noteq> Less)
           (CrlReplayed (hex_upper (cr_number r)) (hex_upper c))
       | None \<Rightarrow> ok ()) (\<lambda>_.
     bindr monotonic_now (\<lambda>now.
     modify (\<lambda>w. w\<lparr>os_snapshot := \<lparr>cs_revoked = cr_revoked r, cs_issued = cr_issued r,
       cs_this_update = cr_this_update r, cs_next_update = cr_next_update r,
       cs_last_fetch = Some now, cs_crl_number = Some (cr_number r)\<rparr>\<rparr>))))"

definition refresh :: "ocsp_deps \<Rightarrow> ocsp_options \<Rightarrow> (ocsp_error, unit) ocsp" where
  "refresh P R = bindr (download P R) install"

definition try_on_demand_refresh :: "ocsp_deps \<Rightarrow> ocsp_options \<Rightarrow> (ocsp_error, bool) ocsp" where
  "try_on_demand_refresh P R =
     bindr (gets os_last_on_demand) (\<lambda>last.
     bindr (case last of
         Some t \<Rightarrow> bindr (elapsed_since t) (\<lambda>e. ok (e < ON_DEMAND_REFRESH_COOLDOWN))
       | None \<Rightarrow> ok False) (\<lambda>too_soon.
     if too_soon then ok False
     else
       bindr monotonic_now (\<lambda>now.
       bindr (modify (\<lambda>w. w\<lparr>os_last_on_demand := Some now\<rparr>)) (\<lambda>_.
       bindr (attempt (refresh P R)) (\<lambda>_.
       ok True)))))"

section \<open>Answering\<close>

definition snapshot_stale :: "ocsp_options \<Rightarrow> (ocsp_error, bool) ocsp" where
  "snapshot_stale R =
     bindr (gets os_snapshot) (\<lambda>snap.
     bindr (case cs_last_fetch snap of
         Some t \<Rightarrow> bindr (elapsed_since t) (\<lambda>e. ok (oo_crl_refresh R * 2 < e))
       | None \<Rightarrow> ok True) (\<lambda>old.
     if old then ok True
     else bindr ocsp_now (\<lambda>now. ok (cs_next_update snap < now))))"

text \<open>The status of a number in a list; \<open>None\<close> when the date of a revocation has no DER.\<close>

definition status_in :: "crl_snapshot \<Rightarrow> bytes \<Rightarrow> cert_status option" where
  "status_in snap serial = (case cs_revoked snap serial of
     Some rv \<Rightarrow> (case offset_to_der_datetime (rv_at rv) of
         Inl _ \<Rightarrow> None | Inr date \<Rightarrow> Some (Revoked_at date (rv_reason rv)))
   | None \<Rightarrow> Some (if serial \<in> cs_issued snap then Good else Unknown))"

definition lookup :: "ocsp_options \<Rightarrow> bytes \<Rightarrow> (ocsp_error, (cert_status \<times> instant \<times> instant) option) ocsp" where
  "lookup R serial =
     bindr (snapshot_stale R) (\<lambda>stale.
     if stale then ok None
     else bindr (gets os_snapshot) (\<lambda>snap.
       ok (map_option (\<lambda>st. (st, cs_this_update snap, cs_next_update snap)) (status_in snap serial))))"

primrec lookup_all ::
    "ocsp_options \<Rightarrow> bytes list \<Rightarrow> (ocsp_error, (cert_status \<times> instant \<times> instant) list option) ocsp" where
  "lookup_all R [] = ok (Some [])"
| "lookup_all R (s # ss) =
     bindr (lookup R s) (\<lambda>found.
     case found of
       None \<Rightarrow> ok None
     | Some x \<Rightarrow> bindr (lookup_all R ss) (\<lambda>rest. ok (map_option (\<lambda>xs. x # xs) rest)))"

definition request_nonce :: "ocsp_deps \<Rightarrow> ocsp_request \<Rightarrow> unit + extension option" where
  "request_nonce P req = (case find_ext OID_PKIX_OCSP_NONCE (oq_request_extensions req) of
     None \<Rightarrow> Inr None
   | Some ext \<Rightarrow>
       let len = (case from_der (d_octets (oc_deps P)) (ext_value ext) of
           Inr inner \<Rightarrow> length inner | Inl _ \<Rightarrow> length (ext_value ext)) in
       if len = 0 \<or> len > MAX_NONCE_BYTES then Inl () else Inr (Some ext))"

definition compute_issuer_hashes :: "ocsp_deps \<Rightarrow> x509 \<Rightarrow> alg_id \<Rightarrow> (bytes \<times> bytes) option" where
  "compute_issuer_hashes P issuer hash_alg =
     (case (oc_name P (x_subject issuer), d_spki_bits (oc_deps P) (x_spki issuer)) of
        (Inr name_der, Inr key_bits) \<Rightarrow>
          if alg_oid hash_alg = ''1.3.14.3.2.26''
          then Some (d_sha1 (oc_deps P) name_der, d_sha1 (oc_deps P) key_bits)
          else if alg_oid hash_alg = ''2.16.840.1.101.3.4.2.1''
          then Some (d_sha256 (oc_deps P) name_der, d_sha256 (oc_deps P) key_bits)
          else None
      | _ \<Rightarrow> None)"

text \<open>The numbers asked for, or the status that refuses the whole request.\<close>

primrec requested_serials ::
    "ocsp_deps \<Rightarrow> x509 \<Rightarrow> single_request list \<Rightarrow> response_status + bytes list" where
  "requested_serials P issuer [] = Inr []"
| "requested_serials P issuer (r # rs) =
     (let cid = sq_req_cert r in
      case compute_issuer_hashes P issuer (ci_hash_algorithm cid) of
        None \<Rightarrow> Inl MalformedRequest
      | Some (name_hash, key_hash) \<Rightarrow>
          if ci_issuer_name_hash cid \<noteq> name_hash \<or> ci_issuer_key_hash cid \<noteq> key_hash
          then Inl Unauthorized
          else sbind (requested_serials P issuer rs) (\<lambda>ss. Inr (ci_serial_number cid # ss)))"

definition error_response :: "ocsp_deps \<Rightarrow> response_status \<Rightarrow> bytes" where
  "error_response P status =
     (case oc_response P \<lparr>op_status = status, op_bytes = None\<rparr> of Inl _ \<Rightarrow> [] | Inr der \<Rightarrow> der)"

definition single_response_of ::
    "single_request \<times> cert_status \<times> instant \<times> instant \<Rightarrow> ocsp_error + single_response" where
  "single_response_of x = (case x of (r, status, this_update, next_update) \<Rightarrow>
     sbind (or_else_err OcspDer (offset_to_der_datetime this_update)) (\<lambda>tu.
     sbind (or_else_err OcspDer (offset_to_der_datetime next_update)) (\<lambda>nu.
     Inr \<lparr>sp_cert_id = sq_req_cert r, sp_cert_status = status, sp_this_update = tu,
          sp_next_update = Some nu, sp_extensions = None\<rparr>)))"

text \<open>What is signed, and the answer around it.\<close>

definition response_data_of ::
    "ocsp_options \<Rightarrow> int \<Rightarrow> single_response list \<Rightarrow> extension option \<Rightarrow> response_data" where
  "response_data_of R produced_at responses nonce =
     \<lparr>rd_version = None, rd_responder_id = ByName (x_subject (oo_certificate R)),
      rd_produced_at = produced_at, rd_responses = responses,
      rd_extensions = map_option (\<lambda>n. [n]) nonce\<rparr>"

definition seal_response :: "ocsp_deps \<Rightarrow> ocsp_options \<Rightarrow> response_data \<Rightarrow> ocsp_error + bytes" where
  "seal_response P R tbs =
     sbind (or_else_err OcspDer (oc_response_data P tbs)) (\<lambda>tbs_der.
     sbind (or_else_err OcspSigning (tk_sign (oo_signer R) (oo_scheme R) Sha256
       (d_sha256 (oc_deps P) tbs_der))) (\<lambda>signature.
     sbind (or_else_err OcspSigning (signature_algorithm (oc_deps P) (oo_scheme R) Sha256)) (\<lambda>alg.
     sbind (or_else_err OcspDer (oc_basic P \<lparr>br_tbs_response_data = tbs, br_signature_algorithm = alg,
       br_signature = signature, br_certs = Some [oo_certificate R]\<rparr>)) (\<lambda>basic_der.
     or_else_err OcspDer (oc_response P \<lparr>op_status = Successful,
       op_bytes = Some (OID_PKIX_OCSP_BASIC, basic_der)\<rparr>)))))"

definition sign_response ::
    "ocsp_deps \<Rightarrow> ocsp_options \<Rightarrow> single_response list \<Rightarrow> extension option \<Rightarrow> (ocsp_error, bytes) ocsp" where
  "sign_response P R responses nonce =
     bindr ocsp_now (\<lambda>now.
     bindr (lift (or_else_err OcspDer (offset_to_der_datetime now))) (\<lambda>produced_at.
     lift (seal_response P R (response_data_of R produced_at responses nonce))))"

text \<open>The statuses of the numbers; when one is unknown, once more after a refresh.\<close>

definition find_statuses ::
    "ocsp_deps \<Rightarrow> ocsp_options \<Rightarrow> bytes list \<Rightarrow> (ocsp_error, (cert_status \<times> instant \<times> instant) list option) ocsp" where
  "find_statuses P R serials =
     bindr (lookup_all R serials) (\<lambda>found.
     case found of
       None \<Rightarrow> ok None
     | Some first \<Rightarrow>
         bindr (if list_ex (\<lambda>(st, tu, nu). st = Unknown) first then try_on_demand_refresh P R
           else ok False) (\<lambda>refreshed.
         if refreshed then
           bindr (lookup_all R serials) (\<lambda>again.
           ok (case again of None \<Rightarrow> Some first | Some xs \<Rightarrow> Some xs))
         else ok (Some first)))"

definition ocsp_inner :: "ocsp_deps \<Rightarrow> ocsp_options \<Rightarrow> bytes \<Rightarrow> (ocsp_error, bytes) ocsp" where
  "ocsp_inner P R req_der = (case oc_request P req_der of
     Inl _ \<Rightarrow> ok (error_response P MalformedRequest)
   | Inr req \<Rightarrow>
       let requests = oq_request_list req in
       if requests = [] \<or> length requests > MAX_REQUESTS then ok (error_response P MalformedRequest)
       else case request_nonce P req of
         Inl _ \<Rightarrow> ok (error_response P MalformedRequest)
       | Inr nonce \<Rightarrow>
           (case requested_serials P (oo_issuer R) requests of
              Inl status \<Rightarrow> ok (error_response P status)
            | Inr serials \<Rightarrow>
                bindr (find_statuses P R serials) (\<lambda>statuses.
                case statuses of
                  None \<Rightarrow> ok (error_response P TryLater)
                | Some found \<Rightarrow>
                    bindr (lift (traverse single_response_of (zip requests found))) (\<lambda>responses.
                    sign_response P R responses nonce))))"

definition ocsp_handle :: "ocsp_deps \<Rightarrow> ocsp_options \<Rightarrow> bytes \<Rightarrow> ('e, bytes) ocsp" where
  "ocsp_handle P R req_der =
     bindr (attempt (ocsp_inner P R req_der)) (\<lambda>r.
     ok (case r of Inr der \<Rightarrow> der | Inl _ \<Rightarrow> error_response P InternalError))"

end
