(* ===== verification/Ocsp_Spec.thy ===== *)
theory Ocsp_Spec
  imports Ocsp
begin

text \<open>
  What the OCSP responder guarantees: the order of the numbers of lists, the authority's
  published list read back, the list in force over every interleaving of downloads and
  requests, and what a signed answer says. The properties come last, with their witnesses.
\<close>

section \<open>Numbers: what is compared and what is read\<close>

lemma cmp_bytes_value:
  "length a = length b \<Longrightarrow> cmp_bytes a b =
     (if of_be_bytes a < of_be_bytes b then Less else if of_be_bytes b < of_be_bytes a then Greater else Equal)"
proof (induction a b rule: cmp_bytes.induct)
  case (4 x xs y ys)
  let ?n = "256 ^ length ys"
  have b: "of_be_bytes xs < ?n" "of_be_bytes ys < ?n"
    using of_be_less [of xs] of_be_less [of ys] 4(2) by simp_all
  have less: "unat u * ?n + of_be_bytes us < unat v * ?n + of_be_bytes vs"
    if "u < v" "of_be_bytes us < ?n" for u v :: byte and us vs
  proof -
    have "Suc (unat u) \<le> unat v" using that(1) by (simp add: word_less_nat_alt)
    then have "Suc (unat u) * ?n \<le> unat v * ?n" by (rule mult_le_mono1)
    then show ?thesis using that(2) by simp
  qed
  consider "x < y" | "y < x" | "x = y" by (meson linorder_less_linear)
  then show ?case
  proof cases
    case 1
    then show ?thesis using less [of x y xs ys] b 4(2) by (simp add: of_be_Cons)
  next
    case 2
    then show ?thesis using less [of y x ys xs] b 4(2) by (simp add: of_be_Cons)
  next
    case 3
    then show ?thesis using 4 by (simp add: of_be_Cons)
  qed
qed simp_all

lemma shorter_is_less:
  assumes "length a < length b" and "b = dropWhile (\<lambda>x. x = 0) bs"
  shows "of_be_bytes a < of_be_bytes b"
proof -
  have "b \<noteq> []" using assms(1) by auto
  then have "256 ^ (length b - 1) \<le> of_be_bytes b"
    using assms(2) hd_dropWhile [of "\<lambda>x. x = 0" bs] by (intro of_be_bound) auto
  moreover have "of_be_bytes a < 256 ^ length a" by (rule of_be_less)
  moreover have "(256::nat) ^ length a \<le> 256 ^ (length b - 1)"
    using assms(1) by (intro power_increasing) auto
  ultimately show ?thesis by linarith
qed

lemma uint_cmp_value:
  "uint_cmp a b =
     (if of_be_bytes a < of_be_bytes b then Less else if of_be_bytes b < of_be_bytes a then Greater else Equal)"
proof -
  let ?a = "dropWhile (\<lambda>x. x = 0) a" and ?b = "dropWhile (\<lambda>x. x = 0) b"
  have cmp: "uint_cmp a b = (if length ?a < length ?b then Less else if length ?b < length ?a then Greater
      else cmp_bytes ?a ?b)"
    by (simp add: uint_cmp_def)
  consider "length ?a < length ?b" | "length ?b < length ?a" | "length ?a = length ?b" by linarith
  then have "uint_cmp a b = (if of_be_bytes ?a < of_be_bytes ?b then Less
      else if of_be_bytes ?b < of_be_bytes ?a then Greater else Equal)"
  proof cases
    case 1
    then show ?thesis using shorter_is_less [OF 1 refl] by (simp only: cmp if_True)
  next
    case 2
    then have "\<not> length ?a < length ?b" by simp
    then show ?thesis
      using shorter_is_less [OF 2 refl] 2 order_less_asym by (simp only: cmp if_True if_False) auto
  next
    case 3
    then have "\<not> length ?a < length ?b" "\<not> length ?b < length ?a" by simp_all
    then show ?thesis using cmp_bytes_value [OF 3] by (simp only: cmp if_False)
  qed
  then show ?thesis by (simp only: of_be_strip)
qed

text \<open>What \<open>Uint\<close> of the crate \<open>der\<close> writes: without zeros in front, but one when the first bit
  would be read as a sign.\<close>

definition der_uint :: "bytes \<Rightarrow> bytes" where
  "der_uint bs = (let ds = significant bs; content = (if hd ds AND 0x80 \<noteq> 0 then 0 # ds else ds) in
     0x02 # der_len (length content) @ content)"

lemma strip_significant: "bs \<noteq> [] \<Longrightarrow> dropWhile (\<lambda>b. b = 0) (significant bs) = dropWhile (\<lambda>b. b = 0) bs"
proof (cases "dropWhile (\<lambda>b. b = 0) bs")
  case Nil
  assume "bs \<noteq> []"
  then have "last bs = 0" using Nil by (simp add: dropWhile_eq_Nil_conv)
  then show ?thesis by (simp add: significant_def Nil)
next
  case (Cons d ds)
  then have "d \<noteq> 0" using hd_dropWhile [of "\<lambda>b. b = 0" bs] by auto
  then show ?thesis by (simp add: significant_def Cons)
qed

lemma length_significant: "bs \<noteq> [] \<Longrightarrow> significant bs \<noteq> [] \<and> length (significant bs) \<le> length bs"
  using length_dropWhile_le [of "\<lambda>b. b = 0" bs]
  by (cases bs) (auto simp: significant_def split: list.split)

lemma magnitude_of_der_uint:
  assumes "bs \<noteq> []" and "length bs < 127"
  shows "der_integer_magnitude (der_uint bs) = Some (dropWhile (\<lambda>b. b = 0) bs)"
proof -
  let ?ds = "significant bs"
  obtain content where content_def: "content = (if hd ?ds AND 0x80 \<noteq> 0 then 0 # ?ds else ?ds)"
    by blast
  have ds: "?ds \<noteq> []" "length ?ds < 127" using length_significant [OF assms(1)] assms(2) by auto
  have len: "content \<noteq> []" "length content < 128" using ds by (auto simp: content_def)
  have top: "hd content AND 0x80 = 0" by (simp add: content_def)
  have strip: "dropWhile (\<lambda>b. b = 0) content = dropWhile (\<lambda>b. b = 0) bs"
    using strip_significant [OF assms(1)] by (simp add: content_def)
  have raw: "der_uint bs = 0x02 # of_nat (length content) # content"
    using len by (simp add: der_uint_def der_len_def Let_def content_def)
  have "unat (of_nat (length content) :: byte) = length content"
    using len by (simp add: unat_of_nat)
  moreover from this have "(of_nat (length content) :: byte) \<le> 0x7f"
    using len by (simp add: word_le_nat_alt)
  ultimately show ?thesis
    using len top strip by (simp add: der_integer_magnitude_def der_header_def raw numeral_eq_Suc)
qed

section \<open>A list the authority published\<close>

lemma publish_crlD:
  assumes "publish_crl D I w = (Inr c, v)"
  obtains tu nu tbs sc where
    "crl_content D I (rl_this_update c) tu nu (revoked_list (w_store w)) (rl_number c)
       (issued_list (w_store w)) = Inr tbs"
    and "sign_crl D (is_signer I) (is_scheme I) tbs = Inr sc" and "to_der (d_crl D) sc = Inr (rl_der c)"
proof -
  have "runs (publish_crl D I) (\<lambda>c v. \<exists>tu nu tbs sc.
      crl_content D I (rl_this_update c) tu nu (revoked_list (w_store w)) (rl_number c)
        (issued_list (w_store w)) = Inr tbs
      \<and> sign_crl D (is_signer I) (is_scheme I) tbs = Inr sc \<and> to_der (d_crl D) sc = Inr (rl_der c))
      (\<lambda>_ _. True) w"
    unfolding publish_crl_def Let_def
    by (auto simp: run wp revoked_list_def [symmetric] issued_list_def [symmetric])
  from runs_okD [OF this assms] that show ?thesis by blast
qed

text \<open>What the responder relies on, beside the authority's own code: encoders and decoders of
  the two sides agree; dates of certificates are those the DER can write; the signatures of the
  authority's token verify under the key of its certificate, as
  \<open>Hsm.signature_is_genuine\<close> shows of a token of PKCS#11.\<close>

definition uint_ok :: "deps \<Rightarrow> bool" where
  "uint_ok D \<longleftrightarrow> (\<forall>bs der. d_uint D bs = Inr der \<longrightarrow> der = der_uint bs)"

definition dates_ok :: "deps \<Rightarrow> bool" where
  "dates_ok D \<longleftrightarrow> (\<forall>t s. d_time D t = Inr s \<longrightarrow> 0 \<le> s \<and> s \<le> MAX_DER_DATE)"

definition tbs_ok :: "deps \<Rightarrow> bool" where
  "tbs_ok D \<longleftrightarrow> (\<forall>tbs b. d_tbs_crl D tbs = Inr b \<longrightarrow> (\<exists>d. to_der (d_alg D) (tc_signature tbs) = Inr d))"

definition reasons_ok :: "ocsp_deps \<Rightarrow> bool" where
  "reasons_ok P \<longleftrightarrow> (\<forall>n b. d_reason (oc_deps P) n = Inr b \<longrightarrow> oc_reason P b = Inr n)"

definition signatures_ok :: "ocsp_deps \<Rightarrow> issuer \<Rightarrow> bool" where
  "signatures_ok P I \<longleftrightarrow> hl_sha256 (oc_hsm P) = d_sha256 (oc_deps P)
     \<and> (\<exists>pk. oc_rsa_key P (x_spki (is_certificate I)) = Inr pk
          \<and> (\<forall>sch digest sig. tk_sign (is_signer I) sch Sha256 digest = Inr sig \<longrightarrow>
               hl_rsa_verify (oc_hsm P) pk (padding_of sch Sha256) digest sig))"

definition trusts :: "ocsp_deps \<Rightarrow> ocsp_options \<Rightarrow> deps \<Rightarrow> issuer \<Rightarrow> bool" where
  "trusts P R D I \<longleftrightarrow> oc_deps P = D \<and> oo_issuer R = is_certificate I
     \<and> codec_ok (d_crl D) \<and> codec_ok (d_serials D) \<and> codec_ok (d_alg D) \<and> any_ok D
     \<and> uint_ok D \<and> dates_ok D \<and> tbs_ok D \<and> reasons_ok P \<and> signatures_ok P I"

text \<open>What a status says of the register the list was made from.\<close>

definition told :: "deps \<Rightarrow> memory \<Rightarrow> instant \<Rightarrow> bytes \<Rightarrow> cert_status \<Rightarrow> bool" where
  "told D s now sn st \<longleftrightarrow> (case st of
     Revoked_at date reason \<Rightarrow> (\<exists>c \<in> set (revoked_list s). d_serial D (crt_serial c) = Inr sn
       \<and> to_x509_time D (case crt_revoked_at c of None \<Rightarrow> now | Some t \<Rightarrow> t) = Inr date
       \<and> reason = (if crt_revocation_reason c = 0 then None
                   else Some (crl_reason_of (crt_revocation_reason c))))
   | Good \<Rightarrow> (\<forall>c \<in> set (revoked_list s). d_serial D (crt_serial c) \<noteq> Inr sn)
       \<and> (\<exists>i \<in> set (issued_list s). d_serial D i = Inr sn)
   | Unknown \<Rightarrow> (\<forall>i \<in> set (issued_list s). d_serial D i \<noteq> Inr sn))"

lemma fold_updates:
  "(\<forall>e \<in> set es. k e \<noteq> x) \<and> fold (\<lambda>e m. m(k e \<mapsto> g e)) es m x = m x
   \<or> (\<exists>e \<in> set es. k e = x \<and> fold (\<lambda>e m. m(k e \<mapsto> g e)) es m x = Some (g e))"
proof (induction es arbitrary: m)
  case (Cons e es)
  from Cons [of "m(k e \<mapsto> g e)"] show ?case by auto
qed simp

text \<open>The entries of the list, one for each revoked certificate.\<close>

lemma crl_entry_fields:
  assumes "crl_entry D now c = Inr e"
  shows "d_serial D (crt_serial c) = Inr (re_serial e)"
    and "to_x509_time D (case crt_revoked_at c of None \<Rightarrow> now | Some t \<Rightarrow> t) = Inr (re_date e)"
    and "reasons_ok P \<Longrightarrow> oc_deps P = D \<Longrightarrow> revoked_reason P e = (if crt_revocation_reason c = 0 then None
      else Some (crl_reason_of (crt_revocation_reason c)))"
  using assms
  by (auto simp: crl_entry_def extensions_crl_reason_def build_ext_def revoked_reason_def find_ext_def
      OID_CRL_REASON_def reasons_ok_def wp split: if_splits)

lemma date_back:
  "0 \<le> s \<Longrightarrow> s \<le> MAX_DER_DATE \<Longrightarrow> offset_to_der_datetime (x509_time_to_offset s) = Inr s"
  by (simp add: offset_to_der_datetime_def x509_time_to_offset_def seconds_def)

text \<open>The list the authority signed is the one the responder reads.\<close>

lemma published_signature:
  assumes t: "trusts P R D I" and "sign_crl D (is_signer I) (is_scheme I) tbs = Inr sc"
  shows "verify_crl_signature P sc (oo_issuer R) = Inr ()"
proof -
  have D: "oc_deps P = D" "oo_issuer R = is_certificate I" "any_ok D" "codec_ok (d_alg D)" "tbs_ok D"
    and sigs: "signatures_ok P I"
    using t by (simp_all add: trusts_def)
  obtain alg tbs_der sig where alg: "signature_algorithm D (is_scheme I) Sha256 = Inr alg"
    and tbs_der: "d_tbs_crl D (tbs\<lparr>tc_signature := alg\<rparr>) = Inr tbs_der"
    and sig: "tk_sign (is_signer I) (is_scheme I) Sha256 (d_sha256 D tbs_der) = Inr sig"
    and sc: "sc = \<lparr>sc_tbs = tbs\<lparr>tc_signature := alg\<rparr>, sc_alg = alg, sc_signature = sig\<rparr>"
    using assms(2) by (auto simp: sign_crl_def Let_def wp)
  obtain d where "to_der (d_alg D) alg = Inr d"
    using D(5) tbs_der unfolding tbs_ok_def by fastforce
  then have "scheme_of D alg = Some (is_scheme I, Sha256)"
    using alg scheme_of_pkcs1 scheme_of_pss [OF D(3,4)] by (cases "is_scheme I") auto
  then show ?thesis
    using sigs sig by (auto simp: verify_crl_signature_def D sc tbs_der signatures_ok_def
        verify_signature_with_def wp)
qed

lemma published_exts:
  assumes "crl_content D I now tu nu rs n is = Inr tbs" and "trusts P R D I" and "0 \<le> n" and "n < 2 ^ 64"
  shows "\<exists>ext b vals. find_ext OID_CRL_NUMBER (tc_exts tbs) = Some ext
      \<and> (\<exists>number. der_integer_magnitude (ext_value ext) = Some number \<and> of_be_bytes number = nat n)
      \<and> find_ext OID_CRL_ISSUED_SERIALS (tc_exts tbs) = Some b
      \<and> from_der (d_serials D) (ext_value b) = Inr vals
      \<and> traverse (d_serial D) is = Inr vals"
proof -
  obtain entries ski x1 x2 x3 x4 where x: "crl_number D n = Inr x1" "authority_key_identifier D ski = Inr x2"
      "crl_issued_serials D is = Inr x3"
    and tbs: "tbs = unsigned_crl (x_subject (is_certificate I)) tu nu entries [x1, x2, x3, x4]"
    using assms(1) by (auto simp: crl_content_def wp)
  have D: "uint_ok D" "codec_ok (d_serials D)" using assms(2) by (simp_all add: trusts_def)
  let ?bs = "significant (be8 (word_of_int n))"
  have "length (be8 (word_of_int n)) = 8" by (simp add: be8_bytes)
  then have be: "be8 (word_of_int n) \<noteq> []" "length (be8 (word_of_int n)) = 8" by auto
  then have bs: "?bs \<noteq> []" "length ?bs \<le> 8"
    using length_significant [OF be(1)] by auto
  have "of_be_bytes (dropWhile (\<lambda>b. b = 0) ?bs) = nat n"
    using assms(3,4) be(1)
    by (simp add: strip_significant be8_bytes of_be_be unsigned_of_int take_bit_eq_mod)
  moreover have v: "ext_id x1 = OID_CRL_NUMBER" "ext_value x1 = der_uint ?bs"
    using x(1) D(1) assms(3) by (auto simp: crl_number_def build_ext_def wp uint_ok_def max_def)
  ultimately have number: "\<exists>number. der_integer_magnitude (ext_value x1) = Some number \<and> of_be_bytes number = nat n"
    using bs by (simp add: magnitude_of_der_uint)
  obtain vals where "traverse (d_serial D) is = Inr vals" "ext_id x3 = OID_CRL_ISSUED_SERIALS"
      "from_der (d_serials D) (ext_value x3) = Inr vals"
    using x(3) codec_okD [OF D(2)] by (auto simp: crl_issued_serials_def build_ext_def wp)
  moreover have "ext_id x2 = OID_AUTHORITY_KEY_ID"
    using x(2) by (auto simp: authority_key_identifier_def build_ext_def wp)
  ultimately show ?thesis
    using number v(1)
    by (auto simp: tbs unsigned_crl_def find_ext_def oid_defs)
qed

lemma all2_left: "list_all2 P xs ys \<Longrightarrow> x \<in> set xs \<Longrightarrow> \<exists>y \<in> set ys. P x y"
  by (induction rule: list_all2_induct) auto

lemma all2_right: "list_all2 P xs ys \<Longrightarrow> y \<in> set ys \<Longrightarrow> \<exists>x \<in> set xs. P x y"
  by (induction rule: list_all2_induct) auto

lemma published_revocations:
  assumes content: "crl_content D I now tu nu (revoked_list s) n is = Inr tbs" and t: "trusts P R D I"
    and tbs: "tc_revoked (sc_tbs sc) = tc_revoked tbs"
  shows "case revoked_map P sc sn of
      None \<Rightarrow> \<forall>c \<in> set (revoked_list s). d_serial D (crt_serial c) \<noteq> Inr sn
    | Some rv \<Rightarrow> \<exists>date. offset_to_der_datetime (rv_at rv) = Inr date
        \<and> told D s now sn (Revoked_at date (rv_reason rv))"
proof -
  let ?u = "\<lambda>e. \<lparr>rv_at = x509_time_to_offset (re_date e), rv_reason = revoked_reason P e\<rparr>"
  have D: "dates_ok D" "reasons_ok P" "oc_deps P = D" using t by (simp_all add: trusts_def)
  obtain entries where es: "list_all2 (\<lambda>c e. crl_entry D now c = Inr e) (revoked_list s) entries"
    and tc: "tc_revoked tbs = (if entries = [] then None else Some entries)"
    using content by (auto simp: crl_content_def unsigned_crl_def wp traverse_Inr)
  have m: "revoked_map P sc = fold (\<lambda>e m. m(re_serial e \<mapsto> ?u e)) entries Map.empty"
    by (simp add: revoked_map_def tbs tc)
  from fold_updates [of entries re_serial sn ?u Map.empty] show ?thesis
  proof
    assume "(\<forall>e \<in> set entries. re_serial e \<noteq> sn)
      \<and> fold (\<lambda>e m. m(re_serial e \<mapsto> ?u e)) entries Map.empty sn = Map.empty sn"
    then show ?thesis
      using all2_left [OF es] by (fastforce simp: m dest: crl_entry_fields(1))
  next
    assume "\<exists>e \<in> set entries. re_serial e = sn
      \<and> fold (\<lambda>e m. m(re_serial e \<mapsto> ?u e)) entries Map.empty sn = Some (?u e)"
    then obtain e where e: "e \<in> set entries" "re_serial e = sn" and some: "revoked_map P sc sn = Some (?u e)"
      by (auto simp: m)
    obtain c where c: "c \<in> set (revoked_list s)" and ce: "crl_entry D now c = Inr e"
      using all2_right [OF es e(1)] by auto
    note f = crl_entry_fields [OF ce]
    have "0 \<le> re_date e" "re_date e \<le> MAX_DER_DATE"
      using f(2) D(1) by (auto simp: to_x509_time_def dates_ok_def wp)
    then have "offset_to_der_datetime (rv_at (?u e)) = Inr (re_date e)"
      by (simp add: date_back)
    moreover have "told D s now sn (Revoked_at (re_date e) (rv_reason (?u e)))"
      unfolding told_def using c f(1,2) f(3) [OF D(2,3)] e(2) by auto
    ultimately show ?thesis using some by simp
  qed
qed

lemma published_reading:
  assumes pub: "publish_crl D I w = (Inr c, v)" and t: "trusts P R D I"
    and n: "0 \<le> rl_number c" "rl_number c < 2 ^ 64"
  obtains r where "read_crl P R (rl_der c) = Inr r" and "of_be_bytes (cr_number r) = nat (rl_number c)"
    and "\<And>snap sn. cs_revoked snap = cr_revoked r \<Longrightarrow> cs_issued snap = cr_issued r \<Longrightarrow>
      \<exists>st. status_in snap sn = Some st \<and> told D (w_store w) (rl_this_update c) sn st"
proof -
  obtain tu nu tbs sc where
    content: "crl_content D I (rl_this_update c) tu nu (revoked_list (w_store w)) (rl_number c)
       (issued_list (w_store w)) = Inr tbs"
    and sign: "sign_crl D (is_signer I) (is_scheme I) tbs = Inr sc" and der: "to_der (d_crl D) sc = Inr (rl_der c)"
    using pub by (rule publish_crlD)
  have D: "oc_deps P = D" "codec_ok (d_crl D)" using t by (simp_all add: trusts_def)
  have tbs: "tc_exts (sc_tbs sc) = tc_exts tbs" "tc_revoked (sc_tbs sc) = tc_revoked tbs"
    using sign by (auto simp: sign_crl_def Let_def wp)
  obtain ext b vals number where x: "find_ext OID_CRL_NUMBER (tc_exts tbs) = Some ext"
      "der_integer_magnitude (ext_value ext) = Some number" "of_be_bytes number = nat (rl_number c)"
      "find_ext OID_CRL_ISSUED_SERIALS (tc_exts tbs) = Some b"
      "from_der (d_serials D) (ext_value b) = Inr vals"
    and vals: "list_all2 (\<lambda>i n. d_serial D i = Inr n) (issued_list (w_store w)) vals"
    using published_exts [OF content t n] unfolding traverse_Inr by blast
  have reads: "from_der (d_crl D) (rl_der c) = Inr sc" using D(2) der by (rule codec_okD)
  show ?thesis
  proof (rule that)
    show "read_crl P R (rl_der c) = Inr \<lparr>cr_revoked = revoked_map P sc, cr_issued = set vals, cr_number = number,
        cr_this_update = x509_time_to_offset (tc_this_update (sc_tbs sc)),
        cr_next_update = (case tc_next_update (sc_tbs sc) of
          None \<Rightarrow> unix_epoch | Some t \<Rightarrow> x509_time_to_offset t)\<rparr>" (is "_ = Inr ?r")
      by (simp add: read_crl_def D(1) reads wp published_signature [OF t sign] tbs x read_crl_number_def)
    show "of_be_bytes (cr_number ?r) = nat (rl_number c)" by (simp add: x)
    fix snap :: crl_snapshot and sn
    assume "cs_revoked snap = cr_revoked ?r" "cs_issued snap = cr_issued ?r"
    then have snap: "cs_revoked snap = revoked_map P sc" "cs_issued snap = set vals" by simp_all
    have issued: "sn \<in> set vals \<longleftrightarrow> (\<exists>i \<in> set (issued_list (w_store w)). d_serial D i = Inr sn)"
      using all2_left [OF vals] all2_right [OF vals] by (metis Inr_inject)
    show "\<exists>st. status_in snap sn = Some st \<and> told D (w_store w) (rl_this_update c) sn st"
    proof (cases "revoked_map P sc sn")
      case None
      then show ?thesis
        using published_revocations [OF content t tbs(2), of sn] issued
        by (auto simp: status_in_def snap told_def)
    next
      case (Some rv)
      then show ?thesis
        using published_revocations [OF content t tbs(2), of sn]
        by (auto simp: status_in_def snap)
    qed
  qed
qed

section \<open>How the steps run\<close>

lemma runs_ocsp_now [run]:
  "runs ocsp_now Q E w \<longleftrightarrow> Q (os_clock w (os_tick w)) (w\<lparr>os_tick := os_tick w + 1\<rparr>)"
  by (simp add: runs_def ocsp_now_def)

lemma runs_monotonic_now [run]:
  "runs monotonic_now Q E w \<longleftrightarrow>
     Q (os_elapsed w (os_elapsed_tick w)) (w\<lparr>os_elapsed_tick := os_elapsed_tick w + 1\<rparr>)"
  by (simp add: runs_def monotonic_now_def)

lemma runs_elapsed_since [run]:
  "runs (elapsed_since t) Q E w \<longleftrightarrow>
     Q (max 0 (os_elapsed w (os_elapsed_tick w) - t)) (w\<lparr>os_elapsed_tick := os_elapsed_tick w + 1\<rparr>)"
  by (simp add: elapsed_since_def run)

lemma runs_http_get [run]:
  "runs (http_get url) Q E w \<longleftrightarrow>
     (\<forall>a. os_http w (os_fetches w) url = Inr a \<longrightarrow> Q a (w\<lparr>os_fetches := os_fetches w + 1\<rparr>))
     \<and> (\<forall>e. os_http w (os_fetches w) url = Inl e \<longrightarrow> E (Fetch e) (w\<lparr>os_fetches := os_fetches w + 1\<rparr>))"
  by (simp add: runs_def http_get_def Let_def split: sum.split)

text \<open>The list in force after an installation.\<close>

definition in_force :: "crl_reading \<Rightarrow> instant \<Rightarrow> crl_snapshot" where
  "in_force r now = \<lparr>cs_revoked = cr_revoked r, cs_issued = cr_issued r,
     cs_this_update = cr_this_update r, cs_next_update = cr_next_update r,
     cs_last_fetch = Some now, cs_crl_number = Some (cr_number r)\<rparr>"

definition older :: "crl_reading \<Rightarrow> crl_snapshot \<Rightarrow> bool" where
  "older r snap \<longleftrightarrow> (\<exists>n. cs_crl_number snap = Some n \<and> of_be_bytes (cr_number r) < of_be_bytes n)"

lemma runs_install [run]:
  "runs (install r) Q E w \<longleftrightarrow>
     (if older r (os_snapshot w)
      then E (CrlReplayed (hex_upper (cr_number r)) (hex_upper (the (cs_crl_number (os_snapshot w))))) w
      else Q () (w\<lparr>os_elapsed_tick := os_elapsed_tick w + 1,
        os_snapshot := in_force r (os_elapsed w (os_elapsed_tick w))\<rparr>))"
  by (cases "cs_crl_number (os_snapshot w)")
    (auto simp: install_def run older_def uint_cmp_value in_force_def)

section \<open>The list in force only moves forward\<close>

text \<open>Downloads may overlap: what was read waits to be put in force, in any order, between
  requests.\<close>

inductive ocsp_step ::
    "ocsp_deps \<Rightarrow> ocsp_options \<Rightarrow> ocsp_world \<times> crl_reading list \<Rightarrow> ocsp_world \<times> crl_reading list \<Rightarrow> bool"
  for P R where
  downloaded: "download P R w = (Inr r, v) \<Longrightarrow> ocsp_step P R (w, rs) (v, rs @ [r])"
| not_downloaded: "download P R w = (Inl e, v) \<Longrightarrow> ocsp_step P R (w, rs) (v, rs)"
| installed: "r \<in> set rs \<Longrightarrow> ocsp_step P R (w, rs) (snd (install r w), remove1 r rs)"
| handled: "ocsp_step P R (w, rs) (snd (ocsp_handle P R der w :: (unit + bytes) \<times> ocsp_world), rs)"

text \<open>Read from a list whose signature verified.\<close>

definition verified_reading :: "ocsp_deps \<Rightarrow> ocsp_options \<Rightarrow> crl_reading \<Rightarrow> bool" where
  "verified_reading P R r \<longleftrightarrow> (\<exists>der crl. from_der (d_crl (oc_deps P)) der = Inr crl
     \<and> verify_crl_signature P crl (oo_issuer R) = Inr () \<and> read_crl P R der = Inr r)"

definition authentic :: "ocsp_deps \<Rightarrow> ocsp_options \<Rightarrow> crl_snapshot \<Rightarrow> bool" where
  "authentic P R snap \<longleftrightarrow> snap = snapshot_default \<or> (\<exists>r t. verified_reading P R r \<and> snap = in_force r t)"

definition not_before :: "crl_snapshot \<Rightarrow> crl_snapshot \<Rightarrow> bool" where
  "not_before old new \<longleftrightarrow> (\<forall>n. cs_crl_number old = Some n \<longrightarrow>
     (\<exists>m. cs_crl_number new = Some m \<and> of_be_bytes n \<le> of_be_bytes m))"

lemma not_before_refl [simp]: "not_before a a"
  by (simp add: not_before_def)

lemma not_before_trans: "not_before a b \<Longrightarrow> not_before b c \<Longrightarrow> not_before a c"
  unfolding not_before_def by (meson le_trans)

lemma not_older [simp]: "\<not> older r snap \<Longrightarrow> not_before snap (in_force r t)"
  by (auto simp: not_before_def older_def in_force_def not_less)

definition onward :: "ocsp_deps \<Rightarrow> ocsp_options \<Rightarrow> crl_snapshot \<Rightarrow> ocsp_world \<Rightarrow> bool" where
  "onward P R old w \<longleftrightarrow> authentic P R (os_snapshot w) \<and> not_before old (os_snapshot w)"

lemma read_crl_verified: "read_crl P R der = Inr r \<Longrightarrow> verified_reading P R r"
  unfolding verified_reading_def
  by (auto simp: read_crl_def wp) (metis (no_types, lifting))

lemma keeps_onward_clocks [pres]:
  "keeps (onward P R old) ocsp_now" "keeps (onward P R old) monotonic_now"
  "keeps (onward P R old) (elapsed_since t)" "keeps (onward P R old) (http_get url)"
  "keeps (onward P R old) (modify (\<lambda>w. w\<lparr>os_last_on_demand := x\<rparr>))"
  by (simp_all add: keeps_runs run onward_def)

lemma runs_download:
  assumes "onward P R old w"
  shows "runs (download P R) (\<lambda>r v. verified_reading P R r \<and> onward P R old v) (\<lambda>_. onward P R old) w"
  using assms by (auto simp: download_def run onward_def split: prod.splits intro: read_crl_verified)

lemma runs_install_verified:
  "verified_reading P R r \<Longrightarrow> onward P R old w \<Longrightarrow>
     runs (install r) (\<lambda>_. onward P R old) (\<lambda>_. onward P R old) w"
  by (auto simp: run onward_def authentic_def intro: not_before_trans)

lemma keeps_onward_refresh [pres]: "keeps (onward P R old) (refresh P R)"
  unfolding refresh_def
  by (rule keeps_bindr_then [OF runs_download]) (auto intro: runs_install_verified)

lemma keeps_onward_try [pres]: "keeps (onward P R old) (try_on_demand_refresh P R)"
  unfolding try_on_demand_refresh_def by (auto intro!: pres)

lemma keeps_onward_lookup [pres]: "keeps (onward P R old) (lookup R sn)"
  unfolding lookup_def snapshot_stale_def by (auto intro!: pres)

lemma keeps_onward_lookup_all [pres]: "keeps (onward P R old) (lookup_all R sns)"
  by (induction sns) (auto intro!: pres)

lemma keeps_onward_statuses [pres]: "keeps (onward P R old) (find_statuses P R sns)"
  unfolding find_statuses_def by (auto intro!: pres)

lemma keeps_onward_sign [pres]: "keeps (onward P R old) (sign_response P R responses nonce)"
  unfolding sign_response_def by (auto intro!: pres)

lemma keeps_onward_handle [pres]: "keeps (onward P R old) (ocsp_handle P R der)"
proof -
  have "keeps (onward P R old) (ocsp_inner P R der)"
    unfolding ocsp_inner_def Let_def by (auto intro!: pres)
  then show ?thesis unfolding ocsp_handle_def by (auto intro!: pres)
qed

lemma step_onward:
  assumes "ocsp_step P R x y" and "onward P R old (fst x)" and "\<forall>r \<in> set (snd x). verified_reading P R r"
  shows "onward P R old (fst y) \<and> (\<forall>r \<in> set (snd y). verified_reading P R r)"
  using assms
proof (cases rule: ocsp_step.cases)
  case (downloaded w r v rs)
  with runs_okD [OF runs_download] assms show ?thesis by force
next
  case (not_downloaded w e v rs)
  with runs_errD [OF runs_download] assms show ?thesis by force
next
  case (installed r rs w)
  then have "keeps (onward P R old) (install r)"
    using assms(3) by (auto simp: keeps_runs intro!: runs_install_verified)
  with installed assms show ?thesis by (auto simp: keeps_def dest: notin_set_remove1)
next
  case (handled w rs der)
  have "keeps (onward P R old) (ocsp_handle P R der :: (unit, bytes) ocsp)"
    by (rule keeps_onward_handle)
  with handled assms show ?thesis by (simp add: keeps_def)
qed

lemma steps_onward:
  assumes "(ocsp_step P R)\<^sup>*\<^sup>* x y" and "onward P R old (fst x)" and "\<forall>r \<in> set (snd x). verified_reading P R r"
  shows "onward P R old (fst y) \<and> (\<forall>r \<in> set (snd y). verified_reading P R r)"
  using assms by (induction rule: rtranclp_induct) (blast dest: step_onward)+

section \<open>What an answer says\<close>

text \<open>Readings of the clocks since the beginning of a call.\<close>

definition since :: "ocsp_world \<Rightarrow> ocsp_world \<Rightarrow> bool" where
  "since w v \<longleftrightarrow> os_clock v = os_clock w \<and> os_elapsed v = os_elapsed w
     \<and> os_tick w \<le> os_tick v \<and> os_elapsed_tick w \<le> os_elapsed_tick v"

definition fresh :: "ocsp_options \<Rightarrow> ocsp_world \<Rightarrow> crl_snapshot \<Rightarrow> bool" where
  "fresh R w snap \<longleftrightarrow> (\<exists>t i j. cs_last_fetch snap = Some t \<and> os_elapsed_tick w \<le> i \<and> os_tick w \<le> j
     \<and> os_elapsed w i - t \<le> oo_crl_refresh R * 2 \<and> os_clock w j \<le> cs_next_update snap)"

lemma keeps_since [pres]:
  "keeps (since w0) ocsp_now" "keeps (since w0) monotonic_now" "keeps (since w0) (elapsed_since t)"
  "keeps (since w0) (http_get url)" "keeps (since w0) (modify (\<lambda>w. w\<lparr>os_last_on_demand := x\<rparr>))"
  "keeps (since w0) (install r)"
  by (auto simp: keeps_runs run since_def)

lemma keeps_since_try [pres]: "keeps (since w0) (try_on_demand_refresh P R)"
  unfolding try_on_demand_refresh_def refresh_def download_def
  by (auto intro!: pres split: prod.split)

lemma runs_lookup:
  assumes "since w0 w"
  shows "runs (lookup R sn) (\<lambda>found v. since w0 v \<and> os_snapshot v = os_snapshot w
    \<and> (\<forall>x. found = Some x \<longrightarrow> fresh R w0 (os_snapshot w) \<and> (\<exists>st. status_in (os_snapshot w) sn = Some st
         \<and> x = (st, cs_this_update (os_snapshot w), cs_next_update (os_snapshot w)))))
    (\<lambda>_. since w0) w"
  using assms
  by (auto simp: lookup_def snapshot_stale_def run since_def fresh_def not_less intro!: exI)

text \<open>The statuses of all the numbers, from one list.\<close>

definition statuses_from ::
    "crl_snapshot \<Rightarrow> bytes list \<Rightarrow> (cert_status \<times> instant \<times> instant) list \<Rightarrow> bool" where
  "statuses_from snap = list_all2 (\<lambda>sn (st, tu, nu). status_in snap sn = Some st
     \<and> tu = cs_this_update snap \<and> nu = cs_next_update snap)"

lemma runs_lookup_all:
  assumes "since w0 w"
  shows "runs (lookup_all R sns) (\<lambda>found v. since w0 v \<and> os_snapshot v = os_snapshot w
    \<and> (\<forall>xs. found = Some xs \<longrightarrow> statuses_from (os_snapshot w) sns xs
         \<and> (sns \<noteq> [] \<longrightarrow> fresh R w0 (os_snapshot w)))) (\<lambda>_. since w0) w"
  using assms
proof (induction sns arbitrary: w)
  case (Cons sn sns)
  show ?case
    unfolding lookup_all.simps runs_bindr
  proof (rule runs_mono [OF runs_lookup [OF Cons.prems]], goal_cases)
    case (1 found v)
    then have v: "since w0 v" "os_snapshot v = os_snapshot w" by simp_all
    have "runs (lookup_all R sns) (\<lambda>rest u. since w0 u \<and> os_snapshot u = os_snapshot w
        \<and> (\<forall>xs. rest = Some xs \<longrightarrow> statuses_from (os_snapshot w) sns xs)) (\<lambda>_. since w0) v"
      by (rule runs_mono [OF Cons.IH [OF v(1)]]) (simp_all add: v(2))
    then show ?case
      using 1 by (cases found) (auto simp: run statuses_from_def elim!: runs_mono)
  qed simp
qed (simp add: run statuses_from_def)

lemma runs_find_statuses:
  assumes "since w0 w" and "sns \<noteq> []"
  shows "runs (find_statuses P R sns) (\<lambda>found v. since w0 v
    \<and> (\<forall>xs. found = Some xs \<longrightarrow> (\<exists>snap \<in> {os_snapshot w, os_snapshot v}.
         statuses_from snap sns xs \<and> fresh R w0 snap))) (\<lambda>_. since w0) w"
  unfolding find_statuses_def runs_bindr
proof (rule runs_mono [OF runs_lookup_all [OF assms(1), of R sns]], goal_cases)
  case (1 found v)
  show ?case
  proof (cases found)
    case None
    then show ?thesis using 1 by (simp add: run)
  next
    case (Some first)
    have again: "runs (lookup_all R sns) (\<lambda>again u. since w0 u \<and> os_snapshot u = os_snapshot t
        \<and> (\<forall>xs. again = Some xs \<longrightarrow> statuses_from (os_snapshot t) sns xs \<and> fresh R w0 (os_snapshot t)))
        (\<lambda>_. since w0) t" if "since w0 t" for t
      by (rule runs_mono [OF runs_lookup_all [OF that]]) (use assms(2) in auto)
    have "runs (try_on_demand_refresh P R) (\<lambda>_. since w0) (\<lambda>_. since w0) v"
      using 1 by (intro runs_keeps [OF keeps_since_try]) simp
    then show ?thesis
      using 1 Some assms(2) by (auto simp: run elim!: runs_mono intro!: runs_mono [OF again] split: option.split)
  qed
qed simp

definition asked_of_us :: "ocsp_deps \<Rightarrow> x509 \<Rightarrow> single_request \<Rightarrow> bool" where
  "asked_of_us P issuer r \<longleftrightarrow> (let cid = sq_req_cert r in
     compute_issuer_hashes P issuer (ci_hash_algorithm cid)
       = Some (ci_issuer_name_hash cid, ci_issuer_key_hash cid))"

lemma requested_serialsD:
  "requested_serials P issuer rs = Inr sns \<Longrightarrow>
     sns = map (\<lambda>r. ci_serial_number (sq_req_cert r)) rs \<and> list_all (asked_of_us P issuer) rs"
  by (induction rs arbitrary: sns)
    (auto simp: asked_of_us_def Let_def wp split: option.splits prod.splits if_splits)

lemma requested_serials_err:
  "requested_serials P issuer rs = Inl status \<Longrightarrow> status \<in> {MalformedRequest, Unauthorized}"
  by (induction rs) (auto simp: Let_def wp split: option.splits prod.splits if_splits)

definition answers :: "crl_snapshot \<Rightarrow> single_request \<Rightarrow> single_response \<Rightarrow> bool" where
  "answers snap r a \<longleftrightarrow> sp_cert_id a = sq_req_cert r
     \<and> status_in snap (ci_serial_number (sq_req_cert r)) = Some (sp_cert_status a)
     \<and> offset_to_der_datetime (cs_this_update snap) = Inr (sp_this_update a)
     \<and> (\<exists>nu. offset_to_der_datetime (cs_next_update snap) = Inr nu \<and> sp_next_update a = Some nu)"

lemma responses_answer:
  assumes "statuses_from snap (map (\<lambda>r. ci_serial_number (sq_req_cert r)) rs) found"
    and "traverse single_response_of (zip rs found) = Inr responses"
  shows "list_all2 (answers snap) rs responses"
  using assms
proof (induction rs arbitrary: found responses)
  case (Cons r rs)
  then show ?case
    by (auto simp: statuses_from_def list_all2_Cons1 wp single_response_of_def answers_def)
qed (simp add: statuses_from_def)

text \<open>An answer that is signed, to a request that could be read.\<close>

definition answered :: "ocsp_deps \<Rightarrow> ocsp_options \<Rightarrow> bytes \<Rightarrow> ocsp_world \<Rightarrow> ocsp_world \<Rightarrow> bytes \<Rightarrow> bool" where
  "answered P R der w v out \<longleftrightarrow> (\<exists>req nonce snap produced responses.
     oc_request P der = Inr req \<and> request_nonce P req = Inr nonce
     \<and> oq_request_list req \<noteq> [] \<and> length (oq_request_list req) \<le> MAX_REQUESTS
     \<and> list_all (asked_of_us P (oo_issuer R)) (oq_request_list req)
     \<and> snap \<in> {os_snapshot w, os_snapshot v} \<and> fresh R w snap
     \<and> list_all2 (answers snap) (oq_request_list req) responses
     \<and> seal_response P R (response_data_of R produced responses nonce) = Inr out)"

definition refused :: "ocsp_deps \<Rightarrow> bytes \<Rightarrow> bool" where
  "refused P out \<longleftrightarrow> (\<exists>status \<in> {MalformedRequest, InternalError, TryLater, Unauthorized}. out = error_response P status)"

lemma runs_inner:
  "runs (ocsp_inner P R der) (\<lambda>out v. refused P out \<or> answered P R der w v out) (\<lambda>_ _. True) w"
proof -
  have answer: "runs (find_statuses P R sns) (\<lambda>found. runs (case found of
        None \<Rightarrow> ok (error_response P TryLater)
      | Some found \<Rightarrow> bindr (lift (traverse single_response_of (zip (oq_request_list req) found))) (\<lambda>responses.
          sign_response P R responses nonce))
      (\<lambda>out v. refused P out \<or> answered P R der w v out) (\<lambda>_ _. True)) (\<lambda>_ _. True) w"
    if req: "oc_request P der = Inr req" "oq_request_list req \<noteq> []" "\<not> MAX_REQUESTS < length (oq_request_list req)"
      "request_nonce P req = Inr nonce" "requested_serials P (oo_issuer R) (oq_request_list req) = Inr sns"
    for req nonce sns
  proof -
    have sns: "sns = map (\<lambda>r. ci_serial_number (sq_req_cert r)) (oq_request_list req)"
      "list_all (asked_of_us P (oo_issuer R)) (oq_request_list req)"
      using requested_serialsD [OF req(5)] by simp_all
    have "since w w" by (simp add: since_def)
    moreover have "sns \<noteq> []" using sns(1) req(2) by simp
    ultimately show ?thesis
    proof (rule runs_mono [OF runs_find_statuses], goal_cases)
      case (1 found v)
      then show ?case
        using req sns
        by (auto simp: run refused_def answered_def sign_response_def not_less
            dest!: responses_answer split: option.split)
    qed simp
  qed
  then show ?thesis
    unfolding ocsp_inner_def Let_def
    by (auto simp: run refused_def dest: requested_serials_err split: sum.split)
qed

section \<open>Properties\<close>


text \<open>C36. The list a responder answers from is the one it started with, or one whose signature
  verified under the key of the authority; and its number never decreases, whatever lists are
  served to it, and however downloads, installations and requests are interleaved. Replaying an
  old list, even a genuine one, never brings back a status of the past.\<close>

theorem crl_only_moves_forward:
  assumes "(ocsp_step P R)\<^sup>*\<^sup>* (u, []) (w, rs)" and "os_snapshot u = snapshot_default"
    and "(ocsp_step P R)\<^sup>*\<^sup>* (w, rs) (v, rs')"
  shows "authentic P R (os_snapshot v) \<and> not_before (os_snapshot w) (os_snapshot v)"
proof -
  have "onward P R snapshot_default (fst (w, rs)) \<and> (\<forall>r \<in> set (snd (w, rs)). verified_reading P R r)"
    by (rule steps_onward [OF assms(1)]) (simp_all add: onward_def authentic_def assms(2))
  then have "onward P R (os_snapshot w) w" "\<forall>r \<in> set rs. verified_reading P R r"
    by (simp_all add: onward_def)
  then have "onward P R (os_snapshot w) (fst (v, rs'))"
    using steps_onward [OF assms(3), of "os_snapshot w"] by simp
  then show ?thesis by (simp add: onward_def)
qed

text \<open>A list of a higher number is in force.\<close>

definition beyond :: "crl_snapshot \<Rightarrow> int \<Rightarrow> bool" where
  "beyond snap n \<longleftrightarrow> (\<exists>m. cs_crl_number snap = Some m \<and> n < int (of_be_bytes m))"

text \<open>C35. From the register of the authority to the status a client is told. Let the authority
  have published a list and its server serve it. If the responder has no list of a higher
  number, its refresh succeeds, whatever happened before; the number in force is the one the
  authority gave, and for every serial number there is a status: revoked, with the date and
  the reason of the register, exactly for those the register had revoked when the list was
  made, good for those it had issued and not revoked, unknown for those it had never issued.
  If the responder has a list of a higher number, this one is refused and the list in force
  stays.\<close>

theorem published_list_is_told:
  assumes "publish_crl D I w = (Inr c, v)" and "trusts P R D I"
    and "0 \<le> rl_number c" and "rl_number c < 2 ^ 63"
    and "os_http u (os_fetches u) (oo_crl_url R) = Inr (200, Inr (rl_der c))"
  shows "if beyond (os_snapshot u) (rl_number c)
    then \<exists>e u'. refresh P R u = (Inl e, u') \<and> os_snapshot u' = os_snapshot u
    else \<exists>n u'. refresh P R u = (Inr (), u') \<and> cs_crl_number (os_snapshot u') = Some n
      \<and> int (of_be_bytes n) = rl_number c
      \<and> (\<forall>sn. \<exists>st. status_in (os_snapshot u') sn = Some st
           \<and> told D (w_store w) (rl_this_update c) sn st)"
proof -
  have "rl_number c < 2 ^ 64" using assms(4) by simp
  then obtain r where r: "read_crl P R (rl_der c) = Inr r" "of_be_bytes (cr_number r) = nat (rl_number c)"
    and told: "\<And>snap sn. cs_revoked snap = cr_revoked r \<Longrightarrow> cs_issued snap = cr_issued r \<Longrightarrow>
      \<exists>st. status_in snap sn = Some st \<and> told D (w_store w) (rl_this_update c) sn st"
    using published_reading [OF assms(1,2,3)] by blast
  have old: "older r (os_snapshot u) \<longleftrightarrow> beyond (os_snapshot u) (rl_number c)"
    using assms(3) by (auto simp: older_def beyond_def r nat_less_iff)
  have "runs (refresh P R) (\<lambda>_ u'. \<not> older r (os_snapshot u) \<and> cs_crl_number (os_snapshot u') = Some (cr_number r)
      \<and> (\<forall>sn. \<exists>st. status_in (os_snapshot u') sn = Some st \<and> told D (w_store w) (rl_this_update c) sn st))
      (\<lambda>_ u'. older r (os_snapshot u) \<and> os_snapshot u' = os_snapshot u) u"
    using assms(5) r(1) told by (auto simp: refresh_def download_def run wp in_force_def)
  then show ?thesis
    using r(2) assms(3) by (auto simp: runs_def old split: prod.splits sum.splits)
qed

section \<open>Witnesses\<close>

text \<open>The crates of the samples, with encoders that the responder can decode; the list the
  sample authority publishes is the one its decoder knows.\<close>

definition sample_ocsp_base :: deps where
  "sample_ocsp_base = sample_deps\<lparr>d_uint := (\<lambda>bs. Inr (der_uint bs)),
     d_serials := table_codec [[[0x81]]],
     d_reason := (\<lambda>n. if n < 256 then Inr [of_nat n] else Inl ''no encoding''),
     d_tbs_crl := (\<lambda>t. if tc_signature t = sample_alg then Inr [3] else Inl ''no encoding''),
     d_time := (\<lambda>t. if 0 \<le> t \<and> t div seconds 1 \<le> MAX_DER_DATE then Inr (t div seconds 1)
       else Inl ''no date'')\<rparr>"

definition sample_signed_crl :: signed_crl where
  "sample_signed_crl = projr (sign_crl sample_ocsp_base sample_token Pkcs1v15
     (projr (crl_content sample_ocsp_base sample_issuer (seconds 1000) 940 605800
       (revoked_list sample_memory) 1 (issued_list sample_memory))))"

definition sample_ocsp_deps :: deps where
  "sample_ocsp_deps = sample_ocsp_base\<lparr>d_crl := table_codec [sample_signed_crl]\<rparr>"

definition sample_responder :: ocsp_deps where
  "sample_responder = \<lparr>oc_deps = sample_ocsp_deps,
     oc_hsm = (sample_hsm [5])\<lparr>hl_sha256 := d_sha256 sample_ocsp_deps\<rparr>,
     oc_request = (\<lambda>b. Inl ''no decoder''),
     oc_reason = (\<lambda>b. case b of [n] \<Rightarrow> Inr (unat n) | _ \<Rightarrow> Inl ''no reason''),
     oc_name = (\<lambda>n. Inr [1]), oc_rsa_key = (\<lambda>b. Inr \<lparr>rk_modulus = 21, rk_exponent = 3\<rparr>),
     oc_response_data = (\<lambda>d. Inr [2]), oc_basic = (\<lambda>b. Inr [3]), oc_response = (\<lambda>r. Inr [4])\<rparr>"

definition sample_ocsp_options :: ocsp_options where
  "sample_ocsp_options = \<lparr>oo_signer = sample_token, oo_certificate = sample_ca_certificate,
     oo_issuer = sample_ca_certificate, oo_crl_url = ''http://ca/crl'', oo_crl_refresh = minutes 10,
     oo_scheme = Pkcs1v15\<rparr>"

definition sample_list :: "(ca_error + crl) \<times> ca_world" where
  "sample_list = publish_crl sample_ocsp_deps sample_issuer (sample_world sample_memory)"

definition sample_ocsp_world :: ocsp_world where
  "sample_ocsp_world = \<lparr>os_snapshot = snapshot_default, os_last_on_demand = None,
     os_clock = (\<lambda>n. seconds 1000), os_tick = 0, os_elapsed = (\<lambda>n. seconds 5), os_elapsed_tick = 0,
     os_http = (\<lambda>n url. Inr (200, Inr (rl_der (projr (fst sample_list))))), os_fetches = 0\<rparr>"

lemma sample_published: "\<not> isl (fst sample_list) \<and> rl_number (projr (fst sample_list)) = 1"
  by code_simp

lemma sample_trusts: "trusts sample_responder sample_ocsp_options sample_ocsp_deps sample_issuer"
proof -
  have "codec_ok (d_alg sample_ocsp_deps)" "codec_ok (d_crl sample_ocsp_deps)"
    "codec_ok (d_serials sample_ocsp_deps)"
    by (simp_all add: sample_ocsp_deps_def sample_ocsp_base_def sample_deps_def)
  moreover have "tbs_ok sample_ocsp_deps"
    by (auto simp: tbs_ok_def sample_ocsp_deps_def sample_ocsp_base_def sample_deps_def table_codec_def
        split: if_splits)
  moreover have "any_ok sample_ocsp_deps" "uint_ok sample_ocsp_deps" "dates_ok sample_ocsp_deps"
    by (auto simp: any_ok_def uint_ok_def dates_ok_def seconds_def sample_ocsp_deps_def
        sample_ocsp_base_def sample_deps_def split: if_splits)
  moreover have "reasons_ok sample_responder"
    by (auto simp: reasons_ok_def sample_responder_def sample_ocsp_deps_def sample_ocsp_base_def
        unat_of_nat split: if_splits)
  moreover have "signatures_ok sample_responder sample_issuer"
    by (auto simp: signatures_ok_def sample_responder_def sample_hsm_def sample_issuer_def
        sample_token_def sample_ca_certificate_def)
  ultimately show ?thesis
    by (simp add: trusts_def sample_responder_def sample_ocsp_options_def sample_issuer_def)
qed

lemma published_list_is_told_witness:
  "\<exists>u'. refresh sample_responder sample_ocsp_options sample_ocsp_world = (Inr (), u')
     \<and> (\<forall>sn. \<exists>st. status_in (os_snapshot u') sn = Some st \<and> told sample_ocsp_deps sample_memory
          (rl_this_update (projr (fst sample_list))) sn st)"
proof -
  obtain c where c: "fst sample_list = Inr c" and n: "rl_number c = 1"
    using sample_published by (cases "fst sample_list") auto
  have "publish_crl sample_ocsp_deps sample_issuer (sample_world sample_memory) = (Inr c, snd sample_list)"
    using c by (metis prod.collapse sample_list_def)
  from published_list_is_told [OF this sample_trusts, of sample_ocsp_world]
  show ?thesis
    by (auto simp: n c sample_ocsp_world_def beyond_def snapshot_default_def)
qed

text \<open>Downloaded, then put in force.\<close>

definition sample_downloaded :: "(ocsp_error + crl_reading) \<times> ocsp_world" where
  "sample_downloaded = download sample_responder sample_ocsp_options sample_ocsp_world"

lemma crl_only_moves_forward_witness:
  "authentic sample_responder sample_ocsp_options
     (os_snapshot (snd (install (projr (fst sample_downloaded)) (snd sample_downloaded))))"
proof -
  have "\<not> isl (fst sample_downloaded)" by code_simp
  then obtain r where r: "download sample_responder sample_ocsp_options sample_ocsp_world
      = (Inr r, snd sample_downloaded)" and "fst sample_downloaded = Inr r"
    by (cases "fst sample_downloaded") (auto simp: sample_downloaded_def prod_eq_iff)
  have one: "(ocsp_step sample_responder sample_ocsp_options)\<^sup>*\<^sup>* (sample_ocsp_world, [])
      (snd sample_downloaded, [] @ [r])"
    using r by (intro r_into_rtranclp ocsp_step.downloaded)
  have two: "(ocsp_step sample_responder sample_ocsp_options)\<^sup>*\<^sup>* (snd sample_downloaded, [] @ [r])
      (snd (install r (snd sample_downloaded)), remove1 r ([] @ [r]))"
    by (intro r_into_rtranclp ocsp_step.installed) simp
  have "os_snapshot sample_ocsp_world = snapshot_default" by (simp add: sample_ocsp_world_def)
  from crl_only_moves_forward [OF one this two] show ?thesis
    by (simp add: \<open>fst sample_downloaded = Inr r\<close>)
qed

end
