(* ===== verification/Tst_Token.thy ===== *)
theory Tst_Token
  imports Gen_Time X509
begin

text \<open>
  The structures of RFC 3161 (\<open>crates/oe-rfc3161-asn1/src/lib.rs\<close>) and the token of a timestamp
  (\<open>token.rs\<close>): what is signed, the CMS envelope around it, and the reading of the token back. The
  crates \<open>der\<close>, \<open>cms\<close> and \<open>x509-cert\<close> are the record \<open>token_lib\<close>.
\<close>

section \<open>Structures\<close>

record message_imprint =
  mi_hash_algorithm :: alg_id
  mi_hashed_message :: bytes

text \<open>An \<open>Int\<close> is the content of a DER INTEGER.\<close>

record time_stamp_req =
  tq_version :: byte
  tq_message_imprint :: message_imprint
  tq_req_policy :: "oid option"
  tq_nonce :: "bytes option"
  tq_cert_req :: bool
  tq_extensions :: "extension list option"

text \<open>A bit string: the number of unused bits of its last byte, and its bytes.\<close>

record pki_status_info =
  pk_status :: bytes
  pk_status_string :: "string list option"
  pk_fail_info :: "(nat \<times> bytes) option"

record time_stamp_resp =
  tr_status :: pki_status_info
  tr_time_stamp_token :: "bytes option"

record accuracy =
  ac_seconds :: "bytes option"
  ac_millis :: "16 word option"
  ac_micros :: "16 word option"

record tst_info =
  ti_version :: byte
  ti_policy :: oid
  ti_message_imprint :: message_imprint
  ti_serial_number :: bytes
  ti_gen_time :: any
  ti_accuracy :: "accuracy option"
  ti_ordering :: bool
  ti_nonce :: "bytes option"
  ti_tsa :: "bytes option"
  ti_extensions :: "extension list option"

section \<open>The structures of CMS\<close>

record signed_attribute =
  sa_oid :: oid
  sa_values :: "bytes list"

record ess_cert_id_v2 =
  es_hash_algorithm :: "alg_id option"
  es_cert_hash :: bytes

record signer_info =
  si_version :: nat
  si_sid :: "dn \<times> bytes"
  si_digest_alg :: alg_id
  si_signed_attrs :: "signed_attribute list option"
  si_signature_algorithm :: alg_id
  si_signature :: bytes
  si_unsigned_attrs :: "signed_attribute list option"

record signed_data =
  sd_version :: nat
  sd_digest_algorithms :: "alg_id list"
  sd_econtent_type :: oid
  sd_econtent :: "bytes option"
  sd_certificates :: "x509 list option"
  sd_crls :: "bytes list option"
  sd_signer_infos :: "signer_info list"

record content_info =
  ct_type :: oid
  ct_content :: bytes

text \<open>The sets of DER (\<open>SetOfVec\<close>) are put in order by the crate, which may refuse.\<close>

record token_lib =
  tl_deps :: deps
  tl_oid :: "oid \<Rightarrow> string + bytes"
  tl_int :: "bytes \<Rightarrow> string + bytes"
  tl_signing_certificate :: "ess_cert_id_v2 list \<Rightarrow> string + bytes"
  tl_attr_set :: "signed_attribute list \<Rightarrow> string + signed_attribute list"
  tl_cert_set :: "x509 list \<Rightarrow> string + x509 list"
  tl_attrs :: "signed_attribute list codec"
  tl_signed_data :: "signed_data codec"
  tl_content_info :: "content_info codec"
  tl_tst_info :: "tst_info codec"
  tl_request :: "time_stamp_req codec"
  tl_response :: "time_stamp_resp codec"

section \<open>The token\<close>

definition OID_SIGNED_DATA :: oid where "OID_SIGNED_DATA = ''1.2.840.113549.1.7.2''"
definition OID_CT_TST_INFO :: oid where "OID_CT_TST_INFO = ''1.2.840.113549.1.9.16.1.4''"
definition OID_CONTENT_TYPE :: oid where "OID_CONTENT_TYPE = ''1.2.840.113549.1.9.3''"
definition OID_MESSAGE_DIGEST :: oid where "OID_MESSAGE_DIGEST = ''1.2.840.113549.1.9.4''"
definition OID_SIGNING_CERTIFICATE_V2 :: oid where "OID_SIGNING_CERTIFICATE_V2 = ''1.2.840.113549.1.9.16.2.47''"
definition OID_RSA_ENCRYPTION :: oid where "OID_RSA_ENCRYPTION = ''1.2.840.113549.1.1.1''"

text \<open>\<open>any_of\<close>: an encoded value read again as an \<open>Any\<close>.\<close>

definition any_of :: "token_lib \<Rightarrow> string + bytes \<Rightarrow> string + bytes" where
  "any_of L encoded = sbind encoded (d_any (tl_deps L))"

definition octet_string :: "token_lib \<Rightarrow> bytes \<Rightarrow> string + bytes" where
  "octet_string L bs = any_of L (to_der (d_octets (tl_deps L)) bs)"

definition sha256_algorithm_identifier :: "token_lib \<Rightarrow> string + alg_id" where
  "sha256_algorithm_identifier L = sbind (d_any (tl_deps L) der_null) (\<lambda>null.
     Inr \<lparr>alg_oid = digest_oid Sha256, alg_params = Some null\<rparr>)"

definition rsa_encryption_algorithm_identifier :: "token_lib \<Rightarrow> string + alg_id" where
  "rsa_encryption_algorithm_identifier L = sbind (d_any (tl_deps L) der_null) (\<lambda>null.
     Inr \<lparr>alg_oid = OID_RSA_ENCRYPTION, alg_params = Some null\<rparr>)"

record token_parts =
  tp_tst_info_der :: bytes
  tp_tst_info_digest :: bytes
  tp_signing_cert_digest :: bytes
  tp_digest_alg :: alg_id
  tp_issuer :: dn
  tp_serial_number :: bytes
  tp_certs_der :: "bytes list"
  tp_include_certs :: bool
  tp_signature_algorithm :: alg_id

definition signed_attrs_of :: "token_lib \<Rightarrow> token_parts \<Rightarrow> string + signed_attribute list" where
  "signed_attrs_of L parts =
     sbind (any_of L (tl_oid L OID_CT_TST_INFO)) (\<lambda>content_type.
     sbind (octet_string L (tp_tst_info_digest parts)) (\<lambda>message_digest.
     let ess = \<lparr>es_hash_algorithm = (if alg_oid (tp_digest_alg parts) = digest_oid Sha256 then None
                   else Some (tp_digest_alg parts)),
                es_cert_hash = tp_signing_cert_digest parts\<rparr> in
     sbind (any_of L (tl_signing_certificate L [ess])) (\<lambda>signing_certificate.
     tl_attr_set L
       [\<lparr>sa_oid = OID_CONTENT_TYPE, sa_values = [content_type]\<rparr>,
        \<lparr>sa_oid = OID_MESSAGE_DIGEST, sa_values = [message_digest]\<rparr>,
        \<lparr>sa_oid = OID_SIGNING_CERTIFICATE_V2, sa_values = [signing_certificate]\<rparr>])))"

definition signed_attrs_der :: "token_lib \<Rightarrow> token_parts \<Rightarrow> string + bytes" where
  "signed_attrs_der L parts = sbind (signed_attrs_of L parts) (to_der (tl_attrs L))"

definition signer_info_of :: "token_parts \<Rightarrow> signed_attribute list \<Rightarrow> bytes \<Rightarrow> signer_info" where
  "signer_info_of parts signed_attrs signature =
     \<lparr>si_version = 1, si_sid = (tp_issuer parts, tp_serial_number parts),
      si_digest_alg = tp_digest_alg parts, si_signed_attrs = Some signed_attrs,
      si_signature_algorithm = tp_signature_algorithm parts, si_signature = signature,
      si_unsigned_attrs = None\<rparr>"

definition embedded_certs :: "token_lib \<Rightarrow> token_parts \<Rightarrow> string + x509 list option" where
  "embedded_certs L parts =
     (if tp_include_certs parts \<and> tp_certs_der parts \<noteq> [] then
        sbind (traverse (from_der (d_cert (tl_deps L))) (tp_certs_der parts)) (\<lambda>certs.
        sbind (tl_cert_set L certs) (\<lambda>set. Inr (Some set)))
      else Inr None)"

definition assemble :: "token_lib \<Rightarrow> token_parts \<Rightarrow> bytes \<Rightarrow> bytes \<Rightarrow> string + bytes" where
  "assemble L parts attrs_der signature =
     sbind (from_der (tl_attrs L) attrs_der) (\<lambda>signed_attrs.
     sbind (embedded_certs L parts) (\<lambda>certificates.
     sbind (octet_string L (tp_tst_info_der parts)) (\<lambda>econtent.
     let signed_data = \<lparr>sd_version = 3, sd_digest_algorithms = [tp_digest_alg parts],
           sd_econtent_type = OID_CT_TST_INFO, sd_econtent = Some econtent,
           sd_certificates = certificates, sd_crls = None,
           sd_signer_infos = [signer_info_of parts signed_attrs signature]\<rparr> in
     sbind (any_of L (to_der (tl_signed_data L) signed_data)) (\<lambda>content.
     to_der (tl_content_info L) \<lparr>ct_type = OID_SIGNED_DATA, ct_content = content\<rparr>))))"

definition granted_response :: "token_lib \<Rightarrow> bytes \<Rightarrow> string + time_stamp_resp" where
  "granted_response L token_der =
     sbind (tl_int L [0]) (\<lambda>status.
     sbind (d_any (tl_deps L) token_der) (\<lambda>token.
     Inr \<lparr>tr_status = \<lparr>pk_status = status, pk_status_string = None, pk_fail_info = None\<rparr>,
          tr_time_stamp_token = Some token\<rparr>))"

text \<open>The signed data of a response, and \<open>tst_info_of_response\<close>. Encoding an \<open>Any\<close> gives its bytes.\<close>

definition signed_data_of_response :: "token_lib \<Rightarrow> bytes \<Rightarrow> string + signed_data" where
  "signed_data_of_response L resp_der =
     sbind (from_der (tl_response L) resp_der) (\<lambda>resp.
     sbind (ok_or ''Failed'' (tr_time_stamp_token resp)) (\<lambda>token.
     sbind (from_der (tl_content_info L) token) (\<lambda>content_info.
     from_der (tl_signed_data L) (ct_content content_info))))"

definition tst_info_of_response :: "token_lib \<Rightarrow> bytes \<Rightarrow> string + tst_info" where
  "tst_info_of_response L resp_der =
     sbind (signed_data_of_response L resp_der) (\<lambda>signed_data.
     sbind (ok_or ''Failed'' (sd_econtent signed_data)) (\<lambda>econtent.
     sbind (from_der (d_octets (tl_deps L)) econtent) (\<lambda>octets.
     from_der (tl_tst_info L) octets)))"

section \<open>A token is read back\<close>

text \<open>The documented behaviour of the crates: what an encoder wrote, its decoder reads.\<close>

definition token_lib_ok :: "token_lib \<Rightarrow> bool" where
  "token_lib_ok L \<longleftrightarrow> any_ok (tl_deps L) \<and> codec_ok (d_octets (tl_deps L)) \<and> codec_ok (tl_attrs L)
     \<and> codec_ok (tl_signed_data L) \<and> codec_ok (tl_content_info L) \<and> codec_ok (tl_tst_info L)
     \<and> codec_ok (tl_response L)"

lemma any_of_eq: "any_ok (tl_deps L) \<Longrightarrow> any_of L r = Inr b \<Longrightarrow> r = Inr b"
  by (auto simp: any_of_def wp any_ok_def)

lemma octet_string_back:
  "token_lib_ok L \<Longrightarrow> octet_string L bs = Inr b \<Longrightarrow> from_der (d_octets (tl_deps L)) b = Inr bs"
  unfolding octet_string_def token_lib_ok_def by (blast dest: any_of_eq codec_okD)

text \<open>The envelope that \<open>assemble\<close> writes around the signature, as it is read in the response.\<close>

lemma assembled:
  assumes "token_lib_ok L" and "assemble L parts attrs_der signature = Inr token_der"
    and "granted_response L token_der = Inr resp" and "to_der (tl_response L) resp = Inr resp_der"
  obtains attrs certs econtent where "from_der (tl_attrs L) attrs_der = Inr attrs"
    and "embedded_certs L parts = Inr certs"
    and "from_der (d_octets (tl_deps L)) econtent = Inr (tp_tst_info_der parts)"
    and "signed_data_of_response L resp_der = Inr \<lparr>sd_version = 3,
           sd_digest_algorithms = [tp_digest_alg parts], sd_econtent_type = OID_CT_TST_INFO,
           sd_econtent = Some econtent, sd_certificates = certs, sd_crls = None,
           sd_signer_infos = [signer_info_of parts attrs signature]\<rparr>"
proof -
  note L = assms(1) [unfolded token_lib_ok_def]
  from assms(2) obtain attrs certs econtent content where
    parts: "from_der (tl_attrs L) attrs_der = Inr attrs" "embedded_certs L parts = Inr certs"
      "octet_string L (tp_tst_info_der parts) = Inr econtent"
    and content: "any_of L (to_der (tl_signed_data L) \<lparr>sd_version = 3,
           sd_digest_algorithms = [tp_digest_alg parts], sd_econtent_type = OID_CT_TST_INFO,
           sd_econtent = Some econtent, sd_certificates = certs, sd_crls = None,
           sd_signer_infos = [signer_info_of parts attrs signature]\<rparr>) = Inr content"
    and token: "to_der (tl_content_info L) \<lparr>ct_type = OID_SIGNED_DATA, ct_content = content\<rparr> = Inr token_der"
    by (auto simp: assemble_def Let_def wp)
  from assms(3) L have "tr_time_stamp_token resp = Some token_der"
    by (auto simp: granted_response_def wp any_ok_def)
  moreover have "from_der (tl_response L) resp_der = Inr resp"
    using L assms(4) by (auto intro: codec_okD)
  moreover have "from_der (tl_content_info L) token_der = Inr \<lparr>ct_type = OID_SIGNED_DATA, ct_content = content\<rparr>"
    using L token by (auto intro: codec_okD)
  moreover note codec_okD [OF _ any_of_eq [OF _ content]]
  ultimately show ?thesis
    using L parts octet_string_back [OF assms(1) parts(3)]
    by (intro that [OF parts(1,2)]) (simp_all add: signed_data_of_response_def wp ok_or_def)
qed

lemma tst_info_back:
  assumes "token_lib_ok L" and "assemble L parts attrs_der signature = Inr token_der"
    and "granted_response L token_der = Inr resp" and "to_der (tl_response L) resp = Inr resp_der"
    and "to_der (tl_tst_info L) info = Inr (tp_tst_info_der parts)"
  shows "tst_info_of_response L resp_der = Inr info"
proof -
  have decoded: "from_der (tl_tst_info L) (tp_tst_info_der parts) = Inr info"
    using assms(1,5) by (auto simp: token_lib_ok_def intro: codec_okD)
  show ?thesis
    by (rule assembled [OF assms(1-4)]) (simp add: tst_info_of_response_def wp ok_or_def decoded)
qed

end
