(* ===== verification/Tsa.thy ===== *)
theory Tsa
  imports Tst_Token Time_Source Hsm Conformance
begin

text \<open>
  The timestamping authority: \<open>crates/oe-tsa-core/src/lib.rs\<close>. Its clock and its journal are traits
  in the code; here they are two computations in the options. Hash functions, DER and the calendar
  are those of third-party crates, in the record \<open>tsa_lib\<close>.
\<close>

section \<open>Refusals, options, state\<close>

datatype failure_info = BadAlg | BadRequest | BadDataFormat | TimeNotAvailable | UnacceptedPolicy
  | UnacceptedExtension | SystemFailure

fun failure_text :: "failure_info \<Rightarrow> string" where
  "failure_text BadAlg = ''BadAlg''"
| "failure_text BadRequest = ''BadRequest''"
| "failure_text BadDataFormat = ''BadDataFormat''"
| "failure_text TimeNotAvailable = ''TimeNotAvailable''"
| "failure_text UnacceptedPolicy = ''UnacceptedPolicy''"
| "failure_text UnacceptedExtension = ''UnacceptedExtension''"
| "failure_text SystemFailure = ''SystemFailure''"

datatype refusal = UnreadableRequest string | HashRefused | ImprintLength | PolicyNotServed oid
  | CriticalExtension oid | TimeUnavailable string | KeyExpiredSince instant

datatype tsa_error = Rejection failure_info refusal | TsaDer string | TsaToken string
  | TsaSigning hsm_error | TsaOther string

datatype new_authority_error = SignerKeyUnreadable hsm_error | SignerMismatch | TsuExpired instant
  | TsuNotYetValid instant | TsuRefused conf_error

record material =
  ma_signer :: token
  ma_certificate :: x509
  ma_chain :: "x509 list"
  ma_key_not_after :: instant

text \<open>The world of the service: the time source with its journal and its system clock, the material
  in use, and what the tokens were asked to sign.\<close>

record tsa_world = time_world +
  ts_material :: material
  ts_asked :: "(token \<times> scheme \<times> digest_alg \<times> bytes) list"

type_synonym ('e, 'a) tsa = "(tsa_world, 'e, 'a) res"

text \<open>The fields of a date, as the crate \<open>time\<close> gives them.\<close>

record calendar =
  ca_year :: int
  ca_month :: nat
  ca_day :: nat
  ca_hour :: nat
  ca_minute :: nat
  ca_second :: nat
  ca_nanosecond :: nat

record tsa_lib =
  tb_token :: token_lib
  tb_sha256 :: "bytes \<Rightarrow> bytes"
  tb_sha384 :: "bytes \<Rightarrow> bytes"
  tb_sha512 :: "bytes \<Rightarrow> bytes"
  tb_calendar :: "instant \<Rightarrow> calendar"
  tb_refusal :: "refusal \<Rightarrow> string"

record tsa_options =
  to_policy :: oid
  to_accuracy :: duration
  to_signing_digest :: digest_alg
  to_signature_scheme :: scheme
  to_clock :: "(string, instant) tsa"
  to_recorder :: "(string \<Rightarrow> json \<Rightarrow> (string, unit) tsa) option"

abbreviation tb_deps :: "tsa_lib \<Rightarrow> deps" where "tb_deps L \<equiv> tl_deps (tb_token L)"

section \<open>The material that signs\<close>

definition validated_material ::
    "deps \<Rightarrow> token \<Rightarrow> x509 \<Rightarrow> x509 list \<Rightarrow> (new_authority_error, material) tsa" where
  "validated_material D signer certificate chain =
     bindr (lift (or_else_err SignerKeyUnreadable (tk_public_key signer))) (\<lambda>signer_spki.
     bindr (ensure (x_spki certificate = signer_spki) SignerMismatch) (\<lambda>_.
     bindr clock_now (\<lambda>now.
     let not_before = secs_to_instant (x_not_before certificate);
         not_after = secs_to_instant (x_not_after certificate) in
     bindr (ensure (\<not> now > not_after) (TsuExpired not_after)) (\<lambda>_.
     bindr (ensure (\<not> now < not_before) (TsuNotYetValid not_before)) (\<lambda>_.
     bindr (lift (or_else_err TsuRefused (check_tsu_certificate D ''certificat TSU'' certificate))) (\<lambda>_.
     bindr (lift (or_else_err TsuRefused (tsu_private_key_not_after D ''certificat TSU'' certificate)))
       (\<lambda>key_not_after.
     ok \<lparr>ma_signer = signer, ma_certificate = certificate, ma_chain = chain,
         ma_key_not_after = key_not_after\<rparr>)))))))"

text \<open>\<open>Authority::new\<close> puts the material in service; \<open>reload\<close> replaces it.\<close>

definition authority_new :: "deps \<Rightarrow> token \<Rightarrow> x509 \<Rightarrow> x509 list \<Rightarrow> (new_authority_error, unit) tsa" where
  "authority_new D signer certificate chain =
     bindr (validated_material D signer certificate chain) (\<lambda>material.
     modify (\<lambda>w. w\<lparr>ts_material := material\<rparr>))"

definition reload :: "deps \<Rightarrow> token \<Rightarrow> x509 \<Rightarrow> x509 list \<Rightarrow> (new_authority_error, unit) tsa" where
  "reload D signer certificate chain =
     bindr (validated_material D signer certificate chain) (\<lambda>material.
     modify (\<lambda>w. w\<lparr>ts_material := material\<rparr>))"

definition accepted_hashes :: "digest_alg list" where "accepted_hashes = [Sha256, Sha384, Sha512]"

section \<open>Integers and bits written by hand\<close>

text \<open>Twenty random bytes as the content of a positive INTEGER.\<close>

definition minimal_positive_integer :: "bytes \<Rightarrow> bytes" where
  "minimal_positive_integer bs =
     (let significant = (case dropWhile (\<lambda>b. b = 0) bs of [] \<Rightarrow> [1] | ds \<Rightarrow> ds) in
      (if hd significant AND 0x80 \<noteq> 0 then [0] else []) @ significant)"

definition minimal_positive_int :: "token_lib \<Rightarrow> nat \<Rightarrow> string + bytes" where
  "minimal_positive_int L v =
     (let bs = significant (be8 (of_nat v)) in
      tl_int L (if hd bs AND 0x80 \<noteq> 0 then 0 # bs else bs))"

definition random_serial_number :: "('e, bytes) tsa" where
  "random_serial_number = bindr (draw_bytes 20) (\<lambda>bs. ok (minimal_positive_integer bs))"

text \<open>The casts are those of the code: a number of seconds to 64 bits, the others to 16 bits.\<close>

definition build_accuracy :: "token_lib \<Rightarrow> duration \<Rightarrow> string + accuracy option" where
  "build_accuracy L d =
     (if d = 0 then Inr None
      else
        let total_micros = nat (d div 1000) in
        if total_micros = 0 then Inr (Some \<lparr>ac_seconds = None, ac_millis = None, ac_micros = Some 1\<rparr>)
        else
          let secs = total_micros div 1000000;
              rem_micros = total_micros mod 1000000;
              millis = rem_micros div 1000;
              micros = rem_micros mod 1000 in
          sbind (if secs > 0 then sbind (minimal_positive_int L secs) (\<lambda>i. Inr (Some i)) else Inr None) (\<lambda>s.
          Inr (Some \<lparr>ac_seconds = s,
             ac_millis = (if millis > 0 then Some (of_nat millis) else None),
             ac_micros = (if micros > 0 then Some (of_nat micros) else None)\<rparr>)))"

fun failure_info_bit :: "failure_info \<Rightarrow> nat" where
  "failure_info_bit BadAlg = 0"
| "failure_info_bit BadRequest = 2"
| "failure_info_bit BadDataFormat = 5"
| "failure_info_bit TimeNotAvailable = 14"
| "failure_info_bit UnacceptedPolicy = 15"
| "failure_info_bit UnacceptedExtension = 16"
| "failure_info_bit SystemFailure = 25"

definition failure_bits :: "failure_info \<Rightarrow> nat \<times> bytes" where
  "failure_bits failure =
     (let bit = failure_info_bit failure;
          bytes = (replicate (bit div 8 + 1) 0)[bit div 8 := drop_bit (bit mod 8) 0x80]
      in (7 - bit mod 8, bytes))"

definition tsa_error_response :: "token_lib \<Rightarrow> failure_info \<Rightarrow> string + bytes" where
  "tsa_error_response L failure =
     sbind (tl_int L [2]) (\<lambda>status.
     to_der (tl_response L)
       \<lparr>tr_status = \<lparr>pk_status = status, pk_status_string = None, pk_fail_info = Some (failure_bits failure)\<rparr>,
        tr_time_stamp_token = None\<rparr>)"

section \<open>One timestamp\<close>

fun admitted_hash_len :: "oid \<Rightarrow> nat option" where
  "admitted_hash_len s =
     (if s = digest_oid Sha256 then Some 32
      else if s = digest_oid Sha384 then Some 48
      else if s = digest_oid Sha512 then Some 64
      else None)"

fun tsa_hash :: "tsa_lib \<Rightarrow> digest_alg \<Rightarrow> bytes \<Rightarrow> bytes" where
  "tsa_hash L Sha256 data = tb_sha256 L data"
| "tsa_hash L Sha384 data = tb_sha384 L data"
| "tsa_hash L Sha512 data = tb_sha512 L data"

definition digest_algorithm_identifier :: "digest_alg \<Rightarrow> alg_id" where
  "digest_algorithm_identifier alg = \<lparr>alg_oid = digest_oid alg, alg_params = None\<rparr>"

definition GEN_TIME_FRACTION_DIGITS :: "8 word" where "GEN_TIME_FRACTION_DIGITS = 3"

definition parts_of :: "calendar \<Rightarrow> parts" where
  "parts_of c = \<lparr>pt_year = of_int (ca_year c), pt_month = of_nat (ca_month c), pt_day = of_nat (ca_day c),
     pt_hour = of_nat (ca_hour c), pt_minute = of_nat (ca_minute c), pt_second = of_nat (ca_second c),
     pt_nanosecond = of_nat (ca_nanosecond c)\<rparr>"

definition build_tst_info ::
    "tsa_lib \<Rightarrow> tsa_options \<Rightarrow> time_stamp_req \<Rightarrow> instant \<Rightarrow> (tsa_error, tst_info) tsa" where
  "build_tst_info L A req gen_time =
     bindr random_serial_number (\<lambda>serial.
     bindr (lift (or_else_err TsaDer (tl_int (tb_token L) serial))) (\<lambda>serial_number.
     bindr (lift (ok_or (TsaDer ''Value'')
       (encode (parts_of (tb_calendar L gen_time)) GEN_TIME_FRACTION_DIGITS))) (\<lambda>encoded.
     bindr (lift (or_else_err TsaDer (build_accuracy (tb_token L) (to_accuracy A)))) (\<lambda>accuracy.
     ok \<lparr>ti_version = 1, ti_policy = to_policy A, ti_message_imprint = tq_message_imprint req,
         ti_serial_number = serial_number, ti_gen_time = encoded, ti_accuracy = accuracy,
         ti_ordering = False, ti_nonce = tq_nonce req, ti_tsa = None, ti_extensions = None\<rparr>))))"

definition tsa_record :: "tsa_options \<Rightarrow> string \<Rightarrow> json \<Rightarrow> (tsa_error, unit) tsa" where
  "tsa_record A event data = (case to_recorder A of
     Some write \<Rightarrow> map_err TsaOther (write event data)
   | None \<Rightarrow> ok ())"

text \<open>The controls of a request, in their order.\<close>

definition admit :: "tsa_lib \<Rightarrow> tsa_options \<Rightarrow> bytes \<Rightarrow> tsa_error + time_stamp_req" where
  "admit L A req_der =
     sbind (or_else_err (\<lambda>e. Rejection BadDataFormat (UnreadableRequest e))
       (from_der (tl_request (tb_token L)) req_der)) (\<lambda>req.
     let imprint = tq_message_imprint req in
     sbind (ok_or (Rejection BadAlg HashRefused)
       (admitted_hash_len (alg_oid (mi_hash_algorithm imprint)))) (\<lambda>expected_len.
     sbind (require (length (mi_hashed_message imprint) = expected_len)
       (Rejection BadDataFormat ImprintLength)) (\<lambda>_.
     sbind (case tq_req_policy req of
         Some p \<Rightarrow> require (p = to_policy A) (Rejection UnacceptedPolicy (PolicyNotServed p))
       | None \<Rightarrow> Inr ()) (\<lambda>_.
     sbind (case tq_extensions req of
         Some exts \<Rightarrow> (case find ext_critical exts of
             Some e \<Rightarrow> Inl (Rejection UnacceptedExtension (CriticalExtension (ext_id e)))
           | None \<Rightarrow> Inr ())
       | None \<Rightarrow> Inr ()) (\<lambda>_.
     Inr req)))))"

definition signature_algorithm_of :: "tsa_lib \<Rightarrow> tsa_options \<Rightarrow> tsa_error + alg_id" where
  "signature_algorithm_of L A = (case to_signature_scheme A of
     Pkcs1v15 \<Rightarrow> or_else_err TsaToken (rsa_encryption_algorithm_identifier (tb_token L))
   | sch \<Rightarrow> or_else_err TsaSigning (signature_algorithm (tb_deps L) sch (to_signing_digest A)))"

text \<open>What the token is made of, but for its signature.\<close>

definition token_parts_of ::
    "tsa_lib \<Rightarrow> tsa_options \<Rightarrow> material \<Rightarrow> time_stamp_req \<Rightarrow> tst_info \<Rightarrow> tsa_error + token_parts" where
  "token_parts_of L A material req info =
     sbind (or_else_err TsaDer (to_der (tl_tst_info (tb_token L)) info)) (\<lambda>tst_info_der.
     sbind (or_else_err TsaDer (to_der (d_cert (tb_deps L)) (ma_certificate material))) (\<lambda>cert_der.
     sbind (or_else_err TsaDer (traverse (to_der (d_cert (tb_deps L))) (ma_chain material))) (\<lambda>chain_der.
     sbind (signature_algorithm_of L A) (\<lambda>signature_algorithm.
     Inr \<lparr>tp_tst_info_der = tst_info_der,
          tp_tst_info_digest = tsa_hash L (to_signing_digest A) tst_info_der,
          tp_signing_cert_digest = tsa_hash L (to_signing_digest A) cert_der,
          tp_digest_alg = digest_algorithm_identifier (to_signing_digest A),
          tp_issuer = x_issuer (ma_certificate material),
          tp_serial_number = x_serial (ma_certificate material),
          tp_certs_der = cert_der # chain_der, tp_include_certs = tq_cert_req req,
          tp_signature_algorithm = signature_algorithm\<rparr>))))"

definition granted_event ::
    "tsa_lib \<Rightarrow> tsa_options \<Rightarrow> time_stamp_req \<Rightarrow> instant \<Rightarrow> tst_info \<Rightarrow> token_parts \<Rightarrow> json" where
  "granted_event L A req gen_time info parts = JObj
     [(''serial_number'', JStr (hex_encode (ti_serial_number info))),
      (''gen_time'', JStr (d_rfc3339 (tb_deps L) gen_time)),
      (''policy'', JStr (to_policy A)),
      (''nonce'', JBool (tq_nonce req \<noteq> None)),
      (''message_imprint_alg'', JStr (alg_oid (mi_hash_algorithm (tq_message_imprint req)))),
      (''message_imprint'', JStr (hex_encode (mi_hashed_message (tq_message_imprint req)))),
      (''tsu_certificate_fingerprint'', JStr (hex_encode (tp_signing_cert_digest parts)))]"

text \<open>A call of the token, which is recorded.\<close>

definition token_sign_digest :: "token \<Rightarrow> scheme \<Rightarrow> digest_alg \<Rightarrow> bytes \<Rightarrow> (hsm_error, bytes) tsa" where
  "token_sign_digest signer sch alg digest = (\<lambda>w.
     (tk_sign signer sch alg digest, w\<lparr>ts_asked := ts_asked w @ [(signer, sch, alg, digest)]\<rparr>))"

definition timestamp_inner :: "tsa_lib \<Rightarrow> tsa_options \<Rightarrow> bytes \<Rightarrow> (tsa_error, bytes) tsa" where
  "timestamp_inner L A req_der =
     bindr (gets ts_material) (\<lambda>material.
     bindr (lift (admit L A req_der)) (\<lambda>req.
     bindr (map_err (\<lambda>e. Rejection TimeNotAvailable (TimeUnavailable e)) (to_clock A)) (\<lambda>gen_time.
     bindr (ensure (\<not> gen_time \<ge> ma_key_not_after material)
       (Rejection SystemFailure (KeyExpiredSince (ma_key_not_after material)))) (\<lambda>_.
     bindr (build_tst_info L A req gen_time) (\<lambda>info.
     bindr (lift (token_parts_of L A material req info)) (\<lambda>parts.
     bindr (lift (or_else_err TsaToken (signed_attrs_der (tb_token L) parts))) (\<lambda>signed_attrs.
     let digest_to_sign = tsa_hash L (to_signing_digest A) signed_attrs in
     bindr (tsa_record A ''timestamp.granted'' (granted_event L A req gen_time info parts)) (\<lambda>_.
     bindr (map_err TsaSigning (token_sign_digest (ma_signer material) (to_signature_scheme A)
       (to_signing_digest A) digest_to_sign)) (\<lambda>signature.
     bindr (lift (or_else_err TsaToken (assemble (tb_token L) parts signed_attrs signature))) (\<lambda>token_der.
     bindr (lift (or_else_err TsaToken (granted_response (tb_token L) token_der))) (\<lambda>resp.
     lift (or_else_err TsaDer (to_der (tl_response (tb_token L)) resp)))))))))))))"

definition rejected_event :: "tsa_lib \<Rightarrow> failure_info \<Rightarrow> refusal \<Rightarrow> json" where
  "rejected_event L failure reason = JObj
     [(''failure'', JStr (failure_text failure)), (''reason'', JStr (tb_refusal L reason))]"

definition timestamp :: "tsa_lib \<Rightarrow> tsa_options \<Rightarrow> bytes \<Rightarrow> (tsa_error, bytes) tsa" where
  "timestamp L A req_der =
     bindr (attempt (timestamp_inner L A req_der)) (\<lambda>r.
     case r of
       Inr resp \<Rightarrow> ok resp
     | Inl (Rejection failure reason) \<Rightarrow>
         bindr (tsa_record A ''timestamp.rejected'' (rejected_event L failure reason)) (\<lambda>_.
         fail (Rejection failure reason))
     | Inl e \<Rightarrow> fail e)"

end
