(* ===== verification/Tsa_Spec.thy ===== *)
theory Tsa_Spec
  imports Tsa
begin

text \<open>
  What the timestamping authority does with any clock and any journal that behave as its traits
  promise (the locale \<open>instruments\<close>), and the integers and bits it writes by hand.
\<close>

section \<open>Integers and bits\<close>

text \<open>The content of a positive INTEGER: no byte too many, and not read as a negative number.\<close>

definition positive_content :: "bytes \<Rightarrow> bool" where
  "positive_content c \<longleftrightarrow> c \<noteq> [] \<and> hd c AND 0x80 = 0
     \<and> (hd c = 0 \<longrightarrow> (case tl c of [] \<Rightarrow> True | d # ds \<Rightarrow> d AND 0x80 \<noteq> 0))"

lemma dropWhile_zeros: "dropWhile (\<lambda>b. b = 0) bs = d # ds \<Longrightarrow> d \<noteq> (0 :: byte)"
  by (induction bs) (auto split: if_splits)

lemma content_of_digits:
  assumes "ds \<noteq> []" and "hd ds \<noteq> 0 \<or> tl ds = []"
  shows "positive_content ((if hd ds AND 0x80 \<noteq> 0 then [0] else []) @ ds)"
  using assms by (cases ds) (auto simp: positive_content_def split: list.splits)

lemma value_of_digits: "of_be_bytes ((if b then [0] else []) @ ds) = of_be_bytes ds"
  by (simp add: of_be_Cons)

lemma no_digits: "dropWhile (\<lambda>b. b = 0) bs = [] \<Longrightarrow> of_be_bytes bs = 0"
  by (metis of_be_Nil of_be_strip)

lemma some_digits:
  assumes "dropWhile (\<lambda>b. b = 0) bs = d # ds"
  shows "0 < of_be_bytes bs"
proof -
  have "256 ^ length ds \<le> of_be_bytes (d # ds)"
    using of_be_bound [of "d # ds"] dropWhile_zeros [OF assms] by simp
  moreover have "of_be_bytes (d # ds) = of_be_bytes bs" using of_be_strip [of bs] assms by simp
  ultimately show ?thesis by (metis less_le_trans zero_less_numeral zero_less_power)
qed

text \<open>The serial number of a token. Whatever the bytes drawn, the content of the INTEGER is
  minimal and positive, and its value is the number drawn; only the number zero is replaced, by one.\<close>

theorem serial_number_is_positive:
  "positive_content (minimal_positive_integer bs)
    \<and> of_be_bytes (minimal_positive_integer bs) = max 1 (of_be_bytes bs)"
proof (cases "dropWhile (\<lambda>b. b = 0) bs")
  case Nil
  then have "minimal_positive_integer bs = [1]" by (simp only: minimal_positive_integer_def) simp
  with no_digits [OF Nil] show ?thesis by (simp add: positive_content_def of_be_Cons)
next
  case (Cons d ds)
  then have m: "minimal_positive_integer bs = (if d AND 0x80 \<noteq> 0 then [0] else []) @ d # ds"
    by (simp add: minimal_positive_integer_def)
  have "positive_content (minimal_positive_integer bs)"
    using content_of_digits [of "d # ds"] dropWhile_zeros [OF Cons] by (simp add: m)
  moreover have "of_be_bytes (minimal_positive_integer bs) = of_be_bytes bs"
    unfolding m value_of_digits using of_be_strip [of bs] by (simp only: Cons)
  ultimately show ?thesis using some_digits [OF Cons] by simp
qed

lemma significant_digits: "bs \<noteq> [] \<Longrightarrow> significant bs \<noteq> [] \<and> (hd (significant bs) \<noteq> 0 \<or> tl (significant bs) = [])
     \<and> of_be_bytes (significant bs) = of_be_bytes bs"
proof (cases "dropWhile (\<lambda>b. b = 0) bs")
  case Nil
  assume "bs \<noteq> []"
  then have "last bs = 0" using Nil [unfolded dropWhile_eq_Nil_conv] last_in_set by blast
  moreover have "significant bs = [last bs]" using Nil by (simp only: significant_def) simp
  ultimately show ?thesis using no_digits [OF Nil] by (simp only: list.sel of_be_Cons) simp
next
  case (Cons d ds)
  then show ?thesis
    using dropWhile_zeros [OF Cons] of_be_strip [of bs] by (simp add: significant_def)
qed

definition positive_int :: "nat \<Rightarrow> bytes" where
  "positive_int v = (let bs = significant (be8 (of_nat v)) in if hd bs AND 0x80 \<noteq> 0 then 0 # bs else bs)"

lemma positive_int:
  assumes "v < 2 ^ 64"
  shows "positive_content (positive_int v)" and "of_be_bytes (positive_int v) = v"
proof -
  have "be8 (of_nat v) \<noteq> []" by (simp add: be8_def)
  note digits = significant_digits [OF this]
  have p: "positive_int v = (if hd (significant (be8 (of_nat v))) AND 0x80 \<noteq> 0 then [0] else [])
      @ significant (be8 (of_nat v))"
    by (simp add: positive_int_def Let_def)
  show "positive_content (positive_int v)"
    unfolding p using digits content_of_digits by blast
  show "of_be_bytes (positive_int v) = v"
    unfolding p value_of_digits using digits assms
    by (simp add: be8_bytes of_be_be unat_of_nat)
qed

text \<open>The microseconds that an accuracy announces; its seconds are the content of an INTEGER.\<close>

definition announced :: "accuracy \<Rightarrow> nat" where
  "announced a = (case ac_seconds a of None \<Rightarrow> 0 | Some s \<Rightarrow> of_be_bytes s) * 1000000
     + (case ac_millis a of None \<Rightarrow> 0 | Some m \<Rightarrow> unat m) * 1000
     + (case ac_micros a of None \<Rightarrow> 0 | Some m \<Rightarrow> unat m)"

definition in_range :: "16 word option \<Rightarrow> bool" where
  "in_range f \<longleftrightarrow> (case f of None \<Rightarrow> True | Some m \<Rightarrow> 1 \<le> unat m \<and> unat m \<le> 999)"

text \<open>\<open>Int::new\<close> keeps such a content as it is.\<close>

definition int_ok :: "token_lib \<Rightarrow> bool" where
  "int_ok L \<longleftrightarrow> (\<forall>c. positive_content c \<longrightarrow> tl_int L c = Inr c)"

text \<open>C24. The accuracy announced in a token. For every positive duration, up to the largest number of
  seconds of a \<open>u64\<close>, the accuracy is written, it is the duration truncated to the microsecond, or one microsecond
  when it is shorter, and its fields are in the ranges of the RFC: milliseconds and microseconds from 1
  to 999 when present, and a minimal positive number of seconds.\<close>

theorem accuracy_is_exact:
  assumes "0 < d" and "nat d < 2 ^ 64 * 1000000000" and "int_ok L"
  shows "\<exists>a. build_accuracy L d = Inr (Some a) \<and> announced a = max 1 (nat d div 1000)
    \<and> in_range (ac_millis a) \<and> in_range (ac_micros a)
    \<and> (case ac_seconds a of None \<Rightarrow> True | Some s \<Rightarrow> positive_content s)"
proof -
  define us where "us = nat d div 1000"
  have us: "nat (d div 1000) = us" using assms(1) by (simp add: us_def nat_div_distrib)
  define s m u where "s = us div 1000000" and "m = us mod 1000000 div 1000" and "u = us mod 1000000 mod 1000"
  note smu = s_def [symmetric] m_def [symmetric] u_def [symmetric]
  have small: "m < 1000" "u < 1000" by (simp_all add: m_def u_def)
  have sum: "s * 1000000 + m * 1000 + u = us"
    unfolding s_def m_def u_def by (metis div_mult_mod_eq add.assoc)
  have "s < 2 ^ 64" using assms(2) by (simp add: s_def us_def div_mult2_eq [symmetric] div_less_iff_less_mult)
  note secs = positive_int [OF this]
  have int: "minimal_positive_int L s = Inr (positive_int s)"
    using assms(3) secs(1) by (simp add: minimal_positive_int_def positive_int_def Let_def int_ok_def)
  show ?thesis
  proof (cases "us = 0")
    case True
    with assms(1) us show ?thesis
      by (simp add: build_accuracy_def announced_def in_range_def us_def [symmetric])
  next
    case False
    let ?a = "\<lparr>ac_seconds = (if s > 0 then Some (positive_int s) else None),
        ac_millis = (if m > 0 then Some (of_nat m) else None),
        ac_micros = (if u > 0 then Some (of_nat u) else None)\<rparr>"
    have cast: "unat (of_nat n :: 16 word) = n" if "n < 1000" for n
      using that by (simp add: unat_of_nat)
    have "build_accuracy L d = Inr (Some ?a)"
      using assms(1) False by (simp add: build_accuracy_def Let_def us smu int sbind_def)
    moreover have "announced ?a = us"
      using sum secs(2) by (simp add: announced_def cast small)
    moreover have "in_range (ac_millis ?a)" "in_range (ac_micros ?a)"
      by (simp_all add: in_range_def cast small Suc_le_eq less_Suc_eq_le [symmetric])
    ultimately show ?thesis using False secs(1) by (auto simp: us_def)
  qed
qed

text \<open>The bit \<open>i\<close> of a bit string, from its first.\<close>

definition bit_of :: "nat \<times> bytes \<Rightarrow> nat \<Rightarrow> bool" where
  "bit_of s i \<longleftrightarrow> i < 8 * length (snd s) - fst s \<and> bit (snd s ! (i div 8)) (7 - i mod 8)"

lemma failure_bits_table:
  "failure_bits BadAlg = (7, [0x80])" "failure_bits BadRequest = (5, [0x20])"
  "failure_bits BadDataFormat = (2, [0x04])" "failure_bits TimeNotAvailable = (1, [0, 0x02])"
  "failure_bits UnacceptedPolicy = (0, [0, 0x01])" "failure_bits UnacceptedExtension = (7, [0, 0, 0x80])"
  "failure_bits SystemFailure = (6, [0, 0, 0, 0x40])"
  by (simp_all add: failure_bits_def Let_def) (code_simp+)

text \<open>The reason of a refusal. The bit string of the answer has exactly one bit set, the one of the
  reason of the refusal, and it is the last: no zero after it, as DER requires of named bits.\<close>

theorem failure_bit_is_told:
  "(bit_of (failure_bits f) i \<longleftrightarrow> i = failure_info_bit f)
    \<and> 8 * length (snd (failure_bits f)) - fst (failure_bits f) = failure_info_bit f + 1"
proof -
  have "list_all (\<lambda>i. bit_of (failure_bits f) i = (i = failure_info_bit f)) [0..<32]"
    by (cases f; hypsubst; code_simp)
  moreover have "\<not> bit_of (failure_bits f) i \<and> failure_info_bit f < 32" if "32 \<le> i"
    using that by (cases f) (simp_all add: failure_bits_table bit_of_def)
  ultimately have "bit_of (failure_bits f) i \<longleftrightarrow> i = failure_info_bit f"
    by (cases "i < 32") (auto simp: list_all_iff)
  moreover have "8 * length (snd (failure_bits f)) - fst (failure_bits f) = failure_info_bit f + 1"
    by (cases f) (simp_all add: failure_bits_table)
  ultimately show ?thesis by blast
qed

section \<open>The clock and the journal, as the traits promise them\<close>

text \<open>What a token says, of the request it answers, of the material that signed it and of the instant
  the clock gave.\<close>

definition stamps :: "tsa_lib \<Rightarrow> tsa_options \<Rightarrow> time_stamp_req \<Rightarrow> instant \<Rightarrow> tst_info \<Rightarrow> bool" where
  "stamps L A req t info \<longleftrightarrow> ti_policy info = to_policy A \<and> ti_message_imprint info = tq_message_imprint req
     \<and> ti_nonce info = tq_nonce req
     \<and> encode (parts_of (tb_calendar L t)) GEN_TIME_FRACTION_DIGITS = Some (ti_gen_time info)
     \<and> build_accuracy (tb_token L) (to_accuracy A) = Inr (ti_accuracy info)"

text \<open>A response that grants: its token, read back, says what it stamps, and its only signature is
  that of the material's key on the attributes that name the token's content and the certificate.\<close>

definition grants :: "tsa_lib \<Rightarrow> tsa_options \<Rightarrow> material \<Rightarrow> time_stamp_req \<Rightarrow> instant \<Rightarrow> tst_info \<Rightarrow> token_parts
    \<Rightarrow> bytes \<Rightarrow> bool" where
  "grants L A m req t info parts resp_der \<longleftrightarrow> stamps L A req t info \<and> t < ma_key_not_after m
     \<and> token_parts_of L A m req info = Inr parts \<and> tst_info_of_response (tb_token L) resp_der = Inr info
     \<and> (\<exists>sd attrs attrs_der signature. signed_data_of_response (tb_token L) resp_der = Inr sd
         \<and> signed_attrs_of (tb_token L) parts = Inr attrs \<and> to_der (tl_attrs (tb_token L)) attrs = Inr attrs_der
         \<and> tk_sign (ma_signer m) (to_signature_scheme A) (to_signing_digest A)
             (tsa_hash L (to_signing_digest A) attrs_der) = Inr signature
         \<and> sd_signer_infos sd = [signer_info_of parts attrs signature])"

text \<open>A call of a token is accounted for when it signs the attributes of a token whose entry is in the
  journal, with the key of the certificate that the entry and the attributes name, before the end of
  that key.\<close>

definition accounted ::
    "tsa_lib \<Rightarrow> tsa_options \<Rightarrow> (string \<Rightarrow> json \<Rightarrow> bool) \<Rightarrow> token \<times> scheme \<times> digest_alg \<times> bytes \<Rightarrow> bool" where
  "accounted L A logged call \<longleftrightarrow> (\<exists>m req t info parts attrs.
     call = (ma_signer m, to_signature_scheme A, to_signing_digest A, tsa_hash L (to_signing_digest A) attrs)
     \<and> stamps L A req t info \<and> t < ma_key_not_after m
     \<and> token_parts_of L A m req info = Inr parts \<and> signed_attrs_der (tb_token L) parts = Inr attrs
     \<and> logged ''timestamp.granted'' (granted_event L A req t info parts))"

lemma signed_accounted_more: "accounted L A p call \<Longrightarrow> (\<And>e d. p e d \<Longrightarrow> q e d) \<Longrightarrow> accounted L A q call"
  unfolding accounted_def by blast

text \<open>What holds of the world after each operation: the instruments are ready, and every call of a
  token so far is accounted for.\<close>

definition sound ::
    "(tsa_world \<Rightarrow> bool) \<Rightarrow> (string \<Rightarrow> json \<Rightarrow> tsa_world \<Rightarrow> bool) \<Rightarrow> tsa_lib \<Rightarrow> tsa_options \<Rightarrow> tsa_world \<Rightarrow> bool" where
  "sound ready logged L A w \<longleftrightarrow> ready w \<and> (\<forall>call \<in> set (ts_asked w). accounted L A (\<lambda>e d. logged e d w) call)"

lemma runs_draw_bytes [run]:
  "runs (draw_bytes n) Q E w \<longleftrightarrow>
     Q (map (tw_rand w) [tw_draws w ..< tw_draws w + n]) (w\<lparr>tw_draws := tw_draws w + n\<rparr>)"
  by (simp add: runs_def draw_bytes_def)

lemma runs_token_sign_digest [run]:
  "runs (token_sign_digest signer sch alg d) Q E w \<longleftrightarrow>
     (let w' = w\<lparr>ts_asked := ts_asked w @ [(signer, sch, alg, d)]\<rparr> in
      (\<forall>s. tk_sign signer sch alg d = Inr s \<longrightarrow> Q s w') \<and> (\<forall>e. tk_sign signer sch alg d = Inl e \<longrightarrow> E e w'))"
  by (auto simp: runs_def token_sign_digest_def Let_def split: sum.splits)

definition refuses :: "tsa_error \<Rightarrow> bool" where
  "refuses e \<longleftrightarrow> (\<exists>f r. e = Rejection f r)"

lemma refuses_simps [simp]:
  "refuses (Rejection f r)" "\<not> refuses (TsaDer x)" "\<not> refuses (TsaToken x)" "\<not> refuses (TsaSigning h)"
  "\<not> refuses (TsaOther x)"
  by (auto simp: refuses_def)

lemma runs_build_tst_info:
  "runs (build_tst_info L A req t) (\<lambda>info v. stamps L A req t info \<and> v = w\<lparr>tw_draws := tw_draws w + 20\<rparr>)
     (\<lambda>e v. \<not> refuses e \<and> v = w\<lparr>tw_draws := tw_draws w + 20\<rparr>) w"
  by (auto simp: build_tst_info_def random_serial_number_def run stamps_def wp)

lemma token_parts_of_err: "token_parts_of L A m req info = Inl e \<Longrightarrow> \<not> refuses e"
  by (auto simp: token_parts_of_def signature_algorithm_of_def wp split: scheme.splits)

lemma granted_is_read:
  assumes "token_lib_ok (tb_token L)" and "stamps L A req t info" and "t < ma_key_not_after m"
    and "token_parts_of L A m req info = Inr parts" and "signed_attrs_der (tb_token L) parts = Inr attrs_der"
    and "tk_sign (ma_signer m) (to_signature_scheme A) (to_signing_digest A)
          (tsa_hash L (to_signing_digest A) attrs_der) = Inr signature"
    and "assemble (tb_token L) parts attrs_der signature = Inr token_der"
    and "granted_response (tb_token L) token_der = Inr resp"
    and "to_der (tl_response (tb_token L)) resp = Inr resp_der"
  shows "grants L A m req t info parts resp_der"
proof -
  have info: "to_der (tl_tst_info (tb_token L)) info = Inr (tp_tst_info_der parts)"
    using assms(4) by (auto simp: token_parts_of_def wp)
  obtain attrs where attrs: "signed_attrs_of (tb_token L) parts = Inr attrs"
      "to_der (tl_attrs (tb_token L)) attrs = Inr attrs_der"
    using assms(5) by (auto simp: signed_attrs_der_def wp)
  then have "from_der (tl_attrs (tb_token L)) attrs_der = Inr attrs"
    using assms(1) by (auto simp: token_lib_ok_def intro: codec_okD)
  with attrs show ?thesis
    unfolding grants_def using assms(2-4,6) tst_info_back [OF assms(1,7-9) info]
    by (auto intro: assembled [OF assms(1,7-9)])
qed

locale instruments =
  fixes ready :: "tsa_world \<Rightarrow> bool"
    and clock :: "(string, instant) tsa"
    and enter :: "string \<Rightarrow> json \<Rightarrow> (string, unit) tsa"
    and timely :: "tsa_world \<Rightarrow> instant \<Rightarrow> bool"
    and logged :: "string \<Rightarrow> json \<Rightarrow> tsa_world \<Rightarrow> bool"
  assumes clock_timely: "ready w \<Longrightarrow> clock w = (Inr t, v) \<Longrightarrow> timely w t"
    and enter_logs: "enter event data w = (Inr (), v) \<Longrightarrow> logged event data v"
    and asked_frame: "ts_asked (snd (clock w)) = ts_asked w" "ts_asked (snd (enter event data w)) = ts_asked w"
    and material_frame: "ts_material (snd (clock w)) = ts_material w"
      "ts_material (snd (enter event data w)) = ts_material w"
    and ready_frame: "ready w \<Longrightarrow> ready (snd (clock w))" "ready w \<Longrightarrow> ready (snd (enter event data w))"
    and logged_frame: "logged e d w \<Longrightarrow> logged e d (snd (clock w))"
      "logged e d w \<Longrightarrow> logged e d (snd (enter event data w))"
    and same_journal: "tw_status v = tw_status w \<Longrightarrow> tw_journal v = tw_journal w \<Longrightarrow> ready w \<Longrightarrow> ready v"
      "tw_status v = tw_status w \<Longrightarrow> tw_journal v = tw_journal w \<Longrightarrow> logged e d w \<Longrightarrow> logged e d v"
begin

lemma sound_more:
  assumes "sound ready logged L A w" and "ready w \<Longrightarrow> ready v" and "ts_asked v = ts_asked w"
    and "\<And>e d. logged e d w \<Longrightarrow> logged e d v"
  shows "sound ready logged L A v"
  using assms unfolding sound_def by (auto intro: signed_accounted_more)

lemma sound_local:
  "sound ready logged L A w \<Longrightarrow> tw_status v = tw_status w \<Longrightarrow> tw_journal v = tw_journal w
     \<Longrightarrow> ts_asked v = ts_asked w \<Longrightarrow> sound ready logged L A v"
  by (erule sound_more) (auto intro: same_journal)

lemma keeps_sound_instruments:
  "keeps (sound ready logged L A) clock" "keeps (sound ready logged L A) (enter event data)"
  by (auto intro!: keepsI elim!: sound_more simp: asked_frame intro: ready_frame logged_frame)

lemma keeps_sound_record: "to_recorder A = Some enter \<Longrightarrow> keeps (sound ready logged L A) (tsa_record A event data)"
  unfolding tsa_record_def by (auto intro!: pres keeps_sound_instruments)

lemma keeps_sound_others:
  "keeps (sound ready logged L A) (draw_bytes n)" "keeps (sound ready logged L A) clock_now"
  by (auto simp: keeps_def draw_bytes_def clock_now_def intro: sound_local)

lemma keeps_sound_material: "keeps (sound ready logged L A) (modify (\<lambda>w. w\<lparr>ts_material := m\<rparr>))"
  by (auto intro!: keeps_modify intro: sound_local)

lemma keeps_sound_reload:
  "keeps (sound ready logged L A) (reload D signer cert chain)" "keeps (sound ready logged L A) (authority_new D signer cert chain)"
  unfolding reload_def authority_new_def validated_material_def Let_def
  by (intro pres keeps_sound_others keeps_sound_material)+

lemma runs_clock:
  "sound ready logged L A w \<Longrightarrow> runs clock
     (\<lambda>t v. sound ready logged L A v \<and> timely w t \<and> ts_asked v = ts_asked w)
     (\<lambda>e v. sound ready logged L A v \<and> ts_asked v = ts_asked w) w"
  using runs_keeps [OF keeps_sound_instruments(1), of L A w] asked_frame(1) [of w] clock_timely [of w]
  by (auto simp: runs_def sound_def split: prod.splits sum.splits)

lemma runs_record:
  "to_recorder A = Some enter \<Longrightarrow> sound ready logged L A w \<Longrightarrow> runs (tsa_record A event data)
     (\<lambda>_ v. sound ready logged L A v \<and> logged event data v \<and> ts_asked v = ts_asked w)
     (\<lambda>e v. sound ready logged L A v \<and> ts_asked v = ts_asked w \<and> \<not> refuses e) w"
  using runs_keeps [OF keeps_sound_instruments(2), of L A w event data] asked_frame(2) [of event data w]
    enter_logs [of event data w]
  by (auto simp: tsa_record_def run) (auto simp: runs_def split: prod.splits sum.splits)

lemma sound_ask:
  assumes "sound ready logged L A w" and "accounted L A (\<lambda>e d. logged e d w) call"
  shows "sound ready logged L A (w\<lparr>ts_asked := ts_asked w @ [call]\<rparr>)"
proof -
  let ?v = "w\<lparr>ts_asked := ts_asked w @ [call]\<rparr>"
  have "logged e d w \<Longrightarrow> logged e d ?v" for e d by (rule same_journal(2) [of _ w]) simp_all
  with assms have "\<forall>c \<in> set (ts_asked ?v). accounted L A (\<lambda>e d. logged e d ?v) c"
    unfolding sound_def by (auto intro: signed_accounted_more)
  moreover have "ready ?v"
    using assms(1) same_journal(1) [of ?v w] by (simp add: sound_def)
  ultimately show ?thesis by (simp add: sound_def)
qed

lemma admit_refuses: "admit L A req_der = Inl e \<Longrightarrow> refuses e"
  by (auto simp: admit_def Let_def wp split: option.splits)

text \<open>From the entry of the journal to the signature and the answer.\<close>

lemma runs_signed:
  assumes "to_recorder A = Some enter" and "token_lib_ok (tb_token L)" and "sound ready logged L A w"
    and "stamps L A req t info" and "t < ma_key_not_after m"
    and "token_parts_of L A m req info = Inr parts" and "signed_attrs_der (tb_token L) parts = Inr attrs"
  shows "runs (bindr (tsa_record A ''timestamp.granted'' (granted_event L A req t info parts)) (\<lambda>_.
       bindr (map_err TsaSigning (token_sign_digest (ma_signer m) (to_signature_scheme A)
         (to_signing_digest A) (tsa_hash L (to_signing_digest A) attrs))) (\<lambda>signature.
       bindr (lift (or_else_err TsaToken (assemble (tb_token L) parts attrs signature))) (\<lambda>token_der.
       bindr (lift (or_else_err TsaToken (granted_response (tb_token L) token_der))) (\<lambda>resp.
       lift (or_else_err TsaDer (to_der (tl_response (tb_token L)) resp)))))))
     (\<lambda>resp v. sound ready logged L A v \<and> grants L A m req t info parts resp
        \<and> logged ''timestamp.granted'' (granted_event L A req t info parts) v)
     (\<lambda>e v. sound ready logged L A v \<and> \<not> refuses e) w"
proof -
  let ?event = "granted_event L A req t info parts"
  let ?call = "(ma_signer m, to_signature_scheme A, to_signing_digest A, tsa_hash L (to_signing_digest A) attrs)"
  have call: "sound ready logged L A (v\<lparr>ts_asked := a @ [?call]\<rparr>)
      \<and> logged ''timestamp.granted'' ?event (v\<lparr>ts_asked := a @ [?call]\<rparr>)"
    if "sound ready logged L A v" and "logged ''timestamp.granted'' ?event v" and a: "ts_asked v = a" for v a
  proof
    have "accounted L A (\<lambda>e d. logged e d v) ?call"
      unfolding accounted_def using that(2) assms(4-7) by blast
    with that(1) show "sound ready logged L A (v\<lparr>ts_asked := a @ [?call]\<rparr>)"
      unfolding a [symmetric] by (rule sound_ask)
    show "logged ''timestamp.granted'' ?event (v\<lparr>ts_asked := a @ [?call]\<rparr>)"
      by (rule same_journal(2) [OF _ _ that(2)]) simp_all
  qed
  show ?thesis
    unfolding runs_bindr
    by (rule runs_mono [OF runs_record [OF assms(1,3)]])
      (auto simp: run Let_def wp call intro: granted_is_read [OF assms(2,4-7)])
qed

lemma runs_timestamp_inner:
  assumes "to_clock A = clock" and "to_recorder A = Some enter" and "token_lib_ok (tb_token L)"
    and "sound ready logged L A w"
  shows "runs (timestamp_inner L A req_der)
     (\<lambda>resp v. sound ready logged L A v \<and> (\<exists>req t info parts. admit L A req_der = Inr req \<and> timely w t
        \<and> grants L A (ts_material w) req t info parts resp
        \<and> logged ''timestamp.granted'' (granted_event L A req t info parts) v))
     (\<lambda>e v. sound ready logged L A v \<and> (refuses e \<longrightarrow> ts_asked v = ts_asked w)) w"
proof -
  have drawn: "sound ready logged L A (v\<lparr>tw_draws := n\<rparr>)" if "sound ready logged L A v" for v n
    using that by (rule sound_local) simp_all
  define Q where "Q resp v \<longleftrightarrow> sound ready logged L A v \<and> (\<exists>req t info parts. admit L A req_der = Inr req
      \<and> timely w t \<and> grants L A (ts_material w) req t info parts resp
      \<and> logged ''timestamp.granted'' (granted_event L A req t info parts) v)" for resp v
  define E where "E e v \<longleftrightarrow> sound ready logged L A v \<and> (refuses e \<longrightarrow> ts_asked v = ts_asked w)" for e v
  have signed: "runs (bindr (lift (token_parts_of L A (ts_material w) req info)) (\<lambda>parts.
      bindr (lift (or_else_err TsaToken (signed_attrs_der (tb_token L) parts))) (\<lambda>attrs.
      bindr (tsa_record A ''timestamp.granted'' (granted_event L A req t info parts)) (\<lambda>_.
       bindr (map_err TsaSigning (token_sign_digest (ma_signer (ts_material w)) (to_signature_scheme A)
         (to_signing_digest A) (tsa_hash L (to_signing_digest A) attrs))) (\<lambda>signature.
       bindr (lift (or_else_err TsaToken (assemble (tb_token L) parts attrs signature))) (\<lambda>token_der.
       bindr (lift (or_else_err TsaToken (granted_response (tb_token L) token_der))) (\<lambda>resp.
       lift (or_else_err TsaDer (to_der (tl_response (tb_token L)) resp)))))))))
     Q E v"
    if "admit L A req_der = Inr req" "timely w t" "\<not> ma_key_not_after (ts_material w) \<le> t" "stamps L A req t info"
      "sound ready logged L A v" "ts_asked v = ts_asked w" for req t info v
    using that unfolding Q_def E_def
    by (subst runs_bindr, subst runs_lift, intro conjI allI impI)
      (subst runs_bindr, subst runs_lift, auto dest: token_parts_of_err simp: wp
        intro!: runs_mono [OF runs_signed [OF assms(2,3)]])
  show ?thesis
    unfolding Q_def [symmetric] E_def [symmetric]
    unfolding timestamp_inner_def Let_def runs_bindr [of "gets _"] runs_bindr [of "lift (admit _ _ _)"]
      runs_bindr [of "map_err _ _"] runs_bindr [of "ensure _ _"] runs_bindr [of "build_tst_info _ _ _ _"]
      runs_gets runs_lift [of "admit _ _ _"] runs_map_err [of _ clock] runs_ensure assms(1)
    using assms(4)
    by (auto simp: E_def dest: admit_refuses intro!: runs_mono [OF runs_clock [OF assms(4)]] signed drawn
      runs_mono [OF runs_build_tst_info])
qed

lemma runs_timestamp:
  assumes "to_clock A = clock" and "to_recorder A = Some enter" and "token_lib_ok (tb_token L)"
    and "sound ready logged L A w"
  shows "runs (timestamp L A req_der)
     (\<lambda>resp v. sound ready logged L A v \<and> (\<exists>req t info parts. admit L A req_der = Inr req \<and> timely w t
        \<and> grants L A (ts_material w) req t info parts resp
        \<and> logged ''timestamp.granted'' (granted_event L A req t info parts) v))
     (\<lambda>e v. sound ready logged L A v \<and> (\<forall>f r. e = Rejection f r \<longrightarrow> ts_asked v = ts_asked w
        \<and> logged ''timestamp.rejected'' (rejected_event L f r) v)) w"
proof -
  have refused: "runs (tsa_record A ''timestamp.rejected'' (rejected_event L f r))
      (\<lambda>_ v. sound ready logged L A v \<and> ts_asked v = a \<and> logged ''timestamp.rejected'' (rejected_event L f r) v)
      (\<lambda>e v. sound ready logged L A v \<and> (\<forall>f r. e = Rejection f r \<longrightarrow> ts_asked v = a
        \<and> logged ''timestamp.rejected'' (rejected_event L f r) v)) v"
    if "sound ready logged L A v" and "ts_asked v = a" for f r v a
    by (rule runs_mono [OF runs_record [OF assms(2) that(1)]]) (auto simp: that(2) refuses_def)
  show ?thesis
    unfolding timestamp_def runs_bindr runs_attempt
    by (rule runs_mono [OF runs_timestamp_inner [OF assms]])
      (auto simp: run refuses_def intro!: runs_mono [OF refused] split: tsa_error.split)
qed

lemma keeps_sound_timestamp:
  assumes "to_clock A = clock" and "to_recorder A = Some enter" and "token_lib_ok (tb_token L)"
  shows "keeps (sound ready logged L A) (timestamp L A req_der)"
  unfolding keeps_runs by (auto intro: runs_mono [OF runs_timestamp [OF assms]])

lemma keeps_material:
  assumes "to_clock A = clock" and "to_recorder A = Some enter"
  shows "keeps (\<lambda>w. P (ts_material w)) (timestamp L A req_der)"
proof -
  have "keeps (\<lambda>w. P (ts_material w)) clock" "keeps (\<lambda>w. P (ts_material w)) (tsa_record A event data)" for event data
    using assms(2) by (auto intro!: keepsI pres simp: material_frame tsa_record_def)
  moreover have "keeps (\<lambda>w. P (ts_material w)) (token_sign_digest k sch alg d)"
      "keeps (\<lambda>w. P (ts_material w)) (draw_bytes n)" for k sch alg d n
    by (simp_all add: keeps_def token_sign_digest_def draw_bytes_def)
  ultimately show ?thesis
    unfolding timestamp_def timestamp_inner_def build_tst_info_def random_serial_number_def Let_def assms(1)
    by (auto intro!: pres split: tsa_error.split)
qed

end

section \<open>The material in service\<close>

text \<open>What was controlled when the material was put in service.\<close>

definition in_order :: "deps \<Rightarrow> material \<Rightarrow> bool" where
  "in_order D m \<longleftrightarrow> tk_public_key (ma_signer m) = Inr (x_spki (ma_certificate m))
     \<and> check_tsu_certificate D ''certificat TSU'' (ma_certificate m) = Inr ()
     \<and> tsu_private_key_not_after D ''certificat TSU'' (ma_certificate m) = Inr (ma_key_not_after m)"

text \<open>\<open>reload\<close>: either the material is the candidate, controlled and within its validity at the instant of the
  control, or nothing changes but the reading of the clock.\<close>

lemma runs_reload:
  "runs (reload D signer cert chain)
     (\<lambda>_ v. in_order D (ts_material v) \<and> ma_signer (ts_material v) = signer
        \<and> ma_certificate (ts_material v) = cert \<and> ma_chain (ts_material v) = chain
        \<and> (let now = tw_clock w (tw_tick w) in seconds (x_not_before cert) \<le> now \<and> now \<le> seconds (x_not_after cert)))
     (\<lambda>_ v. ts_material v = ts_material w) w"
  by (auto simp: reload_def validated_material_def run Let_def in_order_def secs_to_instant_def wp)

lemma keeps_in_order_reload:
  "keeps (\<lambda>w. in_order D (ts_material w)) (reload D signer cert chain)"
  unfolding keeps_runs by (auto intro: runs_mono [OF runs_reload])

end
