(* ===== verification/Tsa_Keys.thy ===== *)
theory Tsa_Keys
  imports Hsm Time_Source Gen_Time
begin

text \<open>
  The generations of the key of the timestamping unit: \<open>bin/tsa-server/src/keys.rs\<close>, and the two
  commands of \<open>main.rs\<close> that create and destroy keys, \<open>enroll\<close> and \<open>retire-key\<close>. The module of
  PKCS#11 is that of \<open>Hsm\<close>; the certificate file and the request to the authority are arguments.
\<close>

section \<open>Generations (\<open>keys.rs\<close>)\<close>

definition MAX_GENERATIONS :: nat where "MAX_GENERATIONS = 64"

definition generation_label :: "string \<Rightarrow> nat \<Rightarrow> string" where
  "generation_label base generation =
     (if generation \<le> 1 then base else base @ ''.'' @ decimal generation)"

record generations =
  gn_matching :: "nat option"
  gn_newest :: "nat option"

primrec find_among ::
    "(string \<Rightarrow> ('s, 'e, bytes option) res) \<Rightarrow> string \<Rightarrow> bytes option \<Rightarrow> nat list \<Rightarrow> generations
       \<Rightarrow> ('s, 'e, generations) res" where
  "find_among spki_of base cert_spki [] found = ok found"
| "find_among spki_of base cert_spki (g # gs) found =
     bindr (spki_of (generation_label base g)) (\<lambda>answer.
     case answer of
       None \<Rightarrow> find_among spki_of base cert_spki gs found
     | Some spki \<Rightarrow>
         let found = found\<lparr>gn_newest := Some g\<rparr> in
         find_among spki_of base cert_spki gs
           (if cert_spki = Some spki then found\<lparr>gn_matching := Some g\<rparr> else found))"

definition find_generations ::
    "string \<Rightarrow> bytes option \<Rightarrow> (string \<Rightarrow> ('s, 'e, bytes option) res) \<Rightarrow> ('s, 'e, generations) res" where
  "find_generations base cert_spki spki_of =
     find_among spki_of base cert_spki [1..<MAX_GENERATIONS + 1] \<lparr>gn_matching = None, gn_newest = None\<rparr>"

lemma keeps_find_among:
  "(\<And>label. keeps P (spki_of label)) \<Longrightarrow> keeps P (find_among spki_of base spki gs found)"
  by (induction gs arbitrary: found) (auto intro!: pres simp: Let_def)

datatype key_plan = GenerateKey nat | UseKey nat

datatype keys_error = TooManyGenerations | NothingInService | KeyInService nat | KeyPending nat nat

definition plan :: "generations \<Rightarrow> keys_error + key_plan" where
  "plan found = (case (gn_matching found, gn_newest found) of
     (_, None) \<Rightarrow> Inr (GenerateKey 1)
   | (Some m, Some n) \<Rightarrow>
       if m = n then (if n \<ge> MAX_GENERATIONS then Inl TooManyGenerations else Inr (GenerateKey (n + 1)))
       else Inr (UseKey n)
   | (None, Some n) \<Rightarrow> Inr (UseKey n))"

definition check_retirable :: "generations \<Rightarrow> nat \<Rightarrow> keys_error + unit" where
  "check_retirable found generation =
     sbind (ok_or NothingInService (gn_matching found)) (\<lambda>current.
     sbind (require (generation \<noteq> current) (KeyInService generation)) (\<lambda>_.
     require (\<not> generation > current) (KeyPending generation current)))"

section \<open>The two commands\<close>

record keys_config =
  kc_module_path :: string
  kc_token_label :: string
  kc_pin :: string
  kc_key_label :: string
  kc_key_bits :: int

record keys_world = time_world +
  kw_hsm :: hsm_world

type_synonym ('e, 'a) keys = "(keys_world, 'e, 'a) res"

definition on_hsm :: "'a hsm \<Rightarrow> (hsm_error, 'a) keys" where
  "on_hsm m = (\<lambda>w. case m (kw_hsm w) of (r, h) \<Rightarrow> (r, w\<lparr>kw_hsm := h\<rparr>))"

definition use_token :: "hsm_lib \<Rightarrow> keys_config \<Rightarrow> string \<Rightarrow> unit hsm" where
  "use_token H cfg key_label =
     bindr (open_token H \<lparr>ho_module_path = kc_module_path cfg, ho_token_label = kc_token_label cfg,
       ho_key_label = key_label, ho_pin = kc_pin cfg\<rparr>) (\<lambda>t.
     modify (\<lambda>w. w\<lparr>hw_token := t\<rparr>))"

datatype command_error =
    KeyUnopened hsm_error
  | KeyUnread string hsm_error
  | KeyRefused keys_error
  | NoKeyUnder string
  | NotConfirmed string "nat option"
  | JournalUnopened string
  | JournalUnwritten string
  | GenerationFailed hsm_error
  | DestructionFailed hsm_error
  | EnrollmentFailed string

definition key_spki :: "hsm_lib \<Rightarrow> keys_config \<Rightarrow> string \<Rightarrow> (command_error, bytes option) keys" where
  "key_spki H cfg key_label =
     bindr (map_err KeyUnopened (on_hsm (use_token H cfg key_label))) (\<lambda>_.
     bindr (attempt (on_hsm (public_key_der H))) (\<lambda>r.
     case r of
       Inr spki \<Rightarrow> ok (Some spki)
     | Inl KeyNotFound \<Rightarrow> ok None
     | Inl e \<Rightarrow> fail (KeyUnread key_label e)))"

definition EVENT_TSU_KEY_GENERATED :: string where "EVENT_TSU_KEY_GENERATED = ''tsu.key_generated''"
definition EVENT_TSU_KEY_DESTROYED :: string where "EVENT_TSU_KEY_DESTROYED = ''tsu.key_destroyed''"

definition destroyed_event :: "string \<Rightarrow> nat \<Rightarrow> nat option \<Rightarrow> json" where
  "destroyed_event label generation current = JObj [(''key_label'', JStr label),
     (''generation'', JNum (int generation)), (''certificate_generation'', opt_json (\<lambda>n. JNum (int n)) current)]"

text \<open>\<open>cert\<close> is the first certificate of the file, when the file can be read; \<open>opened\<close> is what opening
  the journal gave.\<close>

definition run_retire_key ::
    "hsm_lib \<Rightarrow> keys_config \<Rightarrow> x509 option \<Rightarrow> string + unit \<Rightarrow> nat \<Rightarrow> string option \<Rightarrow> (command_error, nat) keys" where
  "run_retire_key H cfg cert opened generation confirm =
     bindr (find_generations (kc_key_label cfg) (map_option x_spki cert) (key_spki H cfg)) (\<lambda>found.
     bindr (lift (or_else_err KeyRefused (check_retirable found generation))) (\<lambda>_.
     let label = generation_label (kc_key_label cfg) generation in
     bindr (map_err KeyUnopened (on_hsm (use_token H cfg label))) (\<lambda>_.
     bindr (attempt (on_hsm (public_key_der H))) (\<lambda>spki.
     bindr (ensure (\<not> isl spki) (NoKeyUnder label)) (\<lambda>_.
     bindr (ensure (confirm = Some label) (NotConfirmed label (gn_matching found))) (\<lambda>_.
     bindr (lift (or_else_err JournalUnopened opened)) (\<lambda>_.
     bindr (map_err JournalUnwritten (recorder_append EVENT_TSU_KEY_DESTROYED
       (destroyed_event label generation (gn_matching found)))) (\<lambda>_.
     map_err DestructionFailed (on_hsm (destroy_key_pair H))))))))))"

datatype cause = NoCertificate | UnreadableKey | OtherKey | Expiring duration

text \<open>\<open>None\<close>: the certificate in the file can be used.\<close>

definition current_cert_usable :: "x509 option \<Rightarrow> duration \<Rightarrow> bytes option \<Rightarrow> ('e, cause option) keys" where
  "current_cert_usable cert renew_before signer_spki = (case cert of
     None \<Rightarrow> ok (Some NoCertificate)
   | Some c \<Rightarrow> (case signer_spki of
       None \<Rightarrow> ok (Some UnreadableKey)
     | Some spki \<Rightarrow>
         if x_spki c \<noteq> spki then ok (Some OtherKey)
         else bindr clock_now (\<lambda>now.
           let remaining = seconds (x_not_after c) - now in
           ok (if remaining < renew_before then Some (Expiring remaining) else None))))"

definition generated_event :: "string \<Rightarrow> nat \<Rightarrow> int \<Rightarrow> json" where
  "generated_event label generation bits = JObj [(''key_label'', JStr label),
     (''generation'', JNum (int generation)), (''key_bits'', JNum bits)]"

text \<open>The key that the request will be made with, generated when the plan says so.\<close>

definition key_for_request ::
    "hsm_lib \<Rightarrow> keys_config \<Rightarrow> string + unit \<Rightarrow> key_plan \<Rightarrow> (command_error, nat) keys" where
  "key_for_request H cfg opened p = (case p of
     UseKey generation \<Rightarrow> ok generation
   | GenerateKey generation \<Rightarrow>
       let label = generation_label (kc_key_label cfg) generation in
       bindr (lift (or_else_err JournalUnopened opened)) (\<lambda>_.
       bindr (map_err JournalUnwritten (recorder_append EVENT_TSU_KEY_GENERATED
         (generated_event label generation (kc_key_bits cfg)))) (\<lambda>_.
       bindr (map_err KeyUnopened (on_hsm (use_token H cfg label))) (\<lambda>_.
       bindr (map_err GenerationFailed (on_hsm (generate_rsa_key H (nat (max 0 (kc_key_bits cfg)))))) (\<lambda>_.
       ok generation)))))"

text \<open>\<open>None\<close>: the certificate in place is kept. The request to the authority (\<open>oe-enroll\<close>) is an
  argument; its answer is what is written to the files.\<close>

definition run_enroll ::
    "hsm_lib \<Rightarrow> keys_config \<Rightarrow> x509 option \<Rightarrow> duration \<Rightarrow> string + unit \<Rightarrow> (string, x509 \<times> x509 list) keys
       \<Rightarrow> (command_error, (x509 \<times> x509 list) option) keys" where
  "run_enroll H cfg cert renew_before opened request =
     bindr (find_generations (kc_key_label cfg) (map_option x_spki cert) (key_spki H cfg)) (\<lambda>found.
     bindr (case gn_matching found of
         None \<Rightarrow> ok True
       | Some generation \<Rightarrow>
           bindr (map_err KeyUnopened (on_hsm (use_token H cfg
             (generation_label (kc_key_label cfg) generation)))) (\<lambda>_.
           bindr (attempt (on_hsm (public_key_der H))) (\<lambda>r.
           bindr (current_cert_usable cert renew_before (case r of Inr spki \<Rightarrow> Some spki | Inl _ \<Rightarrow> None))
             (\<lambda>why. ok (why \<noteq> None))))) (\<lambda>needed.
     if \<not> needed then ok None
     else
       bindr (lift (or_else_err KeyRefused (plan found))) (\<lambda>p.
       bindr (key_for_request H cfg opened p) (\<lambda>generation.
       bindr (map_err KeyUnopened (on_hsm (use_token H cfg
         (generation_label (kc_key_label cfg) generation)))) (\<lambda>_.
       bindr (map_err EnrollmentFailed request) (\<lambda>answer.
       ok (Some answer)))))))"

end
