(* ===== verification/Tsa_Server.thy ===== *)
theory Tsa_Server
  imports Tsa_Spec Tsa_Keys Samples
begin

text \<open>
  The service around the timestamping authority: \<open>bin/tsa-server/src/main.rs\<close>. Its clock is the
  monitor of \<open>Time_Source\<close>, its journal the one of the service with the state of the clock added to
  each entry, and its certificate is replaced while it runs. The composition gives what holds of every
  token the service delivers.
\<close>

section \<open>The clock and the journal of the service\<close>

datatype reload_error = ReloadKeyUnopened hsm_error | ReloadKeyUnread string hsm_error | NoMatchingKey
  | ReloadRefused new_authority_error

text \<open>Texts of the errors, and durations as numbers of seconds.\<close>

record server_lib =
  sl_time :: time_deps
  sl_seconds :: "duration \<Rightarrow> json"
  sl_not_traceable :: "not_traceable \<Rightarrow> string"
  sl_reload_error :: "reload_error \<Rightarrow> string"

definition format_time :: "server_lib \<Rightarrow> instant \<Rightarrow> json" where
  "format_time S t = JStr (case td_rfc3339 (sl_time S) t of None \<Rightarrow> [] | Some s \<Rightarrow> s)"

definition describe_clock_status :: "server_lib \<Rightarrow> status \<Rightarrow> json" where
  "describe_clock_status S st = JObj
     [(''politique'', JStr (policy_text (st_policy st))),
      (''tracable'', JBool (st_traceable st)),
      (''raison'', JStr (td_reason (sl_time S) (st_reason st))),
      (''ecart_secondes'', sl_seconds S (st_offset st)),
      (''etendue_secondes'', sl_seconds S (st_spread st)),
      (''derniere_synchro'', opt_json (format_time S) (st_last_sync st)),
      (''seconde_intercalaire'', JNum (uint (st_leap st))),
      (''sources'', JArr (map (\<lambda>s. JObj
        [(''serveur'', JStr (sm_server s)),
         (''ecart_secondes'', sl_seconds S (sm_offset s)),
         (''aller_retour_secondes'', sl_seconds S (sm_rtt s)),
         (''stratum'', JNum (uint (sm_stratum s))),
         (''saut'', JNum (uint (sm_leap s))),
         (''a'', format_time S (sm_at s)),
         (''erreur'', opt_json (\<lambda>e. JStr (td_error (sl_time S) e)) (sm_err s))]) (st_sources st)))]"

text \<open>The data of a record of the journal is an object or absent, which the model writes \<open>JNull\<close>.\<close>

fun json_to_audit_data :: "json \<Rightarrow> json" where
  "json_to_audit_data (JObj fs) = JObj fs"
| "json_to_audit_data JNull = JNull"
| "json_to_audit_data other = JObj [(''value'', other)]"

definition audit_recorder_append :: "string \<Rightarrow> json \<Rightarrow> ('x, string, unit) timed" where
  "audit_recorder_append event data = recorder_append event (json_to_audit_data data)"

fun with_clock :: "server_lib \<Rightarrow> status \<Rightarrow> json \<Rightarrow> json" where
  "with_clock S st (JObj fs) = JObj (j_insert ''horloge'' (describe_clock_status S st) fs)"
| "with_clock S st data = data"

definition tsa_audit_append :: "server_lib \<Rightarrow> string \<Rightarrow> json \<Rightarrow> (string, unit) tsa" where
  "tsa_audit_append S event data =
     bindr (gets tw_status) (\<lambda>st. recorder_append event (json_to_audit_data (with_clock S st data)))"

definition monitor_clock :: "server_lib \<Rightarrow> options \<Rightarrow> (string, instant) tsa" where
  "monitor_clock S M = map_err (sl_not_traceable S) (monitor_now M)"

text \<open>The options that \<open>run_serve\<close> gives to the authority.\<close>

definition server_options ::
    "server_lib \<Rightarrow> options \<Rightarrow> oid \<Rightarrow> duration \<Rightarrow> digest_alg \<Rightarrow> scheme \<Rightarrow> tsa_options" where
  "server_options S M pol acc dig sch = \<lparr>to_policy = pol, to_accuracy = acc, to_signing_digest = dig,
     to_signature_scheme = sch, to_clock = monitor_clock S M, to_recorder = Some (tsa_audit_append S)\<rparr>"

section \<open>Replacing the certificate while the service runs\<close>

definition EVENT_TSU_RELOADED :: string where "EVENT_TSU_RELOADED = ''tsu.reloaded''"
definition EVENT_TSU_RELOAD_REFUSED :: string where "EVENT_TSU_RELOAD_REFUSED = ''tsu.reload_refused''"

text \<open>What one pass finds: the certificates of the two files, and the key under each label.\<close>

record reload_pass =
  rl_certs :: "string + x509 list"
  rl_chain :: "string + x509 list"
  rl_open :: "string \<Rightarrow> hsm_error + token"

definition token_spki :: "reload_pass \<Rightarrow> string \<Rightarrow> reload_error + bytes option" where
  "token_spki R label =
     sbind (or_else_err ReloadKeyUnopened (rl_open R label)) (\<lambda>token.
     case tk_public_key token of
       Inr spki \<Rightarrow> Inr (Some spki)
     | Inl KeyNotFound \<Rightarrow> Inr None
     | Inl e \<Rightarrow> Inl (ReloadKeyUnread label e))"

definition adopt :: "deps \<Rightarrow> string \<Rightarrow> reload_pass \<Rightarrow> x509 \<Rightarrow> x509 list \<Rightarrow> (reload_error, nat) tsa" where
  "adopt D key_label R candidate chain =
     bindr (find_generations key_label (Some (x_spki candidate)) (\<lambda>label. lift (token_spki R label))) (\<lambda>found.
     bindr (lift (ok_or NoMatchingKey (gn_matching found))) (\<lambda>generation.
     bindr (lift (or_else_err ReloadKeyUnopened (rl_open R (generation_label key_label generation)))) (\<lambda>signer.
     bindr (map_err ReloadRefused (reload D signer candidate chain)) (\<lambda>_.
     ok generation))))"

definition conclude_reload ::
    "server_lib \<Rightarrow> x509 \<Rightarrow> bytes \<Rightarrow> reload_error + nat \<Rightarrow> ('e, bytes option) tsa" where
  "conclude_reload S candidate candidate_der result =
     (let serial = (''serial'', JStr (hex_encode (x_serial candidate))) in
      case result of
        Inr generation \<Rightarrow>
          bindr (attempt (recorder_append EVENT_TSU_RELOADED
            (JObj [(''generation'', JNum (int generation)), serial]))) (\<lambda>_.
          ok None)
      | Inl e \<Rightarrow>
          bindr (attempt (recorder_append EVENT_TSU_RELOAD_REFUSED
            (JObj [(''reason'', JStr (sl_reload_error S e)), serial]))) (\<lambda>_.
          ok (Some candidate_der)))"

text \<open>The certificate refused by the pass, if any, so that it is reported once.\<close>

definition reload_once ::
    "server_lib \<Rightarrow> deps \<Rightarrow> string \<Rightarrow> reload_pass \<Rightarrow> bytes option \<Rightarrow> ('e, bytes option) tsa" where
  "reload_once S D key_label R last_refused =
     bindr (gets (\<lambda>w. ma_certificate (ts_material w))) (\<lambda>current.
     case rl_certs R of
       Inr (candidate # _) \<Rightarrow>
         (case (to_der (d_cert D) candidate, to_der (d_cert D) current) of
            (Inr candidate_der, Inr current_der) \<Rightarrow>
              if current_der = candidate_der then ok None
              else if last_refused = Some candidate_der then ok last_refused
              else
                bindr (attempt (adopt D key_label R candidate
                  (case rl_chain R of Inr chain \<Rightarrow> chain | Inl _ \<Rightarrow> []))) (\<lambda>result.
                conclude_reload S candidate candidate_der result)
          | _ \<Rightarrow> ok None)
     | _ \<Rightarrow> ok None)"

section \<open>The service is what the authority expects\<close>

definition in_journal :: "server_lib \<Rightarrow> string \<Rightarrow> json \<Rightarrow> tsa_world \<Rightarrow> bool" where
  "in_journal S event data w \<longleftrightarrow>
     (\<exists>st. (event, json_to_audit_data (with_clock S st data)) \<in> set (j_entries (tw_journal w)))"

definition backed_time :: "options \<Rightarrow> tsa_world \<Rightarrow> instant \<Rightarrow> bool" where
  "backed_time M w t \<longleftrightarrow> (mo_policy M = Enforce \<longrightarrow> agreed M (st_sources (tw_status w))
     \<and> t = tw_clock w (tw_tick w)
     \<and> \<not> leap_second_blocks (st_leap (tw_status w)) (st_last_sync (tw_status w)) t)"

lemma monitor_clock_asked:
  "ts_asked (snd (monitor_clock S M w)) = ts_asked w" "ts_material (snd (monitor_clock S M w)) = ts_material w"
  "tw_journal (snd (monitor_clock S M w)) = tw_journal w" "tw_status (snd (monitor_clock S M w)) = tw_status w"
  by (simp_all add: monitor_clock_def monitor_now_def run_defs clock_now_def)

lemma tsa_audit_frame:
  "ts_asked (snd (tsa_audit_append S event data w)) = ts_asked w"
  "ts_material (snd (tsa_audit_append S event data w)) = ts_material w"
  "tw_status (snd (tsa_audit_append S event data w)) = tw_status w"
  "set (j_entries (tw_journal w)) \<subseteq> set (j_entries (tw_journal (snd (tsa_audit_append S event data w))))"
  by (auto simp: tsa_audit_append_def recorder_append_def run_defs Let_def split: option.split)

lemma tsa_audit_appends:
  "tsa_audit_append S event data w = (Inr (), v) \<Longrightarrow> in_journal S event data v"
  by (auto simp: tsa_audit_append_def recorder_append_def run_defs Let_def in_journal_def split: option.splits)

lemma monitored_frame:
  fixes w v :: tsa_world
  shows "monitored T M w \<Longrightarrow> tw_status v = tw_status w \<Longrightarrow>
     set (j_entries (tw_journal w)) \<subseteq> set (j_entries (tw_journal v)) \<Longrightarrow> monitored T M v"
  by (rule monitored_later [of w]) (simp_all add: later_def)

lemma in_journal_frame:
  "in_journal S e d w \<Longrightarrow> set (j_entries (tw_journal w)) \<subseteq> set (j_entries (tw_journal v)) \<Longrightarrow> in_journal S e d v"
  by (auto simp: in_journal_def)

interpretation service: instruments "monitored (sl_time S) M" "monitor_clock S M" "tsa_audit_append S"
    "backed_time M" "in_journal S" for S M
proof unfold_locales
  fix w v :: tsa_world and t
  assume "monitored (sl_time S) M w" and "monitor_clock S M w = (Inr t, v)"
  moreover from this(2) have "monitor_now M w = (Inr t, v)" by (simp add: monitor_clock_def wp)
  ultimately show "backed_time M w t"
    unfolding backed_time_def using monitor_nowD [of M w t v] by (simp add: monitored_def backed_def)
qed (auto simp: monitor_clock_asked tsa_audit_frame tsa_audit_appends
  elim!: monitored_frame in_journal_frame intro: set_mp [OF tsa_audit_frame(4)])

section \<open>The life of the service\<close>

text \<open>A request, a pass over the certificate file, and a step of the monitor (a poll, a reading of the
  time, and writes of others to the journal).\<close>

inductive tsa_step ::
    "tsa_lib \<Rightarrow> server_lib \<Rightarrow> options \<Rightarrow> tsa_options \<Rightarrow> tsa_world \<Rightarrow> tsa_world \<Rightarrow> bool" for L S M A where
  tsa_stamp: "tsa_step L S M A w (snd (timestamp L A req_der w))"
| tsa_reload: "tsa_step L S M A w
    (snd (reload_once S (tb_deps L) key_label R refused w :: (unit + bytes option) \<times> tsa_world))"
| tsa_monitor: "mon_step (sl_time S) M w v \<Longrightarrow> tsa_step L S M A w v"

abbreviation tsa_steps ::
    "tsa_lib \<Rightarrow> server_lib \<Rightarrow> options \<Rightarrow> tsa_options \<Rightarrow> tsa_world \<Rightarrow> tsa_world \<Rightarrow> bool" where
  "tsa_steps L S M A \<equiv> (tsa_step L S M A)\<^sup>*\<^sup>*"

lemma keeps_reload_once:
  assumes "\<And>signer cert chain. keeps P (reload D signer cert chain)"
    and "\<And>event data. keeps P (recorder_append event data :: (string, unit) tsa)"
  shows "keeps P (reload_once S D key_label R refused)"
  unfolding reload_once_def adopt_def conclude_reload_def find_generations_def Let_def
  by (auto intro!: pres keeps_find_among assms split: sum.split list.split prod.split)

text \<open>What holds all along: the time is backed by the sources, every signature is accounted for, and the
  material was controlled.\<close>

definition service_ok :: "tsa_lib \<Rightarrow> server_lib \<Rightarrow> options \<Rightarrow> tsa_options \<Rightarrow> tsa_world \<Rightarrow> bool" where
  "service_ok L S M A w \<longleftrightarrow> sound (monitored (sl_time S) M) (in_journal S) L A w
     \<and> in_order (tb_deps L) (ts_material w)"

lemma sound_append:
  assumes "sound (monitored (sl_time S) M) (in_journal S) L A w"
  shows "sound (monitored (sl_time S) M) (in_journal S) L A (snd (recorder_append event data w))"
  using assms
  by (rule service.sound_more)
    (auto simp: recorder_append_def Let_def elim!: monitored_frame in_journal_frame split: option.split)

definition grown :: "tsa_world \<Rightarrow> tsa_world \<Rightarrow> bool" where
  "grown w v \<longleftrightarrow> ts_asked v = ts_asked w \<and> ts_material v = ts_material w
     \<and> set (j_entries (tw_journal w)) \<subseteq> set (j_entries (tw_journal v))"

lemma keeps_grown_calls:
  "keeps (grown w) clock_now" "keeps (grown w) (draw_bytes n)" "keeps (grown w) (network f)"
  "keeps (grown w) (set_session server s)" "keeps (grown w) (recorder_append event data)"
  "keeps (grown w) (modify (\<lambda>v. v\<lparr>tw_status := st\<rparr>))"
  by (auto simp: keeps_def grown_def clock_now_def draw_bytes_def network_def set_session_def modify_def
    recorder_append_def Let_def split: option.split)

lemma keeps_grown_query: "keeps (grown w) (query_source T M server)"
  unfolding query_source_def query_nts_def ntp_query_def Let_def
  by (auto intro!: pres keeps_grown_calls split: prod.split)

lemma keeps_grown_queries: "keeps (grown w) (query_all T M ss)"
  by (induction ss) (auto intro!: pres keeps_grown_query)

lemma keeps_grown_monitor:
  "keeps (grown w) (poll_once T M)" "keeps (grown w) (monitor_now M)" "keeps (grown w) leap_poll_due"
  unfolding poll_once_def monitor_now_def leap_poll_due_def record_measure_def record_leap_def
  by (auto intro!: pres keeps_grown_calls keeps_grown_queries)

lemma grown_snd: "keeps (grown w) m \<Longrightarrow> grown w (snd (m w))"
  by (simp add: keeps_def grown_def)

lemma mon_step_grown: "mon_step T M w v \<Longrightarrow> grown w v"
  by (cases rule: mon_step.cases)
    (auto intro!: grown_snd keeps_grown_monitor keeps_grown_calls)

lemma mon_step_ok:
  assumes "mon_step (sl_time S) M w v" and "service_ok L S M A w"
  shows "service_ok L S M A v"
proof -
  note grown = mon_step_grown [OF assms(1), unfolded grown_def]
  from assms(2) have "sound (monitored (sl_time S) M) (in_journal S) L A v"
    unfolding service_ok_def using grown
    by (auto elim!: service.sound_more in_journal_frame intro: mon_step_monitored [OF assms(1)])
  with assms(2) grown show ?thesis by (simp add: service_ok_def)
qed

lemma server_clock [simp]:
  "to_clock (server_options S M pol acc dig sch) = monitor_clock S M"
  "to_recorder (server_options S M pol acc dig sch) = Some (tsa_audit_append S)"
  by (simp_all add: server_options_def)

lemma tsa_step_ok:
  assumes "tsa_step L S M (server_options S M pol acc dig sch) w v" and "token_lib_ok (tb_token L)"
    and "service_ok L S M (server_options S M pol acc dig sch) w"
  shows "service_ok L S M (server_options S M pol acc dig sch) v"
  using assms(1)
proof cases
  case (tsa_stamp req_der)
  have "keeps (service_ok L S M (server_options S M pol acc dig sch))
      (timestamp L (server_options S M pol acc dig sch) req_der)"
    using service.keeps_sound_timestamp [OF _ _ assms(2), of "server_options S M pol acc dig sch" S M req_der]
      service.keeps_material [of "server_options S M pol acc dig sch" S M "in_order (tb_deps L)" L req_der]
    by (simp add: keeps_def service_ok_def)
  with tsa_stamp assms(3) show ?thesis by (simp add: keeps_def)
next
  case (tsa_reload key_label R refused)
  have "keeps (service_ok L S M (server_options S M pol acc dig sch)) (reload (tb_deps L) signer cert chain)"
      for signer cert chain
    using service.keeps_sound_reload(1) [of S M L "server_options S M pol acc dig sch"]
      keeps_in_order_reload [of "tb_deps L"] by (simp add: keeps_def service_ok_def)
  moreover have "keeps (service_ok L S M (server_options S M pol acc dig sch)) (recorder_append event data)"
      for event data
    using grown_snd [OF keeps_grown_calls(5)]
    by (auto simp: keeps_def service_ok_def grown_def intro: sound_append)
  ultimately have "keeps (service_ok L S M (server_options S M pol acc dig sch))
      (reload_once S (tb_deps L) key_label R refused :: (unit, bytes option) tsa)"
    by (rule keeps_reload_once)
  with tsa_reload assms(3) show ?thesis by (simp add: keeps_def)
next
  case tsa_monitor
  then show ?thesis using assms(3) by (rule mon_step_ok)
qed

lemma tsa_steps_ok:
  assumes "tsa_steps L S M (server_options S M pol acc dig sch) w v" and "token_lib_ok (tb_token L)"
    and "service_ok L S M (server_options S M pol acc dig sch) w"
  shows "service_ok L S M (server_options S M pol acc dig sch) v"
  using assms by (induction rule: rtranclp_induct) (auto dest: tsa_step_ok)

text \<open>A service that starts: its monitor has no measure yet, and no token was asked to sign.\<close>

definition started ::
    "tsa_lib \<Rightarrow> server_lib \<Rightarrow> options \<Rightarrow> options \<Rightarrow> token \<Rightarrow> x509 \<Rightarrow> x509 list \<Rightarrow> tsa_world \<Rightarrow> bool" where
  "started L S opts M signer cert chain w \<longleftrightarrow> (\<exists>w0. monitor_new (sl_time S) opts = Inr (M, tw_status w0)
     \<and> mo_policy opts = Enforce \<and> ts_asked w0 = [] \<and> authority_new (tb_deps L) signer cert chain w0 = (Inr (), w))"

lemma started_ok:
  assumes "started L S opts M signer cert chain w"
  shows "service_ok L S M A w" and "mo_policy M = Enforce" and "1 \<le> mo_min_sources M"
proof -
  obtain w0 where new: "monitor_new (sl_time S) opts = Inr (M, tw_status w0)" "mo_policy opts = Enforce"
      and w0: "ts_asked w0 = []" and auth: "authority_new (tb_deps L) signer cert chain w0 = (Inr (), w)"
    using assms unfolding started_def by blast
  from monitor_newD [OF new(1)] new(2) show M: "mo_policy M = Enforce" "1 \<le> mo_min_sources M" by auto
  have "monitored (sl_time S) M w0"
    using monitor_newD [OF new(1)] M by (simp add: monitored_def backed_def)
  with w0 have "sound (monitored (sl_time S) M) (in_journal S) L A w0" by (simp add: sound_def)
  with auth have "sound (monitored (sl_time S) M) (in_journal S) L A w"
    using keepsD [OF service.keeps_sound_reload(2)] by blast
  moreover have "in_order (tb_deps L) (ts_material w)"
    using auth by (auto simp: authority_new_def reload_def [symmetric] dest: runs_okD [OF runs_reload])
  ultimately show "service_ok L S M A w" by (simp add: service_ok_def)
qed




section \<open>A service that stamps\<close>

definition sample_tsu_certificate :: x509 where
  "sample_tsu_certificate = \<lparr>x_serial = [0x21], x_issuer = [(OID_CN, ''CA'')], x_subject = [(OID_CN, ''TSU'')],
     x_not_before = 0, x_not_after = 31537000, x_spki = [1, 2, 3],
     x_exts = Some [\<lparr>ext_id = OID_BASIC_CONSTRAINTS, ext_critical = True, ext_value = [0]\<rparr>,
       \<lparr>ext_id = OID_EXT_KEY_USAGE, ext_critical = True, ext_value = [0]\<rparr>,
       \<lparr>ext_id = OID_KEY_USAGE, ext_critical = True, ext_value = [0]\<rparr>,
       \<lparr>ext_id = OID_PRIVATE_KEY_USAGE_PERIOD, ext_critical = False, ext_value = [0]\<rparr>],
     x_sig_alg = sample_alg, x_signature = []\<rparr>"

definition sample_request :: time_stamp_req where
  "sample_request = \<lparr>tq_version = 1, tq_message_imprint = \<lparr>mi_hash_algorithm =
     \<lparr>alg_oid = digest_oid Sha256, alg_params = None\<rparr>, mi_hashed_message = replicate 32 5\<rparr>,
     tq_req_policy = Some ''1.2'', tq_nonce = Some [9], tq_cert_req = False, tq_extensions = None\<rparr>"

definition sample_calendar :: calendar where
  "sample_calendar = \<lparr>ca_year = 1971, ca_month = 1, ca_day = 1, ca_hour = 0, ca_minute = 0, ca_second = 0,
     ca_nanosecond = 0\<rparr>"

definition sample_info :: tst_info where
  "sample_info = \<lparr>ti_version = 1, ti_policy = ''1.2'', ti_message_imprint = tq_message_imprint sample_request,
     ti_serial_number = [1], ti_gen_time = the (encode (parts_of sample_calendar) GEN_TIME_FRACTION_DIGITS),
     ti_accuracy = None, ti_ordering = False, ti_nonce = Some [9], ti_tsa = None, ti_extensions = None\<rparr>"

definition sample_attrs :: "signed_attribute list" where
  "sample_attrs = [\<lparr>sa_oid = OID_CONTENT_TYPE, sa_values = [[1]]\<rparr>,
     \<lparr>sa_oid = OID_MESSAGE_DIGEST, sa_values = [[0]]\<rparr>,
     \<lparr>sa_oid = OID_SIGNING_CERTIFICATE_V2, sa_values = [[2]]\<rparr>]"

definition sample_signed_data :: signed_data where
  "sample_signed_data = \<lparr>sd_version = 3, sd_digest_algorithms = [digest_algorithm_identifier Sha256],
     sd_econtent_type = OID_CT_TST_INFO, sd_econtent = Some [0], sd_certificates = None, sd_crls = None,
     sd_signer_infos = [\<lparr>si_version = 1, si_sid = ([(OID_CN, ''CA'')], [0x21]),
       si_digest_alg = digest_algorithm_identifier Sha256, si_signed_attrs = Some sample_attrs,
       si_signature_algorithm = \<lparr>alg_oid = OID_RSA_ENCRYPTION, alg_params = Some der_null\<rparr>,
       si_signature = [7, 0], si_unsigned_attrs = None\<rparr>]\<rparr>"

definition sample_token_lib :: token_lib where
  "sample_token_lib = \<lparr>tl_deps = sample_deps, tl_oid = (\<lambda>_. Inr [1]), tl_int = Inr,
     tl_signing_certificate = (\<lambda>_. Inr [2]), tl_attr_set = Inr, tl_cert_set = Inr,
     tl_attrs = table_codec [sample_attrs], tl_signed_data = table_codec [sample_signed_data],
     tl_content_info = table_codec [\<lparr>ct_type = OID_SIGNED_DATA, ct_content = [0]\<rparr>],
     tl_tst_info = table_codec [sample_info], tl_request = table_codec [sample_request],
     tl_response = table_codec [\<lparr>tr_status = \<lparr>pk_status = [0], pk_status_string = None, pk_fail_info = None\<rparr>,
       tr_time_stamp_token = Some [0]\<rparr>]\<rparr>"

definition sample_tsa_lib :: tsa_lib where
  "sample_tsa_lib = \<lparr>tb_token = sample_token_lib, tb_sha256 = take 32, tb_sha384 = take 48, tb_sha512 = take 64,
     tb_calendar = (\<lambda>_. sample_calendar),
     tb_refusal = (\<lambda>_. ''refused'')\<rparr>"

definition sample_server :: server_lib where
  "sample_server = \<lparr>sl_time = sample_time_deps, sl_seconds = (\<lambda>d. JNum d), sl_not_traceable = (\<lambda>_. ''time''),
     sl_reload_error = (\<lambda>_. ''key'')\<rparr>"

definition sample_tsa_options :: tsa_options where
  "sample_tsa_options = server_options sample_server sample_options ''1.2'' 0 Sha256 Pkcs1v15"

text \<open>The clock of the service: a year passes after the first poll.\<close>

definition sample_service :: tsa_world where
  "sample_service = time_world.extend
     (sample_time\<lparr>tw_clock := (\<lambda>n. if n < 3 then seconds 1 else days 365)\<rparr>)
     (tsa_world.fields \<lparr>ma_signer = sample_token, ma_certificate = sample_tsu_certificate, ma_chain = [],
        ma_key_not_after = 0\<rparr> [])"

definition sample_started :: tsa_world where
  "sample_started = snd (authority_new sample_deps sample_token sample_tsu_certificate [] sample_service)"

definition sample_ready :: tsa_world where
  "sample_ready = snd (poll_once sample_time_deps sample_options sample_started :: (unit + unit) \<times> tsa_world)"

definition sample_stamped :: "(tsa_error + bytes) \<times> tsa_world" where
  "sample_stamped = timestamp sample_tsa_lib sample_tsa_options [0] sample_ready"

lemma sample_token_lib_ok: "token_lib_ok (tb_token sample_tsa_lib)"
  by (simp add: token_lib_ok_def sample_tsa_lib_def sample_token_lib_def sample_deps_def any_ok_def)
    (simp add: codec_ok_def)

lemma sample_service_started:
  "started sample_tsa_lib sample_server sample_options sample_options sample_token sample_tsu_certificate []
     sample_started"
proof -
  have "monitor_new (sl_time sample_server) sample_options = Inr (sample_options, tw_status sample_service)"
    by (simp add: monitor_new_def sample_options_def sample_server_def sample_service_def time_world.defs
      sample_time_def status_default_def)
  moreover have "fst (authority_new sample_deps sample_token sample_tsu_certificate [] sample_service) = Inr ()"
    by code_simp
  ultimately show ?thesis
    unfolding started_def sample_started_def
    by (intro exI [of _ sample_service])
      (simp add: sample_options_def sample_service_def time_world.defs tsa_world.defs sample_tsa_lib_def
        sample_token_lib_def prod_eq_iff)
qed

lemma only_value [simp]: "to_der (table_codec [x]) x = Inr [0]" "from_der (table_codec [x]) [0] = Inr x"
  by (simp_all add: table_codec_def)

lemma sample_encodes: "encode (parts_of sample_calendar) GEN_TIME_FRACTION_DIGITS = Some (ti_gen_time sample_info)"
proof -
  have "encode (parts_of sample_calendar) GEN_TIME_FRACTION_DIGITS \<noteq> None"
    unfolding encodable by (simp add: parts_of_def sample_calendar_def GEN_TIME_FRACTION_DIGITS_def)
  then show ?thesis by (auto simp: sample_info_def)
qed

lemma sample_admitted: "admit sample_tsa_lib sample_tsa_options [0] = Inr sample_request"
  by (simp add: admit_def sample_tsa_lib_def sample_token_lib_def sample_request_def wp require_def
    sample_tsa_options_def server_options_def sbind_def ok_or_def or_else_err_def)

lemma runs_sample_build:
  assumes "map (tw_rand w) [tw_draws w..<tw_draws w + 20] = replicate 20 0"
  shows "runs (build_tst_info sample_tsa_lib sample_tsa_options sample_request t) Q E w
     \<longleftrightarrow> Q sample_info (w\<lparr>tw_draws := tw_draws w + 20\<rparr>)"
proof -
  have "minimal_positive_integer (replicate 20 0) = [1]" by code_simp
  then show ?thesis
    using assms sample_encodes
    by (simp add: build_tst_info_def random_serial_number_def run sample_tsa_lib_def sample_token_lib_def
      build_accuracy_def sample_tsa_options_def server_options_def ok_or_def)
      (simp add: sample_info_def sample_request_def)
qed

definition sample_token_parts :: token_parts where
  "sample_token_parts = \<lparr>tp_tst_info_der = [0], tp_tst_info_digest = [0], tp_signing_cert_digest = [48, 0x21],
     tp_digest_alg = digest_algorithm_identifier Sha256, tp_issuer = [(OID_CN, ''CA'')],
     tp_serial_number = [0x21], tp_certs_der = [[48, 0x21]], tp_include_certs = False,
     tp_signature_algorithm = \<lparr>alg_oid = OID_RSA_ENCRYPTION, alg_params = Some der_null\<rparr>\<rparr>"

lemma sample_parts_of:
  assumes "ma_certificate m = sample_tsu_certificate" and "ma_chain m = []"
  shows "token_parts_of sample_tsa_lib sample_tsa_options m sample_request sample_info = Inr sample_token_parts"
  by (simp add: token_parts_of_def signature_algorithm_of_def rsa_encryption_algorithm_identifier_def assms
    sample_tsa_lib_def sample_token_lib_def sample_deps_def sample_tsa_options_def server_options_def
    sample_tsu_certificate_def sample_request_def sample_token_parts_def sbind_def or_else_err_def)

lemma sample_signed_attrs:
  "signed_attrs_der sample_token_lib sample_token_parts = Inr [0]"
  by (simp add: signed_attrs_der_def signed_attrs_of_def sample_token_lib_def sample_deps_def octet_string_def
    any_of_def sbind_def Let_def sample_token_parts_def) (simp add: sample_attrs_def [symmetric])

lemma sample_assembled:
  "assemble sample_token_lib sample_token_parts [0] [7, 0] = Inr [0]"
  "granted_response sample_token_lib [0] = Inr \<lparr>tr_status =
     \<lparr>pk_status = [0], pk_status_string = None, pk_fail_info = None\<rparr>, tr_time_stamp_token = Some [0]\<rparr>"
  by (simp_all add: assemble_def embedded_certs_def granted_response_def sample_token_lib_def sample_deps_def
    octet_string_def any_of_def sbind_def Let_def sample_token_parts_def signer_info_of_def)
    (simp add: sample_signed_data_def)

lemma sample_choices:
  "to_clock sample_tsa_options = monitor_clock sample_server sample_options"
  "to_recorder sample_tsa_options = Some (tsa_audit_append sample_server)"
  "to_signature_scheme sample_tsa_options = Pkcs1v15" "to_signing_digest sample_tsa_options = Sha256"
  "tb_token sample_tsa_lib = sample_token_lib" "tb_sha256 sample_tsa_lib = take 32"
  "tk_sign sample_token sch alg d = Inr (7 # d)" "\<not> seconds 31537000 \<le> days 365"
  "to_der (tl_response sample_token_lib) \<lparr>tr_status =
     \<lparr>pk_status = [0], pk_status_string = None, pk_fail_info = None\<rparr>, tr_time_stamp_token = Some [0]\<rparr> = Inr [0]"
  by (simp_all add: sample_tsa_options_def sample_tsa_lib_def sample_token_def duration_simps sample_token_lib_def server_options_def)

lemma sample_ready_material:
  "ma_certificate (ts_material sample_ready) = sample_tsu_certificate" "ma_chain (ts_material sample_ready) = []"
  "ma_signer (ts_material sample_ready) = sample_token"
  "ma_key_not_after (ts_material sample_ready) = seconds 31537000"
proof -
  have "grown sample_started sample_ready"
    unfolding sample_ready_def by (rule grown_snd [OF keeps_grown_monitor(1)])
  then have "ts_material sample_ready = ts_material sample_started" by (simp add: grown_def)
  moreover obtain w where "reload sample_deps sample_token sample_tsu_certificate [] w = (Inr (), sample_started)"
    using sample_service_started
    by (auto simp: started_def authority_new_def reload_def [symmetric] sample_tsa_lib_def sample_token_lib_def)
  note ok = runs_okD [OF runs_reload this]
  moreover have "tsu_private_key_not_after sample_deps ''certificat TSU'' sample_tsu_certificate
      = Inr (seconds 31537000)" by code_simp
  ultimately show
    "ma_certificate (ts_material sample_ready) = sample_tsu_certificate" "ma_chain (ts_material sample_ready) = []"
    "ma_signer (ts_material sample_ready) = sample_token"
    "ma_key_not_after (ts_material sample_ready) = seconds 31537000"
    by (auto simp: in_order_def)
qed

lemma sample_time_given:
  "runs (monitor_clock sample_server sample_options) Q E sample_ready
     \<longleftrightarrow> Q (days 365) (sample_ready\<lparr>tw_tick := tw_tick sample_ready + 1\<rparr>)"
proof -
  have "st_traceable (tw_status sample_ready)" "st_leap (tw_status sample_ready) = 0"
      "tw_clock sample_ready (tw_tick sample_ready) = days 365" by code_simp+
  then show ?thesis
    by (simp add: monitor_clock_def monitor_now_def run leap_second_blocks_def)
qed

lemma sample_journal: "j_outage (tw_journal sample_ready) (j_tries (tw_journal sample_ready)) = None"
  by code_simp

lemma sample_granted: "fst sample_stamped = Inr [0]" "ts_asked (snd sample_stamped) \<noteq> []"
proof -
  have draws: "map (tw_rand sample_ready) [tw_draws sample_ready..<tw_draws sample_ready + 20] = replicate 20 0"
    by code_simp
  have "runs (timestamp_inner sample_tsa_lib sample_tsa_options [0]) (\<lambda>r v. r = [0] \<and> ts_asked v \<noteq> [])
      (\<lambda>_ _. False) sample_ready"
    using sample_signed_attrs sample_assembled sample_journal
    by (simp add: timestamp_inner_def run Let_def sample_admitted sample_parts_of sample_ready_material
      runs_sample_build draws sample_time_given sample_choices tsa_record_def tsa_audit_append_def)
  then show "fst sample_stamped = Inr [0]" "ts_asked (snd sample_stamped) \<noteq> []"
    by (auto simp: sample_stamped_def timestamp_def runs_def run_defs split: prod.splits sum.splits)
qed

lemma sample_steps: "tsa_steps sample_tsa_lib sample_server sample_options sample_tsa_options sample_started sample_ready"
  unfolding sample_ready_def
  by (intro r_into_rtranclp tsa_monitor) (simp add: sample_server_def mon_poll)

lemma sample_steps_stamped:
  "tsa_steps sample_tsa_lib sample_server sample_options sample_tsa_options sample_started (snd sample_stamped)"
  using sample_steps unfolding sample_stamped_def by (rule rtranclp.rtrancl_into_rtrancl) (rule tsa_stamp)




theorem accuracy_is_exact_witness:
  "\<exists>a. build_accuracy sample_token_lib 1500000 = Inr (Some a) \<and> announced a = 1500"
  using accuracy_is_exact [of 1500000 sample_token_lib] by (auto simp: int_ok_def sample_token_lib_def)

end
