(* ===== verification/Tsa_Keys_Spec.thy ===== *)
theory Tsa_Keys_Spec
  imports Tsa_Keys
begin

text \<open>
  Which keys the commands of the timestamping service create and destroy.
\<close>

section \<open>The search of the generations\<close>

lemma generation_label_first [simp]: "generation_label base 0 = base" "generation_label base (Suc 0) = base"
  by (simp_all add: generation_label_def)

lemma generation_label_inj:
  assumes "1 \<le> m" and "1 \<le> n" and "generation_label base m = generation_label base n"
  shows "m = n"
proof (cases "m \<le> 1 \<or> n \<le> 1")
  case True
  with assms show ?thesis by (auto simp: generation_label_def split: if_splits)
next
  case False
  with assms(3) have "decimal m = decimal n" by (simp add: generation_label_def)
  then show ?thesis by (metis decimal_value)
qed

text \<open>An answer that the search got for a generation.\<close>

definition answered ::
    "(string \<Rightarrow> ('s, 'e, bytes option) res) \<Rightarrow> string \<Rightarrow> nat \<Rightarrow> bytes option \<Rightarrow> bool" where
  "answered spki_of base g answer \<longleftrightarrow> (\<exists>u v. spki_of (generation_label base g) u = (Inr answer, v))"

text \<open>What the search has found after the generations before \<open>n\<close>.\<close>

definition surveyed ::
    "(string \<Rightarrow> ('s, 'e, bytes option) res) \<Rightarrow> string \<Rightarrow> bytes option \<Rightarrow> nat \<Rightarrow> generations \<Rightarrow> bool" where
  "surveyed spki_of base cert n found \<longleftrightarrow>
     (case gn_newest found of
        None \<Rightarrow> gn_matching found = None \<and> (\<forall>g. 1 \<le> g \<and> g < n \<longrightarrow> answered spki_of base g None)
      | Some new \<Rightarrow> 1 \<le> new \<and> new < n
          \<and> (\<forall>g. new < g \<and> g < n \<longrightarrow> answered spki_of base g None)
          \<and> (\<exists>s. answered spki_of base new (Some s) \<and> (gn_matching found = Some new \<longleftrightarrow> cert = Some s)))
     \<and> (\<forall>m. gn_matching found = Some m \<longrightarrow> 1 \<le> m \<and> m < n
          \<and> (\<exists>s. cert = Some s \<and> answered spki_of base m (Some s)))"

definition noted :: "bytes option \<Rightarrow> nat \<Rightarrow> bytes option \<Rightarrow> generations \<Rightarrow> generations" where
  "noted cert g answer found = (case answer of None \<Rightarrow> found | Some s \<Rightarrow>
     let found = found\<lparr>gn_newest := Some g\<rparr> in if cert = Some s then found\<lparr>gn_matching := Some g\<rparr> else found)"

lemma find_among_Cons:
  "find_among spki_of base cert (g # gs) found = bindr (spki_of (generation_label base g)) (\<lambda>answer.
     find_among spki_of base cert gs (noted cert g answer found))"
proof -
  have "(\<lambda>answer. case answer of
       None \<Rightarrow> find_among spki_of base cert gs found
     | Some spki \<Rightarrow>
         let found = found\<lparr>gn_newest := Some g\<rparr> in
         find_among spki_of base cert gs
           (if cert = Some spki then found\<lparr>gn_matching := Some g\<rparr> else found))
      = (\<lambda>answer. find_among spki_of base cert gs (noted cert g answer found))"
    by (rule ext) (simp add: noted_def Let_def split: option.split)
  then show ?thesis by simp
qed

lemma surveyed_None:
  assumes "surveyed spki_of base cert n found" and "answered spki_of base n None"
  shows "surveyed spki_of base cert (Suc n) found"
  using assms unfolding surveyed_def by (auto simp: less_Suc_eq split: option.splits)

lemma surveyed_Some:
  assumes "surveyed spki_of base cert n found" and "1 \<le> n" and "answered spki_of base n (Some s)"
  shows "surveyed spki_of base cert (Suc n) (noted cert n (Some s) found)"
proof (cases "cert = Some s")
  case True
  with assms(2,3) show ?thesis by (auto simp: surveyed_def noted_def Let_def)
next
  case False
  have "gn_matching found = Some m \<Longrightarrow> 1 \<le> m \<and> m < n
      \<and> (\<exists>s. cert = Some s \<and> answered spki_of base m (Some s))" for m
    using assms(1) by (simp add: surveyed_def)
  then have old: "gn_matching found = Some m \<Longrightarrow> 1 \<le> m \<and> m < Suc n
      \<and> (\<exists>s. cert = Some s \<and> answered spki_of base m (Some s))" and "gn_matching found \<noteq> Some n" for m
    by (auto intro: less_SucI)
  with False assms(2,3) have "\<exists>s. answered spki_of base n (Some s) \<and> (gn_matching found = Some n \<longleftrightarrow> cert = Some s)"
    by blast
  with False assms(2) old show ?thesis by (simp add: surveyed_def noted_def not_less_eq [symmetric])
qed

lemma surveyed_among:
  "surveyed spki_of base cert n found \<Longrightarrow> 1 \<le> n \<Longrightarrow>
     find_among spki_of base cert [n..<n + k] found w = (Inr found', v) \<Longrightarrow>
     surveyed spki_of base cert (n + k) found'"
proof (induction k arbitrary: n found w)
  case 0
  then show ?case by (simp add: wp)
next
  case (Suc k)
  have list: "[n..<n + Suc k] = n # [Suc n..<Suc n + k]" by (simp add: upt_conv_Cons del: upt_Suc)
  obtain answer u where answer: "spki_of (generation_label base n) w = (Inr answer, u)"
    and rest: "find_among spki_of base cert [Suc n..<Suc n + k] (noted cert n answer found) u = (Inr found', v)"
    using Suc.prems(3) unfolding list find_among_Cons wp by blast
  from answer have "answered spki_of base n answer" unfolding answered_def by blast
  then have "surveyed spki_of base cert (Suc n) (noted cert n answer found)"
    using surveyed_None [OF Suc.prems(1)] surveyed_Some [OF Suc.prems(1,2)]
    by (cases answer) (simp_all add: noted_def [of _ _ None])
  from Suc.IH [OF this _ rest] show ?case by simp
qed

lemma find_generations_surveyed:
  assumes "find_generations base cert spki_of w = (Inr found, v)"
  shows "surveyed spki_of base cert (MAX_GENERATIONS + 1) found"
proof -
  have "surveyed spki_of base cert 1 \<lparr>gn_matching = None, gn_newest = None\<rparr>"
    by (simp add: surveyed_def)
  then show ?thesis
    using surveyed_among [of spki_of base cert 1 _ MAX_GENERATIONS w found v] assms
    by (simp add: find_generations_def add.commute del: upt_Suc)
qed

text \<open>One key for each certificate. When a certificate has to be renewed, the key generated is of a
  generation that the token does not have, within the number of generations; a key already there is
  used only when it is the most recent one and is not that of the certificate in place.\<close>

theorem one_key_per_certificate:
  assumes "find_generations base cert spki_of w = (Inr found, v)" and "plan found = Inr p"
  shows "(case p of
      GenerateKey g \<Rightarrow> 1 \<le> g \<and> g \<le> MAX_GENERATIONS \<and> answered spki_of base g None
    | UseKey g \<Rightarrow> gn_newest found = Some g \<and> (\<exists>s. answered spki_of base g (Some s) \<and> cert \<noteq> Some s))"
  using find_generations_surveyed [OF assms(1)] assms(2)
  by (auto simp: plan_def surveyed_def MAX_GENERATIONS_def split: option.splits if_splits)


section \<open>What a command destroys\<close>

fun destroys :: "ck_event \<Rightarrow> bool" where
  "destroys (Destroyed s h r) = True"
| "destroys _ = False"

text \<open>An object destroyed is one that the module gave for a search by a label.\<close>

definition found_under :: "hsm_lib \<Rightarrow> string \<Rightarrow> ck_event list \<Rightarrow> ck_event \<Rightarrow> bool" where
  "found_under H label h ev \<longleftrightarrow> (\<exists>s s' obj r c objs. ev = Destroyed s obj r \<and> obj \<in> set objs
     \<and> Found s' [AClass c, AId (key_id H label), ALabel label] (Inr objs) \<in> set h)"

text \<open>After the calls \<open>h\<close>, only objects of the label, if any, were destroyed.\<close>

definition spared :: "hsm_lib \<Rightarrow> string option \<Rightarrow> ck_event list \<Rightarrow> hsm_world \<Rightarrow> bool" where
  "spared H label h w \<longleftrightarrow> (\<exists>es. hw_history w = h @ es \<and> (\<forall>ev \<in> set es. destroys ev \<longrightarrow>
     (\<exists>l. label = Some l \<and> found_under H l (hw_history w) ev)))
   \<and> (\<forall>l. label = Some l \<longrightarrow> pt_key_label (hw_token w) = l \<and> pt_key_id (hw_token w) = key_id H l)"

lemma found_under_more: "found_under H l h ev \<Longrightarrow> found_under H l (h @ es) ev"
  unfolding found_under_def by fastforce

lemma spared_call:
  assumes "spared H label h w"
    and "destroys e \<Longrightarrow> \<exists>l. label = Some l \<and> found_under H l (hw_history w @ [e]) e"
  shows "spared H label h (w\<lparr>hw_history := hw_history w @ [e]\<rparr>)"
proof -
  obtain es where es: "hw_history w = h @ es"
      "\<forall>ev \<in> set es. destroys ev \<longrightarrow> (\<exists>l. label = Some l \<and> found_under H l (hw_history w) ev)"
    using assms(1) unfolding spared_def by blast
  then have "\<forall>ev \<in> set (es @ [e]). destroys ev \<longrightarrow>
      (\<exists>l. label = Some l \<and> found_under H l (hw_history w @ [e]) ev)"
    using assms(2) found_under_more [where h = "hw_history w" and es = "[e]"] by auto
  moreover have "hw_history w @ [e] = h @ (es @ [e])" using es(1) by simp
  ultimately have "\<exists>es. hw_history w @ [e] = h @ es \<and> (\<forall>ev \<in> set es. destroys ev \<longrightarrow>
      (\<exists>l. label = Some l \<and> found_under H l (hw_history w @ [e]) ev))" by blast
  with assms(1) show ?thesis by (simp add: spared_def)
qed

lemma keeps_spared_call [pres]:
  "(\<And>r. \<not> destroys (event r)) \<Longrightarrow> keeps (spared H label h) (ck_call f event)"
  by (auto simp: keeps_runs run intro: spared_call)

lemma keeps_spared_tok [pres]:
  "keeps (spared H label h) (tok g)"
  "keeps (spared H label h) (set_token (\<lambda>t. t\<lparr>pt_session := x, pt_provenance_verified := b\<rparr>) ())"
  by (auto simp: keeps_runs run spared_def)

lemma keeps_spared_session [pres]:
  "(\<And>s. keeps (spared H label h) (f s)) \<Longrightarrow> keeps (spared H label h) (with_session f)"
  by (simp add: keeps_runs run)

lemma keeps_spared_find_slot [pres]: "keeps (spared H label h) (find_slot H l ss)"
  by (induction ss) (auto intro!: pres)

lemma keeps_spared_connect [pres]: "keeps (spared H label h) (connect H l pin)"
  unfolding connect_def by (auto intro!: pres split: ck_error.split rv_error.split)

lemma keeps_spared_reconnect [pres]: "keeps (spared H label h) (reconnect H)"
  unfolding reconnect_def by (auto intro!: pres)

lemma keeps_spared_public_key [pres]: "keeps (spared H label h) (public_key_der H)"
  unfolding public_key_der_def retrying_def rsa_public_components_def find_keys_def
  by (auto intro!: pres)

lemma keeps_spared_open:
  "keeps (spared H label h) (open_token H opts)"
  unfolding open_token_def shared_context_def
  by (auto intro!: pres keeps_modify simp: spared_def)

lemma open_token_named:
  "open_token H opts w = (Inr t, v) \<Longrightarrow>
     pt_key_label t = ho_key_label opts \<and> pt_key_id t = key_id H (ho_key_label opts)"
  by (auto simp: open_token_def wp)

lemma runs_use_token:
  "spared H None h w \<Longrightarrow> runs (use_token H cfg l) (\<lambda>_. spared H (Some l) h) (\<lambda>_. spared H None h) w"
  using keepsD [OF keeps_spared_open [of H None h]] open_token_named [of H]
  by (auto simp: use_token_def runs_def run_defs spared_def split: prod.splits sum.splits) fastforce+

text \<open>The objects that a search by the label of the token gave.\<close>

definition listed :: "hsm_lib \<Rightarrow> string \<Rightarrow> handle list \<Rightarrow> hsm_world \<Rightarrow> bool" where
  "listed H l objs w \<longleftrightarrow> (\<exists>s c all. Found s [AClass c, AId (key_id H l), ALabel l] (Inr all) \<in> set (hw_history w)
     \<and> set objs \<subseteq> set all)"

lemma spared_token: "spared H (Some l) h w \<Longrightarrow> pt_key_label (hw_token w) = l \<and> pt_key_id (hw_token w) = key_id H l"
  by (simp add: spared_def)

lemma runs_find_keys_listed:
  assumes "spared H (Some l) h w"
  shows "runs (find_keys H c) (\<lambda>objs v. spared H (Some l) h v \<and> listed H l objs v) (\<lambda>_. spared H (Some l) h) w"
proof -
  have "spared H (Some l) h (w\<lparr>hw_history := hw_history w @ [Found s t r]\<rparr>)" for s t r
    by (rule spared_call [OF assms]) simp
  moreover have "key_template c (hw_token w) = [AClass c, AId (key_id H l), ALabel l]"
    using spared_token [OF assms] by (simp add: key_template_def)
  ultimately show ?thesis by (auto simp: find_keys_def run listed_def)
qed

lemma runs_destroy_objects:
  "spared H (Some l) h w \<Longrightarrow> listed H l objs w \<Longrightarrow>
     runs (destroy_objects H objs n) (\<lambda>_. spared H (Some l) h) (\<lambda>_. spared H (Some l) h) w"
proof (induction objs arbitrary: n w)
  case Nil
  then show ?case by (simp add: run)
next
  case (Cons obj objs)
  have "spared H (Some l) h (w\<lparr>hw_history := hw_history w @ [Destroyed x obj r]\<rparr>)" for x r
    using Cons.prems(2) by (intro spared_call [OF Cons.prems(1)]) (fastforce simp: found_under_def listed_def)
  moreover have "listed H l objs (w\<lparr>hw_history := hw_history w @ [e]\<rparr>)" for e
    using Cons.prems(2) by (fastforce simp: listed_def)
  ultimately show ?case by (simp add: run Cons.IH)
qed

lemma runs_destroy_pair:
  "spared H (Some l) h w \<Longrightarrow>
     runs (destroy_key_pair H) (\<lambda>_. spared H (Some l) h) (\<lambda>_. spared H (Some l) h) w"
  unfolding destroy_key_pair_def runs_bindr
  by (auto simp: run intro!: runs_mono [OF runs_find_keys_listed] runs_mono [OF runs_destroy_objects])

section \<open>The command\<close>

text \<open>Only a key under a given label, if any, was destroyed since \<open>h\<close>.\<close>

abbreviation spared_keys :: "hsm_lib \<Rightarrow> string option \<Rightarrow> ck_event list \<Rightarrow> keys_world \<Rightarrow> bool" where
  "spared_keys H label h w \<equiv> spared H label h (kw_hsm w)"

lemma runs_on_hsm [run]:
  "runs (on_hsm m) Q E w \<longleftrightarrow> runs m (\<lambda>x h. Q x (w\<lparr>kw_hsm := h\<rparr>)) (\<lambda>e h. E e (w\<lparr>kw_hsm := h\<rparr>)) (kw_hsm w)"
  by (simp add: runs_def on_hsm_def split: prod.splits sum.splits)

lemma runs_used:
  "spared_keys H None h w \<Longrightarrow> runs (on_hsm (use_token H cfg l)) (\<lambda>_. spared_keys H (Some l) h)
     (\<lambda>_. spared_keys H None h) w"
  by (simp add: run runs_use_token)

lemma runs_public_key_spared:
  "spared H label h w \<Longrightarrow> runs (public_key_der H) (\<lambda>_. spared H label h) (\<lambda>_. spared H label h) w"
  by (intro runs_keeps keeps_spared_public_key)

text \<open>A key that was only looked at.\<close>

lemma keeps_spared_use: "keeps (spared H None h) (use_token H cfg l)"
  unfolding use_token_def by (auto intro!: pres keeps_spared_open keeps_modify simp: spared_def)

lemma keeps_spared_spki: "keeps (spared_keys H None h) (key_spki H cfg l)"
proof -
  note keeps_spared_use [of H h cfg l]
  then have "runs (use_token H cfg l) (\<lambda>_. spared H None h) (\<lambda>_. spared H None h) v" if "spared H None h v" for v
    using that by (intro runs_keeps)
  then show ?thesis
    unfolding keeps_runs key_spki_def
    by (auto simp: run intro!: runs_mono [OF _ runs_mono [OF runs_public_key_spared]] split: hsm_error.split)
qed

lemma keeps_spared_search: "keeps (spared_keys H None h) (find_generations base cert (key_spki H cfg))"
  unfolding find_generations_def by (intro keeps_find_among keeps_spared_spki)

lemma spared_none: "spared H (Some l) h w \<Longrightarrow> ev \<in> set (drop (length h) (hw_history w)) \<Longrightarrow> destroys ev
    \<Longrightarrow> found_under H l (hw_history w) ev"
  by (auto simp: spared_def)

lemma spared_nothing: "spared H None h w \<Longrightarrow> ev \<in> set (drop (length h) (hw_history w)) \<Longrightarrow> \<not> destroys ev"
  by (auto simp: spared_def)

lemma check_retirableD:
  "check_retirable found generation = Inr x \<Longrightarrow> \<exists>current. gn_matching found = Some current \<and> generation < current"
  by (auto simp: check_retirable_def wp)

text \<open>What is known when objects were destroyed.\<close>

definition retired ::
    "hsm_lib \<Rightarrow> keys_config \<Rightarrow> x509 option \<Rightarrow> nat \<Rightarrow> string option \<Rightarrow> keys_world \<Rightarrow> ck_event \<Rightarrow> bool" where
  "retired H cfg cert generation confirm v ev \<longleftrightarrow> (\<exists>current.
     let label = generation_label (kc_key_label cfg) generation in
     generation < current \<and> confirm = Some label \<and> cert \<noteq> None
     \<and> answered (key_spki H cfg) (kc_key_label cfg) current (map_option x_spki cert)
     \<and> (EVENT_TSU_KEY_DESTROYED, destroyed_event label generation (Some current)) \<in> set (j_entries (tw_journal v))
     \<and> found_under H label (hw_history (kw_hsm v)) ev)"

lemma runs_retire:
  assumes "spared_keys H None h w"
  shows "runs (run_retire_key H cfg cert opened generation confirm)
    (\<lambda>_ v. \<forall>ev. ev \<in> set (drop (length h) (hw_history (kw_hsm v))) \<longrightarrow> destroys ev
       \<longrightarrow> retired H cfg cert generation confirm v ev)
    (\<lambda>_ v. \<forall>ev. ev \<in> set (drop (length h) (hw_history (kw_hsm v))) \<longrightarrow> destroys ev
       \<longrightarrow> retired H cfg cert generation confirm v ev) w"
proof -
  define P where "P v \<longleftrightarrow> (\<forall>ev. ev \<in> set (drop (length h) (hw_history (kw_hsm v))) \<longrightarrow> destroys ev
       \<longrightarrow> retired H cfg cert generation confirm v ev)" for v
  let ?l = "generation_label (kc_key_label cfg) generation"
  have calm: "P v" if "spared H None h (kw_hsm v)" for v
    using that spared_nothing unfolding P_def by blast
  have destroyed: "P v"
    if "spared_keys H (Some ?l) h v" and "gn_matching found = Some current" and "generation < current"
      and "surveyed (key_spki H cfg) (kc_key_label cfg) (map_option x_spki cert) n found" and "confirm = Some ?l"
      and "(EVENT_TSU_KEY_DESTROYED, destroyed_event ?l generation (Some current)) \<in> set (j_entries (tw_journal v))"
    for v current n found
  proof -
    from that(2,4) have "cert \<noteq> None \<and> answered (key_spki H cfg) (kc_key_label cfg) current (map_option x_spki cert)"
      unfolding surveyed_def by auto
    with that spared_none [OF that(1)] show ?thesis unfolding retired_def Let_def P_def by auto
  qed
  have search: "runs (find_generations (kc_key_label cfg) (map_option x_spki cert) (key_spki H cfg))
      (\<lambda>found v. spared_keys H None h v
         \<and> surveyed (key_spki H cfg) (kc_key_label cfg) (map_option x_spki cert) (MAX_GENERATIONS + 1) found)
      (\<lambda>_. spared_keys H None h) w"
    using runs_keeps [OF keeps_spared_search assms] find_generations_surveyed
    by (fastforce simp: runs_def split: prod.splits sum.splits)
  have opened: "runs (use_token H cfg ?l) (\<lambda>_ u. spared H None h u \<and> spared H (Some ?l) h u)
      (\<lambda>_. spared H None h) v" if "spared H None h v" for v
    by (rule runs_mono [OF runs_conj [OF runs_keeps [OF keeps_spared_use that] runs_use_token [OF that]]]) auto
  have read: "runs (public_key_der H) (\<lambda>_ u. spared H None h u \<and> spared H (Some ?l) h u)
      (\<lambda>_ u. spared H None h u \<and> spared H (Some ?l) h u) v"
    if "spared H None h v \<and> spared H (Some ?l) h v" for v
    using runs_conj [OF runs_public_key_spared runs_public_key_spared] that by blast
  show ?thesis
    unfolding P_def [symmetric] run_retire_key_def Let_def runs_bindr
    apply (rule runs_mono [OF search])
     prefer 2 apply (erule calm)
    apply (clarsimp simp: run calm)
    apply (simp only: wp)
    apply clarsimp
    apply (drule check_retirableD)
    apply clarsimp
    apply (rule runs_mono [OF opened], assumption)
     prefer 2 apply (simp add: calm)
    apply (rule runs_mono [OF read], assumption)
     apply (clarsimp simp: calm)
     apply (rule runs_mono [OF runs_destroy_pair], assumption)
      subgoal for found t current
        by (rule destroyed [of _ found current "Suc MAX_GENERATIONS"]) (auto simp: written_def)
     subgoal for found t current
       by (rule destroyed [of _ found current "Suc MAX_GENERATIONS"]) (auto simp: written_def)
    apply (simp add: calm)
    done
qed

text \<open>C25. Only a retired key is destroyed. When \<open>retire-key\<close>, run for a generation from one on, had the module
  destroy an object, the generation was older than that of the certificate in service, of which the key
  was found under another label; the operator had confirmed the exact label; the destruction was in the
  journal before; and the object is one that the module listed under that label.\<close>

theorem only_retired_keys_are_destroyed:
  assumes "run_retire_key H cfg cert opened generation confirm w = (r, v)" and "1 \<le> generation"
    and "ev \<in> set (drop (length (hw_history (kw_hsm w))) (hw_history (kw_hsm v)))" and "destroys ev"
  shows "\<exists>label current. label = generation_label (kc_key_label cfg) generation
    \<and> generation < current \<and> label \<noteq> generation_label (kc_key_label cfg) current \<and> confirm = Some label
    \<and> cert \<noteq> None \<and> answered (key_spki H cfg) (kc_key_label cfg) current (map_option x_spki cert)
    \<and> (EVENT_TSU_KEY_DESTROYED, destroyed_event label generation (Some current)) \<in> set (j_entries (tw_journal v))
    \<and> found_under H label (hw_history (kw_hsm v)) ev"
proof -
  have "spared_keys H None (hw_history (kw_hsm w)) w" by (simp add: spared_def)
  from runs_retire [OF this, of cfg cert opened generation confirm] assms(1,3,4)
  have "retired H cfg cert generation confirm v ev"
    by (cases r) (auto dest: runs_okD runs_errD)
  then obtain current where "generation < current" and rest: "confirm = Some (generation_label (kc_key_label cfg) generation)"
      "cert \<noteq> None" "answered (key_spki H cfg) (kc_key_label cfg) current (map_option x_spki cert)"
      "(EVENT_TSU_KEY_DESTROYED, destroyed_event (generation_label (kc_key_label cfg) generation) generation
         (Some current)) \<in> set (j_entries (tw_journal v))"
      "found_under H (generation_label (kc_key_label cfg) generation) (hw_history (kw_hsm v)) ev"
    unfolding retired_def Let_def by blast
  moreover from this(1) assms(2) have
    "generation_label (kc_key_label cfg) generation \<noteq> generation_label (kc_key_label cfg) current"
    using generation_label_inj [of generation current] by fastforce
  ultimately show ?thesis by blast
qed

section \<open>A token with two generations\<close>

text \<open>The keys 1 and 2, of the labels \<open>k\<close> and \<open>k.2\<close>; the modulus of a key is its number.\<close>

definition sample_labelled :: "attribute list \<Rightarrow> handle list" where
  "sample_labelled template = (if ALabel ''k'' \<in> set template then [1]
     else if ALabel ''k.2'' \<in> set template then [2] else [])"

definition sample_keys_hsm :: hsm_lib where
  "sample_keys_hsm = (sample_hsm [])\<lparr>hl_find := (\<lambda>h s template. Inr (sample_labelled template)),
     hl_attributes := (\<lambda>h s k wanted. Inr [AModulus [of_nat k], APublicExponent [3]]),
     hl_destroy := (\<lambda>h s obj. Inr ()), hl_rsa_new := (\<lambda>n e. Inr \<lparr>rk_modulus = n, rk_exponent = e\<rparr>),
     hl_rsa_der := (\<lambda>k. Inr [of_nat (rk_modulus k)])\<rparr>"

definition sample_keys_config :: keys_config where
  "sample_keys_config = \<lparr>kc_module_path = ''m'', kc_token_label = ''TSU'', kc_pin = ''1'', kc_key_label = ''k'',
     kc_key_bits = 3072\<rparr>"

definition sample_keys_world :: keys_world where
  "sample_keys_world = time_world.extend sample_time (keys_world.fields sample_unopened)"

definition sample_in_service :: x509 where
  "sample_in_service = \<lparr>x_serial = [1], x_issuer = [], x_subject = [], x_not_before = 0, x_not_after = 9,
     x_spki = [2], x_exts = None, x_sig_alg = \<lparr>alg_oid = [], alg_params = None\<rparr>, x_signature = []\<rparr>"

definition sample_answer :: "string \<Rightarrow> bytes option" where
  "sample_answer l = (if l = ''k'' then Some [1] else if l = ''k.2'' then Some [2] else None)"

lemma sample_spki:
  "runs (key_spki sample_keys_hsm sample_keys_config l) (\<lambda>answer v. answer = sample_answer l \<and> tw_journal v = tw_journal w)
     (\<lambda>_ _. False) w"
  by (simp add: key_spki_def run use_token_def open_token_def shared_context_def connect_def sample_keys_hsm_def
    sample_hsm_def sample_keys_config_def public_key_der_def retrying_def rsa_public_components_def find_keys_def
    key_template_def sample_labelled_def sample_answer_def ok_or_def is_session_lost_def reconnect_def
    rsa_public_key_def modulus_in_def exponent_in_def or_else_err_def of_be_Cons)

lemma runs_sample_among:
  assumes "\<And>l w. runs (spki_of l) (\<lambda>answer v. answer = f l \<and> tw_journal v = tw_journal w) (\<lambda>_ _. False) w"
  shows "runs (find_among spki_of base cert gs found)
     (\<lambda>result v. result = fold (\<lambda>g. noted cert g (f (generation_label base g))) gs found
        \<and> tw_journal v = tw_journal w) (\<lambda>_ _. False) w"
proof (induction gs arbitrary: found w)
  case (Cons g gs)
  show ?case
    unfolding find_among_Cons runs_bindr
    by (rule runs_mono [OF assms]) (auto intro: runs_mono [OF Cons])
qed (simp add: run)

lemma nothing_noted:
  "(\<And>g. g \<in> set gs \<Longrightarrow> f g = None) \<Longrightarrow> fold (\<lambda>g. noted cert g (f g)) gs found = found"
  by (induction gs) (auto simp: noted_def)

lemma runs_sample_search:
  "runs (find_generations ''k'' (Some [2]) (key_spki sample_keys_hsm sample_keys_config))
     (\<lambda>found v. found = \<lparr>gn_matching = Some 2, gn_newest = Some 2\<rparr> \<and> tw_journal v = tw_journal w) (\<lambda>_ _. False) w"
proof -
  have two: "generation_label ''k'' 2 = ''k.2''" by code_simp
  have "sample_answer (generation_label ''k'' g) = None" if "g \<in> set [3..<MAX_GENERATIONS + 1]" for g
    using that generation_label_inj [of g 1 "''k''"] generation_label_inj [of g 2 "''k''"] two
    by (auto simp: sample_answer_def)
  then have idle: "fold (\<lambda>g. noted (Some [2]) g (sample_answer (generation_label ''k'' g))) [3..<MAX_GENERATIONS + 1]
      found = found" for found by (rule nothing_noted)
  have list: "[1..<MAX_GENERATIONS + 1] = 1 # 2 # [3..<MAX_GENERATIONS + 1]"
    by (simp add: upt_conv_Cons MAX_GENERATIONS_def del: upt_Suc)
  have answers: "sample_answer (generation_label ''k'' 1) = Some [1]" "sample_answer (generation_label ''k'' 2) = Some [2]"
    using two by (simp_all add: sample_answer_def)
  have "fold (\<lambda>g. noted (Some [2]) g (sample_answer (generation_label ''k'' g))) [1..<MAX_GENERATIONS + 1]
      \<lparr>gn_matching = None, gn_newest = None\<rparr> = \<lparr>gn_matching = Some 2, gn_newest = Some 2\<rparr>"
    unfolding list fold_simps answers idle by (simp add: noted_def Let_def)
  then show ?thesis
    unfolding find_generations_def by (auto intro!: runs_mono [OF runs_sample_among [OF sample_spki]])
qed

definition sample_retired :: "(command_error + nat) \<times> keys_world" where
  "sample_retired = run_retire_key sample_keys_hsm sample_keys_config (Some sample_in_service) (Inr ()) 1
     (Some ''k'') sample_keys_world"

lemma sample_destruction:
  assumes "j_outage (tw_journal w) = (\<lambda>_. None)"
  shows "runs (bindr (map_err KeyUnopened (on_hsm (use_token sample_keys_hsm sample_keys_config ''k''))) (\<lambda>_.
     bindr (attempt (on_hsm (public_key_der sample_keys_hsm))) (\<lambda>spki.
     bindr (ensure (\<not> isl spki) (NoKeyUnder ''k'')) (\<lambda>_.
     bindr (ensure (Some ''k'' = Some ''k'') (NotConfirmed ''k'' current)) (\<lambda>_.
     bindr (lift (or_else_err JournalUnopened (Inr ()))) (\<lambda>_.
     bindr (map_err JournalUnwritten (recorder_append event data)) (\<lambda>_.
     map_err DestructionFailed (on_hsm (destroy_key_pair sample_keys_hsm)))))))))
     (\<lambda>_ v. \<exists>ev \<in> set (hw_history (kw_hsm v)). destroys ev) (\<lambda>_ _. False) w"
  by (simp add: run use_token_def open_token_def shared_context_def connect_def sample_keys_hsm_def assms
    sample_hsm_def sample_keys_config_def public_key_der_def retrying_def rsa_public_components_def find_keys_def
    key_template_def sample_labelled_def ok_or_def
    rsa_public_key_def modulus_in_def exponent_in_def or_else_err_def of_be_Cons destroy_key_pair_def)

lemma sample_retired_destroys: "\<exists>ev \<in> set (hw_history (kw_hsm (snd sample_retired))). destroys ev"
proof -
  have quiet: "j_outage (tw_journal sample_keys_world) = (\<lambda>_. None)"
    by (simp add: sample_keys_world_def time_world.defs sample_time_def)
  have found: "lift (or_else_err KeyRefused (check_retirable \<lparr>gn_matching = Some 2, gn_newest = Some 2\<rparr> 1)) = ok ()"
    by (simp add: check_retirable_def ok_or_def sbind_def require_def lift_def ok_def or_else_err_def)
  have names: "kc_key_label sample_keys_config = ''k''" "map_option x_spki (Some sample_in_service) = Some [2]"
      "generation_label ''k'' 1 = ''k''"
    by (simp_all add: sample_keys_config_def sample_in_service_def)
  have "runs (run_retire_key sample_keys_hsm sample_keys_config (Some sample_in_service) (Inr ()) 1 (Some ''k''))
     (\<lambda>_ v. \<exists>ev \<in> set (hw_history (kw_hsm v)). destroys ev) (\<lambda>_ _. False) sample_keys_world"
    unfolding run_retire_key_def runs_bindr [of "find_generations _ _ _"] names Let_def
    by (rule runs_mono [OF runs_sample_search])
      (use quiet sample_destruction in \<open>simp_all only: found runs_bindr [of "ok _"] runs_ok simp_thms\<close>)
  then show ?thesis
    by (auto simp: sample_retired_def runs_def split: prod.splits sum.splits)
qed

theorem only_retired_keys_are_destroyed_witness:
  "\<exists>current. 1 < current \<and> (EVENT_TSU_KEY_DESTROYED, destroyed_event ''k'' 1 (Some current))
     \<in> set (j_entries (tw_journal (snd sample_retired)))"
proof -
  obtain ev where "ev \<in> set (hw_history (kw_hsm (snd sample_retired)))" "destroys ev"
    using sample_retired_destroys by blast
  moreover have "hw_history (kw_hsm sample_keys_world) = []"
    by (simp add: sample_keys_world_def time_world.defs keys_world.defs sample_unopened_def)
  moreover have "run_retire_key sample_keys_hsm sample_keys_config (Some sample_in_service) (Inr ()) 1
     (Some ''k'') sample_keys_world = (fst sample_retired, snd sample_retired)"
    by (simp add: sample_retired_def)
  ultimately show ?thesis
    using only_retired_keys_are_destroyed [of sample_keys_hsm sample_keys_config "Some sample_in_service" "Inr ()" 1
      "Some ''k''" sample_keys_world "fst sample_retired" "snd sample_retired" ev]
    by (auto simp: sample_keys_config_def)
qed

theorem one_key_per_certificate_witness:
  "answered (\<lambda>l. ok None :: (unit, unit, bytes option) res) ''k'' 1 None"
proof -
  have "find_among (\<lambda>l. ok None :: (unit, unit, bytes option) res) ''k'' (Some [2]) gs found () = (Inr found, ())"
    for gs found by (induction gs) (simp_all add: run_defs)
  then have "find_generations ''k'' (Some [2]) (\<lambda>l. ok None :: (unit, unit, bytes option) res) ()
      = (Inr \<lparr>gn_matching = None, gn_newest = None\<rparr>, ())"
    by (simp add: find_generations_def)
  moreover have "plan \<lparr>gn_matching = None, gn_newest = None\<rparr> = Inr (GenerateKey 1)"
    by (simp add: plan_def)
  ultimately show ?thesis using one_key_per_certificate by fastforce
qed

end
