(* ===== verification/Seal.thy ===== *)
theory Seal
  imports Audit_Log Tsa_Server
begin

text \<open>
  The sealing of a journal: \<open>crates/oe-seal/src/lib.rs\<close>, its client of RFC 3161
  (\<open>crates/oe-crosstsa/src/lib.rs\<close>) and the seals of the timestamping service by its own unit
  (\<open>bin/tsa-server/src/seal.rs\<close>). A pass has the head of the chain timestamped by the house, then by
  other authorities, then copies the whole file, and counts its failures. While it waits for an
  answer, others write to the journal.
\<close>

section \<open>The world of a pass\<close>

text \<open>What \<open>/healthz\<close> reads of the sealer.\<close>

record seal_state =
  hs_last_seal :: "instant option"
  hs_seal_failures :: "32 word"
  hs_last_copy :: "instant option"
  hs_copy_failures :: "32 word"
  hs_last_cross_seal :: "instant option"
  hs_last_cross_seal_count :: nat
  hs_cross_seal_failures :: "32 word"

definition seal_state_default :: seal_state where
  "seal_state_default = \<lparr>hs_last_seal = None, hs_seal_failures = 0, hs_last_copy = None, hs_copy_failures = 0,
     hs_last_cross_seal = None, hs_last_cross_seal_count = 0, hs_cross_seal_failures = 0\<rparr>"

text \<open>The file and what the process remembers of it, with its clock; how the disk answers each append and
  each reading; the answers of the network, and what is written to the journal by others in the
  meantime; what the object store has acknowledged.\<close>

record seal_world =
  sw_file :: bytes
  sw_log :: log_state
  sw_clock :: "nat \<Rightarrow> instant"
  sw_ticks :: nat
  sw_disk :: "nat \<Rightarrow> disk"
  sw_appends :: nat
  sw_unread :: "nat \<Rightarrow> string option"
  sw_http :: "nat \<Rightarrow> string \<Rightarrow> bytes \<Rightarrow> string + nat \<times> (string + bytes)"
  sw_put :: "nat \<Rightarrow> string option"
  sw_others :: "nat \<Rightarrow> bytes \<times> log_state \<Rightarrow> bytes \<times> log_state"
  sw_calls :: nat
  sw_stored :: "(string \<times> bytes) list"
  sw_health :: seal_state

type_synonym ('x, 'e, 'a) sealing = "('x seal_world_scheme, 'e, 'a) res"

datatype decode_error = Unreadable_der string | Token_absent | Content_absent | Too_large

datatype query_error = Query_encode string | Query_http string | Query_status nat | Query_decode decode_error
  | Imprint_mismatch

datatype seal_error = Seal_log audit_error | Unexpected_head string | Seal_stamp string | Seal_io string
  | Seal_put string

record seal_lib =
  sb_token :: token_lib
  sb_json :: json_lib
  sb_base64 :: "bytes \<Rightarrow> string"
  sb_unbase64 :: "string \<Rightarrow> string + bytes"
  sb_lossy :: "string \<Rightarrow> string"
  sb_name :: "dn \<Rightarrow> string"
  sb_rfc3339 :: "instant \<Rightarrow> string option"
  sb_log_time :: "instant \<Rightarrow> string"
  sb_query_text :: "string \<Rightarrow> query_error \<Rightarrow> string"
  sb_tsa_text :: "tsa_error \<Rightarrow> string"

definition seal_now :: "('x, 'e, instant) sealing" where
  "seal_now = (\<lambda>w. (Inr (sw_clock w (sw_ticks w)), w\<lparr>sw_ticks := sw_ticks w + 1\<rparr>))"

definition meanwhile :: "('x, 'e, unit) sealing" where
  "meanwhile = (\<lambda>w. case sw_others w (sw_calls w) (sw_file w, sw_log w) of (f, st) \<Rightarrow>
     (Inr (), w\<lparr>sw_file := f, sw_log := st, sw_calls := sw_calls w + 1\<rparr>))"

definition http_post :: "string \<Rightarrow> bytes \<Rightarrow> ('x, query_error, nat \<times> (string + bytes)) sealing" where
  "http_post url body =
     bindr (gets (\<lambda>w. sw_http w (sw_calls w) url body)) (\<lambda>answer.
     bindr meanwhile (\<lambda>_. lift (or_else_err Query_http answer)))"

definition put_object :: "string \<Rightarrow> bytes \<Rightarrow> ('x, seal_error, unit) sealing" where
  "put_object name body =
     bindr (gets (\<lambda>w. sw_put w (sw_calls w))) (\<lambda>answer.
     bindr meanwhile (\<lambda>_.
     case answer of Some e \<Rightarrow> fail (Seal_put e)
     | None \<Rightarrow> modify (\<lambda>w. w\<lparr>sw_stored := sw_stored w @ [(name, body)]\<rparr>)))"

definition append_entry :: "seal_lib \<Rightarrow> string \<Rightarrow> (string \<times> json) list option \<Rightarrow> ('x, seal_error, unit) sealing" where
  "append_entry K event data =
     bindr seal_now (\<lambda>t. map_err Seal_log (\<lambda>w.
       case log_append (sb_json K) (sb_log_time K t) event data (sw_disk w (sw_appends w)) (sw_log w) (sw_file w) of
         (res, st, f) \<Rightarrow> (res, w\<lparr>sw_file := f, sw_log := st, sw_appends := sw_appends w + 1\<rparr>)))"

section \<open>Asking an authority of RFC 3161\<close>

definition MAX_RESPONSE_BYTES :: nat where "MAX_RESPONSE_BYTES = 1048576"

record attestation =
  at_tsa :: string
  at_gen_time :: string
  at_serial :: string
  at_token :: string

record parsed_token =
  pt_hashed_message :: bytes
  pt_gen_time :: string
  pt_serial_hex :: string
  pt_signer_subject :: "string option"

definition parsed_token_decode :: "seal_lib \<Rightarrow> bytes \<Rightarrow> decode_error + parsed_token" where
  "parsed_token_decode K resp_der =
     (let L = sb_token K in
      sbind (or_else_err Unreadable_der (from_der (tl_response L) resp_der)) (\<lambda>resp.
      sbind (ok_or Token_absent (tr_time_stamp_token resp)) (\<lambda>token_der.
      sbind (or_else_err Unreadable_der (from_der (tl_content_info L) token_der)) (\<lambda>content_info.
      sbind (or_else_err Unreadable_der (from_der (tl_signed_data L) (ct_content content_info))) (\<lambda>signed_data.
      sbind (ok_or Content_absent (sd_econtent signed_data)) (\<lambda>econtent.
      sbind (or_else_err Unreadable_der (from_der (d_octets (tl_deps L)) econtent)) (\<lambda>octets.
      sbind (or_else_err Unreadable_der (from_der (tl_tst_info L) octets)) (\<lambda>tst_info.
      Inr \<lparr>pt_hashed_message = mi_hashed_message (ti_message_imprint tst_info),
           pt_gen_time = sb_lossy K (an_value (ti_gen_time tst_info)),
           pt_serial_hex = hex_encode (ti_serial_number tst_info),
           pt_signer_subject = (case sd_certificates signed_data of
              Some (cert # _) \<Rightarrow> Some (sb_name K (x_subject cert)) | _ \<Rightarrow> None)\<rparr>))))))))"

definition attest_request :: "alg_id \<Rightarrow> bytes \<Rightarrow> time_stamp_req" where
  "attest_request hash_alg digest = \<lparr>tq_version = 1,
     tq_message_imprint = \<lparr>mi_hash_algorithm = hash_alg, mi_hashed_message = digest\<rparr>,
     tq_req_policy = None, tq_nonce = None, tq_cert_req = True, tq_extensions = None\<rparr>"

definition judge_answer :: "seal_lib \<Rightarrow> string \<Rightarrow> bytes \<Rightarrow> nat \<times> (string + bytes) \<Rightarrow> query_error + attestation" where
  "judge_answer K url digest = (\<lambda>(status, body).
     sbind (require (200 \<le> status \<and> status < 300) (Query_status status)) (\<lambda>_.
     sbind (or_else_err Query_http body) (\<lambda>bytes.
     sbind (require (\<not> MAX_RESPONSE_BYTES < length bytes) (Query_decode Too_large)) (\<lambda>_.
     sbind (or_else_err Query_decode (parsed_token_decode K bytes)) (\<lambda>parsed.
     sbind (require (\<not> pt_hashed_message parsed \<noteq> digest) Imprint_mismatch) (\<lambda>_.
     Inr \<lparr>at_tsa = (case pt_signer_subject parsed of Some name \<Rightarrow> name | None \<Rightarrow> url),
          at_gen_time = pt_gen_time parsed, at_serial = pt_serial_hex parsed,
          at_token = sb_base64 K bytes\<rparr>))))))"

definition attest :: "seal_lib \<Rightarrow> string \<Rightarrow> bytes \<Rightarrow> alg_id \<Rightarrow> ('x, query_error, attestation) sealing" where
  "attest K url digest hash_alg =
     bindr (lift (or_else_err Query_encode (to_der (tl_request (sb_token K)) (attest_request hash_alg digest))))
       (\<lambda>req_der.
     bindr (http_post url req_der) (\<lambda>answer.
     lift (judge_answer K url digest answer)))"

text \<open>\<open>Client::seal\<close>: an authority that fails is left out.\<close>

fun client_seal :: "seal_lib \<Rightarrow> string list \<Rightarrow> bytes \<Rightarrow> alg_id \<Rightarrow> ('x, 'e, attestation list) sealing" where
  "client_seal K [] digest hash_alg = ok []"
| "client_seal K (url # urls) digest hash_alg =
     bindr (attempt (attest K url digest hash_alg)) (\<lambda>r.
     bindr (client_seal K urls digest hash_alg) (\<lambda>rest.
     ok (case r of Inr att \<Rightarrow> att # rest | Inl _ \<Rightarrow> rest)))"

section \<open>The authority that seals\<close>

record stamp =
  sp_token :: bytes
  sp_tsa :: "string option"

definition seal_sha256 :: alg_id where
  "seal_sha256 = \<lparr>alg_oid = digest_oid Sha256, alg_params = None\<rparr>"

definition http_stamper :: "seal_lib \<Rightarrow> string \<Rightarrow> bytes \<Rightarrow> ('x, string, stamp) sealing" where
  "http_stamper K url digest =
     bindr (map_err (sb_query_text K url) (attest K url digest seal_sha256)) (\<lambda>attestation.
     bindr (lift (sb_unbase64 K (at_token attestation))) (\<lambda>token.
     ok \<lparr>sp_token = token, sp_tsa = Some (at_tsa attestation)\<rparr>))"

text \<open>The timestamping service seals with its own unit, whose authority writes to the same journal.\<close>

record tsu_world = seal_world +
  sw_tsa :: tsa_world

definition ask_unit :: "tsa_lib \<Rightarrow> tsa_options \<Rightarrow> bytes \<Rightarrow> (tsu_world, 'e, tsa_error + bytes) res" where
  "ask_unit L A request = (\<lambda>w. case timestamp L A request (sw_tsa w) of (r, t) \<Rightarrow> (Inr r, w\<lparr>sw_tsa := t\<rparr>))"

definition authority_stamper ::
    "seal_lib \<Rightarrow> tsa_lib \<Rightarrow> tsa_options \<Rightarrow> bytes \<Rightarrow> (tsu_world, string, stamp) res" where
  "authority_stamper K L A digest =
     bindr (lift (to_der (tl_request (tb_token L)) (attest_request seal_sha256 digest))) (\<lambda>request.
     bindr (ask_unit L A request) (\<lambda>r.
     bindr meanwhile (\<lambda>_.
     bindr (lift (or_else_err (sb_tsa_text K) r)) (\<lambda>token.
     ok \<lparr>sp_token = token, sp_tsa = None\<rparr>))))"

section \<open>A pass\<close>

definition EVENT_CROSS_SEALED :: string where "EVENT_CROSS_SEALED = ''log.cross_sealed''"
definition EVENT_REPLICATED :: string where "EVENT_REPLICATED = ''log.replicated''"

definition MAX_FAILURES :: "32 word" where "MAX_FAILURES = 3"
definition SEAL_RETRY :: duration where "SEAL_RETRY = seconds 60"

text \<open>The authority of the house, the other authorities, and the name of the object that receives the
  copy. Without another authority there is no client.\<close>

record 'w sealer =
  se_stamper :: "bytes \<Rightarrow> ('w, string, stamp) res"
  se_cross :: "string list"
  se_s3 :: "string option"

record head =
  hd_seq :: "64 word"
  hd_hash :: string
  hd_digest :: bytes

text \<open>\<open>u8::from_str_radix\<close> on two characters, which may begin with a plus.\<close>

definition radix16 :: "char \<Rightarrow> char \<Rightarrow> byte option" where
  "radix16 c d = (case (hex_value c, hex_value d) of
     (Some h, Some l) \<Rightarrow> Some (word_of_nat (h * 16 + l))
   | (None, Some l) \<Rightarrow> if c = CHR ''+'' then Some (word_of_nat l) else None
   | _ \<Rightarrow> None)"

fun radix_pairs :: "string \<Rightarrow> bytes option" where
  "radix_pairs (c # d # cs) = (case (radix16 c d, radix_pairs cs) of
     (Some b, Some bs) \<Rightarrow> Some (b # bs) | _ \<Rightarrow> None)"
| "radix_pairs _ = Some []"

definition decode_head :: "string \<Rightarrow> seal_error + bytes" where
  "decode_head head =
     (if length head \<noteq> 64 \<or> \<not> list_all (\<lambda>c. (of_char c :: nat) < 128) head then Inl (Unexpected_head head)
      else ok_or (Unexpected_head head) (radix_pairs head))"

definition log_head_call :: "seal_lib \<Rightarrow> ('x, audit_error, 64 word \<times> string) sealing" where
  "log_head_call K = (\<lambda>w. case log_head (sb_json K) (sw_log w) (sw_file w) of (r, st) \<Rightarrow> (r, w\<lparr>sw_log := st\<rparr>))"

definition sealer_head :: "seal_lib \<Rightarrow> ('x, seal_error, head) sealing" where
  "sealer_head K =
     bindr (map_err Seal_log (log_head_call K)) (\<lambda>(seq, hash).
     bindr (lift (decode_head hash)) (\<lambda>digest.
     ok \<lparr>hd_seq = seq, hd_hash = hash, hd_digest = digest\<rparr>))"

definition head_data :: "head \<Rightarrow> (string \<times> json) list" where
  "head_data h = bt_insert ''sealed_head'' (JStr (hd_hash h)) (bt_insert ''sealed_seq'' (JNum (uint (hd_seq h))) [])"

definition seal_data :: "seal_lib \<Rightarrow> head \<Rightarrow> stamp \<Rightarrow> (string \<times> json) list" where
  "seal_data K h s = bt_insert ''token'' (JStr (sb_base64 K (sp_token s)))
     (case sp_tsa s of Some tsa \<Rightarrow> bt_insert ''tsa'' (JStr tsa) (head_data h) | None \<Rightarrow> head_data h)"

definition seal_head ::
    "seal_lib \<Rightarrow> 'x seal_world_scheme sealer \<Rightarrow> head \<Rightarrow> ('x, seal_error, unit) sealing" where
  "seal_head K S h =
     bindr (map_err Seal_stamp (se_stamper S (hd_digest h))) (\<lambda>stamp.
     append_entry K EVENT_SEALED (Some (seal_data K h stamp)))"

definition cross_data :: "head \<Rightarrow> attestation \<Rightarrow> (string \<times> json) list" where
  "cross_data h a = bt_insert ''token'' (JStr (at_token a)) (bt_insert ''serial'' (JStr (at_serial a))
     (bt_insert ''gen_time'' (JStr (at_gen_time a)) (bt_insert ''tsa'' (JStr (at_tsa a)) (head_data h))))"

definition cross_seal :: "seal_lib \<Rightarrow> string list \<Rightarrow> head \<Rightarrow> ('x, seal_error, nat) sealing" where
  "cross_seal K urls h =
     bindr (client_seal K urls (hd_digest h) seal_sha256) (\<lambda>attestations.
     bindr (foreach attestations (\<lambda>a. append_entry K EVENT_CROSS_SEALED (Some (cross_data h a)))) (\<lambda>_.
     ok (length attestations)))"

definition read_file :: "('x, seal_error, bytes) sealing" where
  "read_file = (\<lambda>w. let w' = w\<lparr>sw_calls := sw_calls w + 1\<rparr> in
     case sw_unread w (sw_calls w) of Some e \<Rightarrow> (Inl (Seal_io e), w') | None \<Rightarrow> (Inr (sw_file w), w'))"

definition copy_data :: "string \<Rightarrow> bytes \<Rightarrow> (string \<times> json) list" where
  "copy_data name body = bt_insert ''bytes'' (JNum (int (length body))) (bt_insert ''key'' (JStr name) [])"

definition copy_log :: "seal_lib \<Rightarrow> string \<Rightarrow> ('x, seal_error, unit) sealing" where
  "copy_log K name =
     bindr read_file (\<lambda>body.
     bindr (put_object name body) (\<lambda>_.
     append_entry K EVENT_REPLICATED (Some (copy_data name body))))"

definition one_more :: "32 word \<Rightarrow> 32 word" where
  "one_more n = (if n = 0xFFFFFFFF then n else n + 1)"

definition note_health :: "(instant \<Rightarrow> seal_state \<Rightarrow> seal_state) \<Rightarrow> ('x, 'e, unit) sealing" where
  "note_health f = bindr seal_now (\<lambda>t. modify (\<lambda>w. w\<lparr>sw_health := f t (sw_health w)\<rparr>))"

definition set_health :: "(seal_state \<Rightarrow> seal_state) \<Rightarrow> ('x, 'e, unit) sealing" where
  "set_health f = modify (\<lambda>w. w\<lparr>sw_health := f (sw_health w)\<rparr>)"

record seal_outcome =
  oc_sealed :: bool
  oc_cross_sealed :: "nat option"
  oc_copied :: "bool option"

text \<open>The three stages of \<open>once\<close>, each tried whatever became of the others.\<close>

definition seal_stage :: "seal_lib \<Rightarrow> 'x seal_world_scheme sealer \<Rightarrow> seal_error + head \<Rightarrow> ('x, 'e, bool) sealing" where
  "seal_stage K S head =
     bindr (attempt (bindr (lift head) (seal_head K S))) (\<lambda>sealed.
     case sealed of
       Inr _ \<Rightarrow> bindr (note_health (\<lambda>t st. st\<lparr>hs_last_seal := Some t, hs_seal_failures := 0\<rparr>)) (\<lambda>_. ok True)
     | Inl _ \<Rightarrow> bindr (set_health (\<lambda>st. st\<lparr>hs_seal_failures := one_more (hs_seal_failures st)\<rparr>)) (\<lambda>_. ok False))"

definition cross_stage :: "seal_lib \<Rightarrow> 'x seal_world_scheme sealer \<Rightarrow> seal_error + head \<Rightarrow> ('x, 'e, nat option) sealing" where
  "cross_stage K S head =
     (if se_cross S = [] then ok None
      else
        bindr (attempt (bindr (lift head) (cross_seal K (se_cross S)))) (\<lambda>r.
        let count = (case r of Inr n \<Rightarrow> n | Inl _ \<Rightarrow> 0) in
        bindr (set_health (\<lambda>st. st\<lparr>hs_last_cross_seal_count := count\<rparr>)) (\<lambda>_.
        bindr (if 0 < count
          then note_health (\<lambda>t st. st\<lparr>hs_last_cross_seal := Some t, hs_cross_seal_failures := 0\<rparr>)
          else set_health (\<lambda>st. st\<lparr>hs_cross_seal_failures := one_more (hs_cross_seal_failures st)\<rparr>)) (\<lambda>_.
        ok (Some count)))))"

definition copy_stage :: "seal_lib \<Rightarrow> 'x seal_world_scheme sealer \<Rightarrow> ('x, 'e, bool option) sealing" where
  "copy_stage K S = (case se_s3 S of
     None \<Rightarrow> ok None
   | Some name \<Rightarrow>
       bindr (attempt (copy_log K name)) (\<lambda>r.
       bindr (case r of
          Inr _ \<Rightarrow> note_health (\<lambda>t st. st\<lparr>hs_last_copy := Some t, hs_copy_failures := 0\<rparr>)
        | Inl _ \<Rightarrow> set_health (\<lambda>st. st\<lparr>hs_copy_failures := one_more (hs_copy_failures st)\<rparr>)) (\<lambda>_.
       ok (Some (case r of Inr _ \<Rightarrow> True | Inl _ \<Rightarrow> False)))))"

definition once :: "seal_lib \<Rightarrow> 'x seal_world_scheme sealer \<Rightarrow> ('x, 'e, seal_outcome) sealing" where
  "once K S =
     bindr (attempt (sealer_head K)) (\<lambda>head.
     bindr (seal_stage K S head) (\<lambda>sealed.
     bindr (cross_stage K S head) (\<lambda>cross_sealed.
     bindr (copy_stage K S) (\<lambda>copied.
     ok \<lparr>oc_sealed = sealed, oc_cross_sealed = cross_sealed, oc_copied = copied\<rparr>))))"

text \<open>When to pass again.\<close>

definition next_delay :: "seal_outcome \<Rightarrow> duration \<Rightarrow> duration" where
  "next_delay o' every = (if oc_sealed o' then every else min every SEAL_RETRY)"

section \<open>What \<open>/healthz\<close> says\<close>

datatype health_reason = Seal_failing "32 word" | Copy_failing "32 word" | No_cross_seal "32 word"

definition health_reasons :: "seal_state \<Rightarrow> health_reason list" where
  "health_reasons st =
     (if MAX_FAILURES \<le> hs_seal_failures st then [Seal_failing (hs_seal_failures st)] else [])
     @ (if MAX_FAILURES \<le> hs_copy_failures st then [Copy_failing (hs_copy_failures st)] else [])
     @ (if MAX_FAILURES \<le> hs_cross_seal_failures st then [No_cross_seal (hs_cross_seal_failures st)] else [])"

record journal_report =
  jr_degraded :: "health_reason list option"
  jr_detail :: "(string \<times> json) list"

definition health_report :: "seal_lib \<Rightarrow> 'w sealer \<Rightarrow> seal_state \<Rightarrow> journal_report" where
  "health_report K S st =
     (let reasons = health_reasons st;
          time = (\<lambda>t. opt_json JStr (Option.bind t (sb_rfc3339 K))) in
      \<lparr>jr_degraded = (if reasons = [] then None else Some reasons),
       jr_detail = [(''degraded'', JBool (reasons \<noteq> [])),
         (''last_seal'', time (hs_last_seal st)),
         (''seal_failures'', JNum (uint (hs_seal_failures st))),
         (''offsite_copy'', JStr (case se_s3 S of Some _ \<Rightarrow> ''s3''
            | None \<Rightarrow> ''non configur'' @ [CHR 0xC3, CHR 0xA9] @ ''e'')),
         (''last_copy'', time (hs_last_copy st)),
         (''copy_failures'', JNum (uint (hs_copy_failures st))),
         (''cross_tsas'', JNum (int (length (se_cross S)))),
         (''last_cross_seal'', time (hs_last_cross_seal st)),
         (''last_cross_seal_count'', JNum (int (hs_last_cross_seal_count st))),
         (''cross_seal_failures'', JNum (uint (hs_cross_seal_failures st)))]\<rparr>)"

end
