(* ===== verification/Seal_Spec.thy ===== *)
theory Seal_Spec
  imports Seal
begin

text \<open>
  What a pass of the sealer leaves in the journal, with any authority that keeps the contract of the
  trait \<open>Stamper\<close> (the locale \<open>stamper\<close>): the one asked by HTTP and the unit of the timestamping service.
  The journal is the file of \<open>Audit_Log\<close>, to which others write during the pass.
\<close>

section \<open>The journal during a pass\<close>

definition journal_ok :: "seal_lib \<Rightarrow> 'x seal_world_scheme \<Rightarrow> (string \<times> (string \<times> json) list option) list \<Rightarrow> bool" where
  "journal_ok K w es \<longleftrightarrow> (\<exists>logs. log_run (sb_json K) (sw_file w) logs es \<and> logs 0 = Some (sw_log w))"

text \<open>The others write whole entries, through the log of the process or their own, and no write is cut.\<close>

definition sharing :: "seal_lib \<Rightarrow> 'x seal_world_scheme \<Rightarrow> bool" where
  "sharing K w \<longleftrightarrow> (\<forall>n k e. sw_disk w n \<noteq> Fails_writing k e) \<and>
     (\<forall>n f st f' st' logs es. sw_others w n (f, st) = (f', st') \<longrightarrow> log_run (sb_json K) f logs es \<longrightarrow>
        logs 0 = Some st \<longrightarrow> (\<exists>logs' es'. log_run (sb_json K) f' logs' (es @ es') \<and> logs' 0 = Some st'))"

text \<open>The entries since \<open>es\<close>, among which are those of \<open>X\<close>.\<close>

definition recorded :: "seal_lib \<Rightarrow> (string \<times> (string \<times> json) list option) list
    \<Rightarrow> (string \<times> (string \<times> json) list option) set \<Rightarrow> 'x seal_world_scheme \<Rightarrow> bool" where
  "recorded K es X w \<longleftrightarrow> sharing K w \<and> (\<exists>es'. journal_ok K w (es @ es') \<and> X \<subseteq> set es')"

definition holds_copy :: "seal_lib \<Rightarrow> (string \<times> (string \<times> json) list option) list
    \<Rightarrow> (string \<times> (string \<times> json) list option) set \<Rightarrow> bytes \<Rightarrow> bool" where
  "holds_copy K es X body \<longleftrightarrow> (\<exists>logs es'. log_run (sb_json K) body logs (es @ es') \<and> X \<subseteq> set es')"

lemma recorded_less: "recorded K es X w \<Longrightarrow> Y \<subseteq> X \<Longrightarrow> recorded K es Y w"
  unfolding recorded_def by blast

lemma recorded_copy: "recorded K es X w \<Longrightarrow> holds_copy K es X (sw_file w)"
  unfolding recorded_def holds_copy_def journal_ok_def by blast

lemma recorded_local [simp]:
  "recorded K es X (w\<lparr>sw_ticks := n\<rparr>) = recorded K es X w" "recorded K es X (w\<lparr>sw_calls := n\<rparr>) = recorded K es X w"
  "recorded K es X (w\<lparr>sw_appends := n\<rparr>) = recorded K es X w" "recorded K es X (w\<lparr>sw_health := h\<rparr>) = recorded K es X w"
  "recorded K es X (w\<lparr>sw_stored := s\<rparr>) = recorded K es X w"
  by (simp_all add: recorded_def sharing_def journal_ok_def)

text \<open>What the sealer itself changes.\<close>

definition same_rest :: "'x seal_world_scheme \<Rightarrow> 'x seal_world_scheme \<Rightarrow> bool" where
  "same_rest w v \<longleftrightarrow> sw_health v = sw_health w \<and> sw_stored v = sw_stored w \<and> seal_world.more v = seal_world.more w"

lemma recorded_meanwhile:
  assumes "recorded K es X w"
  shows "runs meanwhile (\<lambda>_ v. recorded K es X v \<and> same_rest w v) (\<lambda>_ _. False) w"
proof -
  obtain f st where o: "sw_others w (sw_calls w) (sw_file w, sw_log w) = (f, st)" by fastforce
  from assms obtain es' logs where s: "sharing K w" and r: "log_run (sb_json K) (sw_file w) logs (es @ es')"
    "logs 0 = Some (sw_log w)" "X \<subseteq> set es'" by (auto simp: recorded_def journal_ok_def)
  from s o r(1,2) obtain logs' new where "log_run (sb_json K) f logs' ((es @ es') @ new)" "logs' 0 = Some st"
    unfolding sharing_def by blast
  with s r(3) have "recorded K es X (w\<lparr>sw_file := f, sw_log := st\<rparr>)"
    unfolding recorded_def sharing_def journal_ok_def by (auto intro!: exI [of _ "es' @ new"])
  with o show ?thesis by (auto simp: runs_def meanwhile_def same_rest_def recorded_def sharing_def journal_ok_def)
qed

lemma log_append_ok:
  assumes "log_append J time event data disk st f = (Inr (), st', f')"
  shows "f' \<noteq> f"
proof -
  have "line \<noteq> []" if "record_line J r = Inr line" for r line
    using that by (auto simp: record_line_def wp)
  with assms show ?thesis
    by (auto simp: log_append_def sbind_def split: disk.splits sum.splits)
qed

lemma recorded_append:
  assumes "recorded K es X w"
  shows "runs (append_entry K event data) (\<lambda>_ v. recorded K es (insert (event, data) X) v \<and> same_rest w v)
     (\<lambda>_ v. recorded K es X v \<and> same_rest w v) w"
proof -
  let ?t = "sb_log_time K (sw_clock w (sw_ticks w))"
  obtain res st f where a: "log_append (sb_json K) ?t event data (sw_disk w (sw_appends w)) (sw_log w) (sw_file w)
      = (res, st, f)" by (metis prod_cases3)
  from assms obtain es' logs where s: "sharing K w" and r: "log_run (sb_json K) (sw_file w) logs (es @ es')"
    "logs 0 = Some (sw_log w)" "X \<subseteq> set es'" by (auto simp: recorded_def journal_ok_def)
  from s have disk: "\<And>n e. sw_disk w (sw_appends w) \<noteq> Fails_writing n e" by (simp add: sharing_def)
  from run_append [OF r(1,2) disk a]
  have run: "log_run (sb_json K) f (logs(0 := Some st))
     (if f = sw_file w then es @ es' else (es @ es') @ [(event, data)])" .
  let ?v = "w\<lparr>sw_ticks := sw_ticks w + 1, sw_file := f, sw_log := st, sw_appends := sw_appends w + 1\<rparr>"
  have "recorded K es (if f = sw_file w then X else insert (event, data) X) ?v"
    using s run r(3) unfolding recorded_def sharing_def journal_ok_def
    by (auto intro!: exI [of _ "if f = sw_file w then es' else es' @ [(event, data)]"]
        exI [of _ "logs(0 := Some st)"] split: if_splits)
  moreover have "f \<noteq> sw_file w" if "res = Inr ()" using log_append_ok a that by simp
  ultimately show ?thesis
    using a by (auto simp: append_entry_def run seal_now_def runs_def same_rest_def run_defs
        intro: recorded_less split: sum.split)
qed

section \<open>Authorities of RFC 3161\<close>

definition attests :: "seal_lib \<Rightarrow> bytes \<Rightarrow> attestation \<Rightarrow> bool" where
  "attests K digest a \<longleftrightarrow> (\<exists>body parsed. parsed_token_decode K body = Inr parsed
     \<and> pt_hashed_message parsed = digest \<and> at_token a = sb_base64 K body)"

lemma judged: "judge_answer K url digest answer = Inr a \<Longrightarrow> attests K digest a"
  by (fastforce simp: judge_answer_def wp attests_def split: prod.splits)

lemma same_rest_refl [simp]: "same_rest w w"
  by (simp add: same_rest_def)

lemma same_rest_trans: "same_rest u v \<Longrightarrow> same_rest v w \<Longrightarrow> same_rest u w"
  by (simp add: same_rest_def)

lemma runs_attest:
  assumes "recorded K es X w"
  shows "runs (attest K url digest alg) (\<lambda>a v. attests K digest a \<and> recorded K es X v \<and> same_rest w v)
     (\<lambda>_ v. recorded K es X v \<and> same_rest w v) w"
  unfolding attest_def http_post_def
  using assms by (auto simp: run judged intro!: runs_mono [OF recorded_meanwhile [OF assms]])

lemma runs_client_seal:
  "recorded K es X w \<Longrightarrow> runs (client_seal K urls digest alg)
     (\<lambda>as v. (\<forall>a \<in> set as. attests K digest a) \<and> recorded K es X v \<and> same_rest w v) E w"
proof (induction urls arbitrary: w)
  case (Cons url urls)
  have next_one: "runs (client_seal K urls digest alg)
      (\<lambda>as v. (\<forall>a \<in> set as. attests K digest a) \<and> recorded K es X v \<and> same_rest w v) E v"
    if "recorded K es X v" "same_rest w v" for v
    by (rule runs_mono [OF Cons(1) [OF that(1)]]) (auto intro: same_rest_trans [OF that(2)])
  show ?case
    by (auto simp: run intro!: runs_mono [OF runs_attest [OF Cons(2)]] runs_mono [OF next_one])
qed (simp add: run)

lemma runs_append_all:
  "recorded K es X w \<Longrightarrow> runs (foreach xs (\<lambda>x. append_entry K event (Some (f x))))
     (\<lambda>_ v. recorded K es (X \<union> (\<lambda>x. (event, Some (f x))) ` set xs) v \<and> same_rest w v)
     (\<lambda>_ v. recorded K es X v \<and> same_rest w v) w"
proof (induction xs arbitrary: X w)
  case (Cons x xs)
  have next_one: "runs (foreach xs (\<lambda>x. append_entry K event (Some (f x))))
      (\<lambda>_ v. recorded K es (X \<union> (\<lambda>x. (event, Some (f x))) ` set (x # xs)) v \<and> same_rest w v)
      (\<lambda>_ v. recorded K es X v \<and> same_rest w v) v"
    if "recorded K es (insert (event, Some (f x)) X) v" "same_rest w v" for v
    by (rule runs_mono [OF Cons(1) [OF that(1)]])
      (auto intro: recorded_less same_rest_trans [OF that(2)])
  show ?case
    by (auto simp: run intro!: runs_mono [OF recorded_append [OF Cons(2)]] runs_mono [OF next_one])
qed (simp add: run)

section \<open>The head of the chain\<close>

text \<open>The digest of the crate \<open>sha2\<close> has 32 bytes.\<close>

definition sha256_ok :: "json_lib \<Rightarrow> bool" where
  "sha256_ok J \<longleftrightarrow> (\<forall>b. length (jl_sha256 J b) = 32)"

lemma hex_digit_ascii: "n < 16 \<Longrightarrow> (of_char (hex_digit n) :: nat) < 128"
proof -
  have "list_all (\<lambda>k. (of_char (hex_digit k) :: nat) < 128) [0..<16]"
    by code_simp
  then show "n < 16 \<Longrightarrow> (of_char (hex_digit n) :: nat) < 128" by (simp add: list_all_iff)
qed

lemma hex_encode_ascii: "list_all (\<lambda>c. (of_char c :: nat) < 128) (hex_encode bs)"
  by (induction bs) (simp_all add: hex_byte_def hex_digit_ascii unat_byte_parts)

lemma radix_hex: "radix_pairs (hex_encode bs) = Some bs"
  by (induction bs) (simp_all add: hex_byte_def radix16_def hex_value_digit unat_byte_parts)

lemma decode_head_encode: "length digest = 32 \<Longrightarrow> decode_head (hex_encode digest) = Inr digest"
  by (simp add: decode_head_def hex_encode_ascii radix_hex ok_or_def)

lemma genesis_hex: "GENESIS_HASH = hex_encode (replicate 32 0)"
  by code_simp

lemma head_is_digest:
  assumes "chained J rs head" and "sha256_ok J"
  shows "\<exists>digest. length digest = 32 \<and> head = hex_encode digest"
proof (cases rs)
  case Nil
  with assms(1) show ?thesis by (intro exI [of _ "replicate 32 0"]) (simp add: genesis_hex)
next
  case (Cons r rs')
  with assms(1) obtain b where "hex_encode (jl_sha256 J b) = head"
    by (auto simp: compute_hash_def wp or_else_err_Inr)
  with assms(2) show ?thesis unfolding sha256_ok_def by blast
qed

text \<open>What a pass starts with: the number of entries, and the digest of the last one.\<close>

definition is_head :: "seal_lib \<Rightarrow> bytes \<Rightarrow> (string \<times> (string \<times> json) list option) list \<Rightarrow> head \<Rightarrow> bool" where
  "is_head K f es h \<longleftrightarrow> (\<exists>rep. verify (sb_json K) f = Inr rep \<and> hd_hash h = rp_head rep
     \<and> hd_hash h = hex_encode (hd_digest h) \<and> hd_seq h = of_nat (length es))"

lemma runs_calls:
  "runs (log_head_call K) Q E w \<longleftrightarrow> (case log_head (sb_json K) (sw_log w) (sw_file w) of
     (Inl e, st) \<Rightarrow> E e (w\<lparr>sw_log := st\<rparr>) | (Inr x, st) \<Rightarrow> Q x (w\<lparr>sw_log := st\<rparr>))"
  "runs read_file Q' E' w \<longleftrightarrow> (case sw_unread w (sw_calls w) of
     Some e \<Rightarrow> E' (Seal_io e) (w\<lparr>sw_calls := sw_calls w + 1\<rparr>)
   | None \<Rightarrow> Q' (sw_file w) (w\<lparr>sw_calls := sw_calls w + 1\<rparr>))"
  by (auto simp: runs_def log_head_call_def read_file_def split: prod.split sum.split option.split)

lemma runs_head:
  assumes "journal_ok K w es" and "sharing K w" and "json_ok (sb_json K)" and "sha256_ok (sb_json K)"
    and "Suc (length es) < 2 ^ 64"
  shows "runs (sealer_head K) (\<lambda>h v. is_head K (sw_file w) es h \<and> recorded K es {} v \<and> same_rest w v)
     (\<lambda>_ _. False) w"
proof -
  from assms(1) obtain logs where ran: "log_run (sb_json K) (sw_file w) logs es" "logs 0 = Some (sw_log w)"
    by (auto simp: journal_ok_def)
  from log_run_reads [OF ran(1) assms(3,5)] ran(2) obtain rep rs where
    r: "reads (sb_json K) (sw_file w) rep rs" "map (\<lambda>r. (pl_event r, pl_data r)) rs = es"
      "follows (sb_json K) (sw_file w) (sw_log w)" by blast
  let ?tip = "\<lparr>lg_seq = rp_last rep, lg_head = rp_head rep, lg_offset = length (sw_file w)\<rparr>"
  from catch_up_follows [OF r(1,3)] have head: "log_head (sb_json K) (sw_log w) (sw_file w)
      = (Inr (rp_last rep, rp_head rep), ?tip)" by (simp add: log_head_def)
  from run_head [OF ran] have "log_run (sb_json K) (sw_file w) (logs(0 := Some ?tip)) es"
    unfolding head by simp
  with assms(2) have kept: "recorded K es {} (w\<lparr>sw_log := ?tip\<rparr>)"
    unfolding recorded_def sharing_def journal_ok_def by (auto intro!: exI [of _ "[]"] exI [of _ "logs(0 := Some ?tip)"])
  have "chained (sb_json K) (rev rs) (rp_head rep)"
    using r(1) scan_chained [of "sb_json K" 0 "sw_file w" report_default "[]" 0]
    by (auto simp: reads_def report_default_def)
  from head_is_digest [OF this assms(4)] obtain digest where
    d: "length digest = 32" "rp_head rep = hex_encode digest" by blast
  have "rp_last rep = of_nat (length es)" using r(1,2) by (auto simp: reads_def)
  with reads_seqs(2) [OF r(1)] d have "is_head K (sw_file w) es
      \<lparr>hd_seq = rp_last rep, hd_hash = rp_head rep, hd_digest = digest\<rparr>" by (simp add: is_head_def)
  moreover have "same_rest w (w\<lparr>sw_log := ?tip\<rparr>)" by (simp add: same_rest_def)
  ultimately show ?thesis
    using kept decode_head_encode [OF d(1)] d(2)
    by (simp add: sealer_head_def run runs_calls head)
qed

section \<open>Any authority that seals\<close>

text \<open>What a pass that ended with \<open>o'\<close> has left: its entries \<open>Y\<close>, and the object it stored.\<close>

definition sealed_by :: "seal_lib \<Rightarrow> (bytes \<Rightarrow> bytes \<Rightarrow> bool) \<Rightarrow> head
    \<Rightarrow> (string \<times> (string \<times> json) list option) set \<Rightarrow> bool" where
  "sealed_by K covers h Y \<longleftrightarrow> (\<exists>s. covers (hd_digest h) (sp_token s) \<and> (EVENT_SEALED, Some (seal_data K h s)) \<in> Y)"

definition crossed_by :: "seal_lib \<Rightarrow> nat \<Rightarrow> head \<Rightarrow> (string \<times> (string \<times> json) list option) set \<Rightarrow> bool" where
  "crossed_by K n h Y \<longleftrightarrow> (\<exists>as. length as = n \<and> (\<forall>a \<in> set as. attests K (hd_digest h) a
     \<and> (EVENT_CROSS_SEALED, Some (cross_data h a)) \<in> Y))"

definition copied_by :: "seal_lib \<Rightarrow> string option \<Rightarrow> (string \<times> (string \<times> json) list option) list
    \<Rightarrow> (string \<times> (string \<times> json) list option) set \<Rightarrow> (string \<times> bytes) list \<Rightarrow> bool" where
  "copied_by K target es Y objects \<longleftrightarrow> (\<exists>name body. target = Some name \<and> objects = [(name, body)]
     \<and> (EVENT_REPLICATED, Some (copy_data name body)) \<in> Y
     \<and> holds_copy K es (Y - {(EVENT_REPLICATED, Some (copy_data name body))}) body)"

definition pass_kept :: "seal_lib \<Rightarrow> (bytes \<Rightarrow> bytes \<Rightarrow> bool) \<Rightarrow> string option
    \<Rightarrow> (string \<times> (string \<times> json) list option) list \<Rightarrow> head \<Rightarrow> seal_outcome
    \<Rightarrow> 'x seal_world_scheme \<Rightarrow> 'x seal_world_scheme \<Rightarrow> bool" where
  "pass_kept K covers target es h o' w v \<longleftrightarrow> (\<exists>Y. recorded K es Y v
     \<and> (oc_sealed o' \<longrightarrow> sealed_by K covers h Y)
     \<and> (\<forall>n. oc_cross_sealed o' = Some n \<longrightarrow> crossed_by K n h Y)
     \<and> (oc_copied o' = Some True \<longrightarrow> (\<exists>objects. sw_stored v = sw_stored w @ objects \<and> copied_by K target es Y objects)))"

text \<open>The contract of \<open>Stamper\<close>: others may write while it works, but nothing is lost; what it returns is
  the timestamp of the digest given.\<close>

locale stamper =
  fixes K :: seal_lib and stamp :: "bytes \<Rightarrow> ('x seal_world_scheme, string, stamp) res"
    and ready :: "'x seal_world_scheme \<Rightarrow> bool" and covers :: "bytes \<Rightarrow> bytes \<Rightarrow> bool"
  assumes stamps: "ready w \<Longrightarrow> recorded K es X w \<Longrightarrow> runs (stamp digest)
        (\<lambda>s v. ready v \<and> recorded K es X v \<and> sw_stored v = sw_stored w \<and> covers digest (sp_token s))
        (\<lambda>_ v. ready v \<and> recorded K es X v \<and> sw_stored v = sw_stored w) w"
    and own: "seal_world.more v = seal_world.more w \<Longrightarrow> ready w \<Longrightarrow> ready v"
begin

definition going :: "(string \<times> (string \<times> json) list option) list \<Rightarrow> (string \<times> (string \<times> json) list option) set
    \<Rightarrow> (string \<times> bytes) list \<Rightarrow> 'x seal_world_scheme \<Rightarrow> bool" where
  "going es X stored w \<longleftrightarrow> ready w \<and> recorded K es X w \<and> sw_stored w = stored"

lemma ready_more: "seal_world.more v = seal_world.more w \<Longrightarrow> ready v = ready w"
  using own [of v w] own [of w v] by metis

lemma going_same: "going es X stored w \<Longrightarrow> same_rest w v \<Longrightarrow> recorded K es Y v \<Longrightarrow> going es Y stored v"
  by (auto simp: going_def same_rest_def intro: own)

lemma going_less: "going es X stored w \<Longrightarrow> Y \<subseteq> X \<Longrightarrow> going es Y stored w"
  by (auto simp: going_def intro: recorded_less)

lemma going_local [simp]:
  "going es X stored (w\<lparr>sw_ticks := n\<rparr>) = going es X stored w"
  "going es X stored (w\<lparr>sw_calls := n\<rparr>) = going es X stored w"
  "going es X stored (w\<lparr>sw_health := h\<rparr>) = going es X stored w"
  using ready_more [of "w\<lparr>sw_ticks := n\<rparr>" w] ready_more [of "w\<lparr>sw_calls := n\<rparr>" w]
    ready_more [of "w\<lparr>sw_health := h\<rparr>" w]
  by (simp_all add: going_def)

lemma going_recorded: "going es X stored w \<Longrightarrow> recorded K es X w"
  by (simp add: going_def)

lemma going_append:
  assumes "going es X stored w"
  shows "runs (append_entry K event data) (\<lambda>_. going es (insert (event, data) X) stored) (\<lambda>_. going es X stored) w"
  by (rule runs_mono [OF recorded_append [OF going_recorded [OF assms]]]) (auto intro: going_same [OF assms])

lemma going_noted:
  "runs (note_health f) Q E w \<longleftrightarrow>
     Q () (w\<lparr>sw_ticks := sw_ticks w + 1, sw_health := f (sw_clock w (sw_ticks w)) (sw_health w)\<rparr>)"
  "runs (set_health g) Q E w \<longleftrightarrow> Q () (w\<lparr>sw_health := g (sw_health w)\<rparr>)"
  by (simp_all add: note_health_def set_health_def seal_now_def runs_def run_defs)

lemma going_seal:
  assumes "going es X stored w" and "se_stamper S = stamp"
  shows "runs (seal_stage K S (Inr h)) (\<lambda>sealed v. \<exists>Y. going es (X \<union> Y) stored v
     \<and> (sealed \<longrightarrow> sealed_by K covers h Y)) E w"
proof -
  have w: "ready w" "recorded K es X w" "sw_stored w = stored" using assms(1) by (auto simp: going_def)
  define Q where "Q sealed v \<longleftrightarrow> (\<exists>Y. going es (X \<union> Y) stored v
     \<and> (sealed \<longrightarrow> sealed_by K covers h Y))"
    for sealed v
  have noted: "Q b (v\<lparr>sw_ticks := n\<rparr>) = Q b v" "Q b (v\<lparr>sw_health := g\<rparr>) = Q b v" for b v n g
    by (simp_all add: Q_def)
  have failed: "Q False v" if "going es X stored v" for v
    using that unfolding Q_def by (intro exI [of _ "{}"]) simp
  have logged: "Q True v" if "going es (insert (EVENT_SEALED, Some (seal_data K h s)) X) stored v"
      "covers (hd_digest h) (sp_token s)" for v s
    using that unfolding Q_def sealed_by_def by (intro exI [of _ "{(EVENT_SEALED, Some (seal_data K h s))}"]) auto
  have entry: "runs (append_entry K EVENT_SEALED (Some (seal_data K h s))) (\<lambda>_ v. Q True v) (\<lambda>_ v. Q False v) v"
    if "going es X stored v" "covers (hd_digest h) (sp_token s)" for v s
    by (rule runs_mono [OF going_append [OF that(1)]]) (auto intro: logged [OF _ that(2)] failed)
  have "runs (seal_head K S h) (\<lambda>_ v. Q True v) (\<lambda>_ v. Q False v) w"
    unfolding seal_head_def run assms(2)
    by (rule runs_mono [OF stamps [OF w(1,2)]]) (auto simp: going_def w(3) intro!: entry failed)
  then show ?thesis
    unfolding seal_stage_def Q_def [symmetric] by (auto simp: run going_noted noted elim!: runs_mono)
qed

lemma going_cross:
  assumes "going es X stored w"
  shows "runs (cross_stage K S (Inr h)) (\<lambda>r v. \<exists>Y. going es (X \<union> Y) stored v
     \<and> (\<forall>n. r = Some n \<longrightarrow> crossed_by K n h Y)) E w"
proof -
  define Q where "Q n v \<longleftrightarrow> (\<exists>Y. going es (X \<union> Y) stored v \<and> crossed_by K n h Y)" for n v
  have noted: "Q b (v\<lparr>sw_ticks := n\<rparr>) = Q b v" "Q b (v\<lparr>sw_health := g\<rparr>) = Q b v" for b v n g
    by (simp_all add: Q_def)
  have failed: "Q 0 v" if "recorded K es X v" "same_rest w v" for v
    using going_same [OF assms that(2,1)] unfolding Q_def by (intro exI [of _ "{}"]) (simp add: crossed_by_def)
  have logged: "Q (length as) v"
    if "recorded K es (X \<union> (\<lambda>a. (EVENT_CROSS_SEALED, Some (cross_data h a))) ` set as) v" "same_rest w v"
      "\<forall>a \<in> set as. attests K (hd_digest h) a" for v as
    using going_same [OF assms that(2,1)] that(3) unfolding Q_def crossed_by_def by blast
  have entries: "runs (foreach as (\<lambda>a. append_entry K EVENT_CROSS_SEALED (Some (cross_data h a))))
      (\<lambda>_. Q (length as)) (\<lambda>_. Q 0) v"
    if "recorded K es X v" "same_rest w v" "\<forall>a \<in> set as. attests K (hd_digest h) a" for v as
    by (rule runs_mono [OF runs_append_all [OF that(1)]])
      (auto intro!: logged failed intro: same_rest_trans [OF that(2)] simp: that(3))
  have "recorded K es X w" using assms by (simp add: going_def)
  from runs_client_seal [OF this] have "runs (cross_seal K (se_cross S) h) Q (\<lambda>_. Q 0) w"
    unfolding cross_seal_def run by (rule runs_mono) (auto intro: entries)
  then have "runs (cross_stage K S (Inr h)) (\<lambda>r v. \<exists>n. (r = None \<and> v = w \<or> r = Some n \<and> Q n v)) E w"
    unfolding cross_stage_def by (auto simp: run going_noted noted Let_def elim!: runs_mono)
  then show ?thesis
  proof (rule runs_mono)
    fix r v assume "\<exists>n. (r = None \<and> v = w \<or> r = Some n \<and> Q n v)"
    then show "\<exists>Y. going es (X \<union> Y) stored v \<and> (\<forall>n. r = Some n \<longrightarrow> crossed_by K n h Y)"
    proof (elim exE disjE conjE)
      assume "r = None" "v = w"
      with assms show ?thesis by (intro exI [of _ "{}"]) simp
    qed (auto simp: Q_def)
  qed
qed

lemma going_copy:
  assumes "going es X stored w"
  shows "runs (copy_stage K S) (\<lambda>r v. \<exists>Y. recorded K es (X \<union> Y) v \<and> (r = Some True \<longrightarrow> (\<exists>name body.
     se_s3 S = Some name \<and> sw_stored v = stored @ [(name, body)] \<and> holds_copy K es X body
     \<and> Y = {(EVENT_REPLICATED, Some (copy_data name body))}))) E w"
proof (cases "se_s3 S")
  case None
  then show ?thesis using assms by (auto simp: copy_stage_def run going_def intro!: exI [of _ "{}"])
next
  case (Some name)
  define Q where "Q good v \<longleftrightarrow> (\<exists>Y. recorded K es (X \<union> Y) v \<and> (good \<longrightarrow> (\<exists>body.
     sw_stored v = stored @ [(name, body)] \<and> holds_copy K es X body
     \<and> Y = {(EVENT_REPLICATED, Some (copy_data name body))})))" for good and v :: "'x seal_world_scheme"
  have noted: "Q b (v\<lparr>sw_ticks := n\<rparr>) = Q b v" "Q b (v\<lparr>sw_health := g\<rparr>) = Q b v" for b v n g
    by (simp_all add: Q_def)
  have failed: "Q False v" if "recorded K es X v" for v
    using that unfolding Q_def by (intro exI [of _ "{}"]) simp
  have logged: "Q True v"
    if "recorded K es (insert (EVENT_REPLICATED, Some (copy_data name body)) X) v"
      "sw_stored v = stored @ [(name, body)]" "holds_copy K es X body" for v body
    using that unfolding Q_def by auto
  have entry: "runs (append_entry K EVENT_REPLICATED (Some (copy_data name body))) (\<lambda>_. Q True) (\<lambda>_. Q False)
      (v\<lparr>sw_stored := sw_stored v @ [(name, body)]\<rparr>)"
    if "recorded K es X v" "sw_stored v = stored" "holds_copy K es X body" for v body
    by (rule runs_mono [OF recorded_append [of K es X]])
      (auto simp: that(1,2) same_rest_def intro!: logged failed that(3))
  have put: "runs (put_object name body) (\<lambda>_ v. runs (append_entry K EVENT_REPLICATED (Some (copy_data name body)))
      (\<lambda>_. Q True) (\<lambda>_. Q False) v) (\<lambda>_. Q False) v"
    if "recorded K es X v" "sw_stored v = stored" "holds_copy K es X body" for v body
    unfolding put_object_def
    by (auto simp: run that(2) intro!: runs_mono [OF recorded_meanwhile [OF that(1)]] failed)
      (auto simp: same_rest_def that(2) intro!: entry that(3) that(2) [symmetric])
  have "runs (copy_log K name) (\<lambda>_. Q True) (\<lambda>_. Q False) w"
    using assms recorded_copy [of K es X w]
    by (auto simp: copy_log_def run runs_calls going_def
        intro!: put failed split: option.split)
  then have "runs (copy_stage K S) (\<lambda>r v. \<exists>b. r = Some b \<and> Q b v) E w"
    unfolding copy_stage_def using Some by (auto simp: run going_noted noted elim!: runs_mono)
  then show ?thesis
    by (rule runs_mono) (use Some in \<open>auto simp: Q_def\<close>)
qed

lemma once_kept:
  assumes "journal_ok K w es" and "sharing K w" and "json_ok (sb_json K)" and "sha256_ok (sb_json K)"
    and "Suc (length es) < 2 ^ 64" and "ready w" and "se_stamper S = stamp"
  shows "runs (once K S) (\<lambda>o' v. \<exists>h. is_head K (sw_file w) es h \<and> pass_kept K covers (se_s3 S) es h o' w v) E w"
proof -
  define Q where "Q o' v \<longleftrightarrow> (\<exists>h. is_head K (sw_file w) es h \<and> pass_kept K covers (se_s3 S) es h o' w v)" for o' v
  have last: "Q \<lparr>oc_sealed = sealed, oc_cross_sealed = crossed, oc_copied = copied\<rparr> v"
    if "is_head K (sw_file w) es h" "sealed \<longrightarrow> sealed_by K covers h X" "\<forall>n. crossed = Some n \<longrightarrow> crossed_by K n h X'"
      "recorded K es ((X \<union> X') \<union> Y) v" "copied = Some True \<longrightarrow> (\<exists>name body. se_s3 S = Some name
        \<and> sw_stored v = sw_stored w @ [(name, body)] \<and> holds_copy K es (X \<union> X') body
        \<and> Y = {(EVENT_REPLICATED, Some (copy_data name body))})" for h sealed crossed copied X X' Y v
  proof -
    have "sealed \<longrightarrow> sealed_by K covers h ((X \<union> X') \<union> Y)" using that(2) by (auto simp: sealed_by_def)
    moreover have "\<forall>n. crossed = Some n \<longrightarrow> crossed_by K n h ((X \<union> X') \<union> Y)"
      using that(3) unfolding crossed_by_def by blast
    moreover have "holds_copy K es ((X \<union> X') \<union> Y - Y) body" if "holds_copy K es (X \<union> X') body" for body
      using that by (auto simp: holds_copy_def)
    ultimately show ?thesis
      using that(1,4,5) unfolding Q_def pass_kept_def copied_by_def by (intro exI [of _ h] conjI exI [of _ "(X \<union> X') \<union> Y"]) auto
  qed
  have copy: "runs (copy_stage K S) (\<lambda>copied. Q \<lparr>oc_sealed = sealed, oc_cross_sealed = crossed, oc_copied = copied\<rparr>) E v"
    if "is_head K (sw_file w) es h" "sealed \<longrightarrow> sealed_by K covers h X" "\<forall>n. crossed = Some n \<longrightarrow> crossed_by K n h X'"
      "going es (X \<union> X') (sw_stored w) v" for h sealed crossed X X' v
    by (rule runs_mono [OF going_copy [OF that(4)]]) (auto intro: last [OF that(1-3)])
  have cross: "runs (cross_stage K S (Inr h)) (\<lambda>crossed. runs (copy_stage K S)
        (\<lambda>copied. Q \<lparr>oc_sealed = sealed, oc_cross_sealed = crossed, oc_copied = copied\<rparr>) E) E v"
    if "is_head K (sw_file w) es h" "sealed \<longrightarrow> sealed_by K covers h X" "going es X (sw_stored w) v" for h sealed X v
    by (rule runs_mono [OF going_cross [OF that(3)]]) (auto intro: copy [OF that(1,2)])
  have seal: "runs (seal_stage K S (Inr h)) (\<lambda>sealed. runs (cross_stage K S (Inr h)) (\<lambda>crossed. runs (copy_stage K S)
        (\<lambda>copied. Q \<lparr>oc_sealed = sealed, oc_cross_sealed = crossed, oc_copied = copied\<rparr>) E) E) E v"
    if "is_head K (sw_file w) es h" "going es {} (sw_stored w) v" for h v
    by (rule runs_mono [OF going_seal [OF that(2) assms(7)]]) (auto intro: cross [OF that(1)])
  have started: "going es {} (sw_stored w) v" if "recorded K es {} v" "same_rest w v" for v
    using that assms(6) by (auto simp: going_def same_rest_def intro: own)
  show ?thesis
    unfolding once_def run Q_def [symmetric]
    by (rule runs_mono [OF runs_head [OF assms(1-5)]])
      (auto intro!: runs_mono [OF seal [OF _ started]])
qed

end

section \<open>The two authorities of the house\<close>

text \<open>The crate \<open>base64\<close> reads back what it wrote.\<close>

definition base64_ok :: "seal_lib \<Rightarrow> bool" where
  "base64_ok K \<longleftrightarrow> (\<forall>b. sb_unbase64 K (sb_base64 K b) = Inr b)"

text \<open>A response, read as the sealer reads it, that has the digest.\<close>

definition token_for :: "seal_lib \<Rightarrow> bytes \<Rightarrow> bytes \<Rightarrow> bool" where
  "token_for K digest token \<longleftrightarrow> (\<exists>p. parsed_token_decode K token = Inr p \<and> pt_hashed_message p = digest)"

interpretation http: stamper K "http_stamper K url" "\<lambda>_. base64_ok K" "token_for K" for K url
proof unfold_locales
  fix w :: "'x seal_world_scheme" and es X digest
  assume w: "base64_ok K" "recorded K es X w"
  then show "runs (http_stamper K url digest)
      (\<lambda>s v. base64_ok K \<and> recorded K es X v \<and> sw_stored v = sw_stored w \<and> token_for K digest (sp_token s))
      (\<lambda>_ v. base64_ok K \<and> recorded K es X v \<and> sw_stored v = sw_stored w) w"
    unfolding http_stamper_def run
    by (intro runs_mono [OF runs_attest [OF w(2)]])
      (auto simp: same_rest_def attests_def base64_ok_def token_for_def)
qed

text \<open>A response of the unit of the service: granted for the digest, with a key that was controlled.\<close>

definition unit_token :: "tsa_lib \<Rightarrow> tsa_options \<Rightarrow> bytes \<Rightarrow> bytes \<Rightarrow> bool" where
  "unit_token L A digest token \<longleftrightarrow> (\<exists>m req t info parts. grants L A m req t info parts token
     \<and> in_order (tb_deps L) m \<and> mi_hashed_message (ti_message_imprint info) = digest)"

definition unit_ready :: "tsa_lib \<Rightarrow> server_lib \<Rightarrow> options \<Rightarrow> tsa_options \<Rightarrow> tsu_world \<Rightarrow> bool" where
  "unit_ready L S M A w \<longleftrightarrow> service_ok L S M A (sw_tsa w) \<and> token_lib_ok (tb_token L)
     \<and> codec_ok (tl_request (tb_token L)) \<and> to_clock A = monitor_clock S M \<and> to_recorder A = Some (tsa_audit_append S)"

lemma unit_timestamp:
  assumes "unit_ready L S M A w" and "to_der (tl_request (tb_token L)) (attest_request alg digest) = Inr request"
    and "timestamp L A request (sw_tsa w) = (r, t)"
  shows "service_ok L S M A t" and "r = Inr token \<Longrightarrow> unit_token L A digest token"
proof -
  note ready = assms(1) [unfolded unit_ready_def]
  from ready have sound: "sound (monitored (sl_time S) M) (in_journal S) L A (sw_tsa w)"
    and order: "in_order (tb_deps L) (ts_material (sw_tsa w))" by (simp_all add: service_ok_def)
  have "keeps (service_ok L S M A) (timestamp L A request)"
    using ready service.keeps_sound_timestamp [of A S M L request]
      service.keeps_material [of A S M "in_order (tb_deps L)" L request]
    by (simp add: keeps_def service_ok_def)
  with ready assms(3) show "service_ok L S M A t" by (metis keeps_def snd_conv)
  assume r: "r = Inr token"
  from runs_okD [OF service.runs_timestamp [OF _ _ _ sound] assms(3) [unfolded r]] ready
  obtain req i info parts where admitted: "admit L A request = Inr req"
    and granted: "grants L A (ts_material (sw_tsa w)) req i info parts token" by auto
  have "from_der (tl_request (tb_token L)) request = Inr (attest_request alg digest)"
    using ready assms(2) by (auto intro: codec_okD)
  with admitted have "req = attest_request alg digest" by (auto simp: admit_def wp Let_def)
  with granted have "mi_hashed_message (ti_message_imprint info) = digest"
    by (auto simp: grants_def stamps_def attest_request_def)
  with granted order show "unit_token L A digest token" unfolding unit_token_def by blast
qed

lemma unit_more: "seal_world.more v = seal_world.more w \<Longrightarrow> sw_tsa v = sw_tsa w"
  by (cases v; cases w) simp

lemma recorded_unit [simp]: "recorded K es X (w\<lparr>sw_tsa := t\<rparr>) = recorded K es X w"
  by (simp add: recorded_def sharing_def journal_ok_def)

lemma runs_ask_unit:
  "runs (ask_unit L A request) Q E w \<longleftrightarrow> (\<forall>r t. timestamp L A request (sw_tsa w) = (r, t) \<longrightarrow> Q r (w\<lparr>sw_tsa := t\<rparr>))"
  by (auto simp: runs_def ask_unit_def split: prod.split)

interpretation unit: stamper K "authority_stamper K L A" "unit_ready L S M A" "unit_token L A" for K L S M A
proof unfold_locales
  fix w :: tsu_world and es X digest
  assume w: "unit_ready L S M A w" "recorded K es X w"
  have went: "runs meanwhile (\<lambda>_ v. unit_ready L S M A v \<and> recorded K es X v \<and> sw_stored v = sw_stored w) (\<lambda>_ _. False)
      (w\<lparr>sw_tsa := t\<rparr>)" if "service_ok L S M A t" for t
    using w that by (intro runs_mono [OF recorded_meanwhile [of K es X "w\<lparr>sw_tsa := t\<rparr>"]])
      (auto simp: same_rest_def unit_ready_def dest: unit_more)
  show "runs (authority_stamper K L A digest)
      (\<lambda>s v. unit_ready L S M A v \<and> recorded K es X v \<and> sw_stored v = sw_stored w \<and> unit_token L A digest (sp_token s))
      (\<lambda>_ v. unit_ready L S M A v \<and> recorded K es X v \<and> sw_stored v = sw_stored w) w"
    unfolding authority_stamper_def run runs_ask_unit
    using w by (auto intro!: runs_mono [OF went [OF unit_timestamp(1) [OF w(1)]]]
        unit_timestamp(2) [OF w(1)] simp: or_else_err_Inr run)
qed (auto simp: unit_ready_def dest: unit_more)

section \<open>The health of the sealer\<close>

text \<open>Passes one after the other; between them the rest of the service does what it wants with the world,
  but for the state of the sealer.\<close>

inductive seal_life :: "seal_lib \<Rightarrow> 'x seal_world_scheme sealer \<Rightarrow> 'x seal_world_scheme \<Rightarrow> seal_outcome list
    \<Rightarrow> 'x seal_world_scheme \<Rightarrow> bool" for K S w where
  life_start: "seal_life K S w [] w"
| life_pass: "seal_life K S w os u \<Longrightarrow> once K S u = (Inr o' :: unit + seal_outcome, v) \<Longrightarrow> seal_life K S w (os @ [o']) v"
| life_others: "seal_life K S w os u \<Longrightarrow> sw_health v = sw_health u \<Longrightarrow> seal_life K S w os v"

definition quiet :: "'x seal_world_scheme sealer \<Rightarrow> bool" where
  "quiet S \<longleftrightarrow> (\<forall>h digest. keeps (\<lambda>w. sw_health w = h) (se_stamper S digest))"

lemma keeps_health_calls:
  "keeps (\<lambda>w. sw_health w = h) meanwhile" "keeps (\<lambda>w. sw_health w = h) seal_now"
  "keeps (\<lambda>w. sw_health w = h) (log_head_call K)" "keeps (\<lambda>w. sw_health w = h) read_file"
  "keeps (\<lambda>w. sw_health w = h) (ask_unit L A request)"
  "keeps (\<lambda>w. sw_health w = h) (modify (\<lambda>w. w\<lparr>sw_stored := f w\<rparr>))"
  by (auto simp: keeps_def modify_def meanwhile_def seal_now_def log_head_call_def read_file_def ask_unit_def Let_def
      split: prod.split option.split)

lemma keeps_health_append: "keeps (\<lambda>w. sw_health w = h) (append_entry K event data)"
proof -
  have "keeps (\<lambda>w. sw_health w = h) (\<lambda>w. case log_append (sb_json K) t event data (sw_disk w (sw_appends w)) (sw_log w) (sw_file w) of
      (res, st, f) \<Rightarrow> (res, w\<lparr>sw_file := f, sw_log := st, sw_appends := sw_appends w + 1\<rparr>))" for t
    by (auto simp: keeps_def split: prod.split)
  then show ?thesis unfolding append_entry_def by (intro pres keeps_health_calls)
qed

lemma keeps_health_attest: "keeps (\<lambda>w. sw_health w = h) (attest K url digest alg)"
  unfolding attest_def http_post_def by (intro pres keeps_health_calls)

lemma keeps_health_client: "keeps (\<lambda>w. sw_health w = h) (client_seal K urls digest alg)"
  by (induction urls) (auto intro!: pres keeps_health_attest)

lemma quiet_stampers:
  "se_stamper S = http_stamper K url \<Longrightarrow> quiet S" "se_stamper S' = authority_stamper K L A \<Longrightarrow> quiet S'"
  unfolding quiet_def http_stamper_def authority_stamper_def
  by (auto intro!: pres keeps_health_attest keeps_health_calls)

lemma runs_health:
  "keeps (\<lambda>w. sw_health w = h) m \<Longrightarrow> sw_health w = h \<Longrightarrow> (\<And>x v. sw_health v = h \<Longrightarrow> Q x v) \<Longrightarrow>
     (\<And>e v. sw_health v = h \<Longrightarrow> E e v) \<Longrightarrow> runs m Q E w"
  using runs_mono [OF runs_keeps [of "\<lambda>w. sw_health w = h" m w]] by blast

lemma runs_health_attempt:
  assumes "\<And>h. keeps (\<lambda>w. sw_health w = h) m" and "\<And>r v. sw_health v = sw_health w \<Longrightarrow> Q r v"
  shows "runs (attempt m) Q E w"
  unfolding runs_attempt by (rule runs_health [OF assms(1) refl]) (use assms(2) in auto)

lemma runs_notes:
  "runs (note_health f) Q E w \<longleftrightarrow>
     Q () (w\<lparr>sw_ticks := sw_ticks w + 1, sw_health := f (sw_clock w (sw_ticks w)) (sw_health w)\<rparr>)"
  "runs (set_health g) Q E w \<longleftrightarrow> Q () (w\<lparr>sw_health := g (sw_health w)\<rparr>)"
  by (simp_all add: note_health_def set_health_def seal_now_def runs_def run_defs)

text \<open>One pass counts one failure, or starts again from zero, for each of the three.\<close>

definition counted :: "'x seal_world_scheme sealer \<Rightarrow> seal_state \<Rightarrow> seal_outcome \<Rightarrow> seal_state \<Rightarrow> bool" where
  "counted S a o' b \<longleftrightarrow> hs_seal_failures b = (if oc_sealed o' then 0 else one_more (hs_seal_failures a))
     \<and> (case oc_cross_sealed o' of
          None \<Rightarrow> se_cross S = [] \<and> hs_cross_seal_failures b = hs_cross_seal_failures a
        | Some n \<Rightarrow> se_cross S \<noteq> [] \<and> hs_cross_seal_failures b = (if n = 0 then one_more (hs_cross_seal_failures a) else 0))
     \<and> (case oc_copied o' of
          None \<Rightarrow> se_s3 S = None \<and> hs_copy_failures b = hs_copy_failures a
        | Some good \<Rightarrow> se_s3 S \<noteq> None \<and> hs_copy_failures b = (if good then 0 else one_more (hs_copy_failures a)))"

lemma runs_stages:
  assumes "quiet S"
  shows "runs (seal_stage K S head) (\<lambda>b v. hs_seal_failures (sw_health v) = (if b then 0 else one_more (hs_seal_failures (sw_health w)))
      \<and> hs_cross_seal_failures (sw_health v) = hs_cross_seal_failures (sw_health w)
      \<and> hs_copy_failures (sw_health v) = hs_copy_failures (sw_health w)) E w"
    and "runs (cross_stage K S head) (\<lambda>r v. hs_seal_failures (sw_health v) = hs_seal_failures (sw_health w)
      \<and> (case r of None \<Rightarrow> se_cross S = [] \<and> hs_cross_seal_failures (sw_health v) = hs_cross_seal_failures (sw_health w)
        | Some n \<Rightarrow> se_cross S \<noteq> [] \<and> hs_cross_seal_failures (sw_health v) =
            (if n = 0 then one_more (hs_cross_seal_failures (sw_health w)) else 0))
      \<and> hs_copy_failures (sw_health v) = hs_copy_failures (sw_health w)) E w"
    and "runs (copy_stage K S) (\<lambda>r v. hs_seal_failures (sw_health v) = hs_seal_failures (sw_health w)
      \<and> hs_cross_seal_failures (sw_health v) = hs_cross_seal_failures (sw_health w)
      \<and> (case r of None \<Rightarrow> se_s3 S = None \<and> hs_copy_failures (sw_health v) = hs_copy_failures (sw_health w)
        | Some good \<Rightarrow> se_s3 S \<noteq> None \<and> hs_copy_failures (sw_health v) =
            (if good then 0 else one_more (hs_copy_failures (sw_health w))))) E w"
proof -
  have "keeps (\<lambda>v. sw_health v = h) (bindr (lift head) (seal_head K S))" for h
    unfolding seal_head_def using assms by (auto intro!: pres keeps_health_append simp: quiet_def)
  from runs_health [OF this refl] show "runs (seal_stage K S head)
      (\<lambda>b v. hs_seal_failures (sw_health v) = (if b then 0 else one_more (hs_seal_failures (sw_health w)))
      \<and> hs_cross_seal_failures (sw_health v) = hs_cross_seal_failures (sw_health w)
      \<and> hs_copy_failures (sw_health v) = hs_copy_failures (sw_health w)) E w"
    unfolding seal_stage_def runs_bindr runs_attempt by (simp add: run runs_notes)
  have "keeps (\<lambda>v. sw_health v = h) (bindr (lift head) (cross_seal K (se_cross S)))" for h
    unfolding cross_seal_def by (auto intro!: pres keeps_health_append keeps_health_client)
  note crossed = runs_health_attempt [OF this]
  show "runs (cross_stage K S head)
      (\<lambda>r v. hs_seal_failures (sw_health v) = hs_seal_failures (sw_health w)
      \<and> (case r of None \<Rightarrow> se_cross S = [] \<and> hs_cross_seal_failures (sw_health v) = hs_cross_seal_failures (sw_health w)
        | Some n \<Rightarrow> se_cross S \<noteq> [] \<and> hs_cross_seal_failures (sw_health v) =
            (if n = 0 then one_more (hs_cross_seal_failures (sw_health w)) else 0))
      \<and> hs_copy_failures (sw_health v) = hs_copy_failures (sw_health w)) E w"
  proof (cases "se_cross S = []")
    case True
    then show ?thesis by (simp add: cross_stage_def run)
  next
    case False
    then show ?thesis
      unfolding cross_stage_def if_not_P [OF False] runs_bindr
      by (intro crossed) (auto simp: run runs_notes Let_def)
  qed
  have copied: "keeps (\<lambda>v. sw_health v = h) (copy_log K name)" for h name
    unfolding copy_log_def put_object_def
    by (auto intro!: pres keeps_health_append keeps_health_calls split: option.split)
  show "runs (copy_stage K S)
      (\<lambda>r v. hs_seal_failures (sw_health v) = hs_seal_failures (sw_health w)
      \<and> hs_cross_seal_failures (sw_health v) = hs_cross_seal_failures (sw_health w)
      \<and> (case r of None \<Rightarrow> se_s3 S = None \<and> hs_copy_failures (sw_health v) = hs_copy_failures (sw_health w)
        | Some good \<Rightarrow> se_s3 S \<noteq> None \<and> hs_copy_failures (sw_health v) =
            (if good then 0 else one_more (hs_copy_failures (sw_health w))))) E w"
    proof (cases "se_s3 S")
    case None
    then show ?thesis by (simp add: copy_stage_def run)
  next
    case (Some name)
    then show ?thesis
      unfolding copy_stage_def Some option.case runs_bindr
      by (intro runs_health_attempt [OF copied]) (auto simp: run runs_notes)
  qed
qed

lemma once_counted:
  fixes w v :: "'x seal_world_scheme"
  assumes "quiet S" and "once K S w = (Inr o', v)"
  shows "counted S (sw_health w) o' (sw_health v)"
proof -
  have health: "runs (sealer_head K) (\<lambda>_ v. sw_health v = sw_health w) (\<lambda>_ v. sw_health v = sw_health w) w"
    unfolding sealer_head_def
    by (rule runs_health [OF _ refl]) (auto intro!: pres keeps_health_calls split: prod.split)
  have "runs (once K S) (\<lambda>o' v. counted S (sw_health w) o' (sw_health v)) (\<lambda>_ _. True) w"
    unfolding once_def run
    by (rule runs_mono [OF health]; rule runs_mono [OF runs_stages(1) [OF assms(1), of K]];
        (rule runs_mono [OF runs_stages(2) [OF assms(1), of K]])?;
        (rule runs_mono [OF runs_stages(3) [OF assms(1), of K]])?)
      (auto simp: counted_def split: option.splits if_splits)
  from runs_okD [OF this assms(2)] show ?thesis .
qed

text \<open>The failures in a row at the end.\<close>

definition streak :: "(seal_outcome \<Rightarrow> bool) \<Rightarrow> seal_outcome list \<Rightarrow> nat" where
  "streak failed os = length (takeWhile failed (rev os))"

lemma streak_simps [simp]:
  "streak failed [] = 0" "streak failed (os @ [o']) = (if failed o' then Suc (streak failed os) else 0)"
  by (simp_all add: streak_def)

definition capped :: "nat \<Rightarrow> 32 word" where "capped n = word_of_nat (min n 4294967295)"

lemma unat_capped: "unat (capped n) = min n 4294967295"
  by (simp add: capped_def unat_of_nat min_def)

lemma one_more_capped: "one_more (capped n) = capped (Suc n)"
proof (cases "n < 4294967295")
  case True
  then have "capped n \<noteq> 4294967295" using unat_capped [of n] by auto
  with True show ?thesis by (simp add: one_more_def capped_def)
qed (simp add: one_more_def capped_def)

definition health_counts :: "'x seal_world_scheme sealer \<Rightarrow> seal_outcome list \<Rightarrow> seal_state \<Rightarrow> bool" where
  "health_counts S os st \<longleftrightarrow> hs_seal_failures st = capped (streak (\<lambda>o'. \<not> oc_sealed o') os)
     \<and> hs_cross_seal_failures st = capped (streak (\<lambda>o'. oc_cross_sealed o' = Some 0) os)
     \<and> hs_copy_failures st = capped (streak (\<lambda>o'. oc_copied o' = Some False) os)
     \<and> (se_cross S = [] \<longrightarrow> hs_cross_seal_failures st = 0) \<and> (se_s3 S = None \<longrightarrow> hs_copy_failures st = 0)"

lemma capped_0 [simp]: "capped 0 = 0"
  by (simp add: capped_def)

lemma life_counts:
  assumes "seal_life K S w os v" and "quiet S" and "sw_health w = seal_state_default"
  shows "health_counts S os (sw_health v)"
  using assms(1)
proof (induction rule: seal_life.induct)
  case life_start
  show ?case using assms(3) by (simp add: health_counts_def seal_state_default_def)
next
  case (life_pass os u o' v)
  from once_counted [OF assms(2) life_pass(2)] life_pass(3) show ?case
    by (auto simp: counted_def health_counts_def one_more_capped split: option.splits if_splits)
qed simp

section \<open>The properties\<close>


text \<open>C33. The seal of a service that asks another over HTTP. The same holds of the certification and
  registration services, which ask an authority by its address: whatever the network answers, a pass ends,
  loses no entry, and says that it sealed only if the journal has a new entry with a response that, read
  back, has the digest of the head of the chain at the beginning of the pass.\<close>

theorem remote_seal_covers_the_journal:
  fixes w :: "'x seal_world_scheme"
  assumes "se_stamper Z = http_stamper K url" and "base64_ok K"
    and "journal_ok K w es" and "sharing K w" and "json_ok (sb_json K)" and "sha256_ok (sb_json K)"
    and "Suc (length es) < 2 ^ 64"
  shows "\<exists>o' v h. once K Z w = (Inr o' :: unit + seal_outcome, v) \<and> is_head K (sw_file w) es h
     \<and> pass_kept K (token_for K) (se_s3 Z) es h o' w v"
  using http.once_kept [OF assms(3-7,2,1), of "\<lambda>_ _. False"]
  by (auto simp: runs_def split: prod.splits sum.splits)


section \<open>A journal that is sealed\<close>

definition sample_digest :: bytes where "sample_digest = replicate 32 5"

definition sample_head :: head where
  "sample_head = \<lparr>hd_seq = 1, hd_hash = hex_encode sample_digest, hd_digest = sample_digest\<rparr>"

definition sample_opening :: log_record where
  "sample_opening = \<lparr>pl_seq = 1, pl_time = ''t'', pl_event = ''log.opened'', pl_data = None, pl_prev = GENESIS_HASH,
     lr_hash = hex_encode sample_digest\<rparr>"

definition sample_seal_record :: log_record where
  "sample_seal_record = \<lparr>pl_seq = 2, pl_time = ''t'', pl_event = ''log.sealed'', pl_data = Some
     (bt_insert ''token'' (JStr ''00'') (bt_insert ''tsa'' (JStr ''tsa'') (head_data sample_head))),
     pl_prev = hex_encode sample_digest, lr_hash = hex_encode sample_digest\<rparr>"

definition sample_seal_json :: json_lib where
  "sample_seal_json = \<lparr>jl_payload = (\<lambda>_. Inr [80]),
     jl_record = (\<lambda>r. if r = sample_opening then Inr [82] else if r = sample_seal_record then Inr [83] else Inl ''record''),
     jl_parse = (\<lambda>b. if b = [82] then Inr sample_opening else if b = [83] then Inr sample_seal_record else Inl ''text''),
     jl_sha256 = (\<lambda>_. sample_digest)\<rparr>"

definition sample_seal_lib :: seal_lib where
  "sample_seal_lib = \<lparr>sb_token = sample_token_lib\<lparr>tl_request := table_codec [attest_request seal_sha256 sample_digest]\<rparr>,
     sb_json = sample_seal_json, sb_base64 = hex_encode,
     sb_unbase64 = (\<lambda>s. case hex_decode s of Some b \<Rightarrow> Inr b | None \<Rightarrow> Inl ''base64''),
     sb_lossy = (\<lambda>s. s), sb_name = (\<lambda>_. ''name''), sb_rfc3339 = (\<lambda>_. Some ''t''), sb_log_time = (\<lambda>_. ''t''),
     sb_query_text = (\<lambda>url _. url), sb_tsa_text = (\<lambda>_. ''tsa'')\<rparr>"

definition sample_open_log :: log_state where
  "sample_open_log = \<lparr>lg_seq = 0, lg_head = GENESIS_HASH, lg_offset = 0\<rparr>"

definition sample_seal_log :: log_state where
  "sample_seal_log = \<lparr>lg_seq = 1, lg_head = hex_encode sample_digest, lg_offset = 2\<rparr>"

definition sample_seal_world :: seal_world where
  "sample_seal_world = \<lparr>sw_file = [82, 10], sw_log = sample_seal_log, sw_clock = (\<lambda>_. 0), sw_ticks = 0,
     sw_disk = (\<lambda>_. Disk_ok), sw_appends = 0, sw_unread = (\<lambda>_. None),
     sw_http = (\<lambda>n url body. if n = 0 then Inr (200, Inr [0]) else Inr (503, Inr [])), sw_put = (\<lambda>_. None), sw_others = (\<lambda>_ x. x),
     sw_calls = 0, sw_stored = [], sw_health = seal_state_default\<rparr>"

definition sample_sealer :: "seal_world sealer" where
  "sample_sealer = \<lparr>se_stamper = http_stamper sample_seal_lib ''tsa'', se_cross = [], se_s3 = None\<rparr>"

lemma sample_first_entry:
  "log_append sample_seal_json ''t'' ''log.opened'' None Disk_ok sample_open_log [] = (Inr (), sample_seal_log, [82, 10])"
  by code_simp

lemma sample_log_head: "log_head sample_seal_json sample_seal_log [82, 10]
    = (Inr (1, hex_encode sample_digest), sample_seal_log)"
  by code_simp

lemma sample_seal_entry: "fst (log_append sample_seal_json ''t'' ''log.sealed'' (pl_data sample_seal_record) Disk_ok
    sample_seal_log [82, 10]) = Inr ()"
proof -
  have "catch_up sample_seal_json [82, 10] sample_seal_log = Inr sample_seal_log" by code_simp
  moreover have "new_record sample_seal_json sample_seal_log ''t'' ''log.sealed'' (pl_data sample_seal_record)
      = Inr sample_seal_record"
    by (simp add: new_record_def compute_hash_def payload_bytes_def sample_seal_json_def sample_seal_log_def)
      (simp add: sample_seal_record_def)
  moreover have "sample_opening \<noteq> sample_seal_record" by (simp add: sample_opening_def sample_seal_record_def)
  then have "record_line sample_seal_json sample_seal_record = Inr (html_escape_json [83] @ [newline])"
    by (simp add: record_line_def sample_seal_json_def)
  ultimately show ?thesis by (simp add: log_append_def)
qed

lemma sample_judged:
  "\<exists>a. judge_answer sample_seal_lib ''tsa'' sample_digest (200, Inr [0]) = Inr a \<and> at_tsa a = ''tsa'' \<and> at_token a = ''00''"
proof -
  have "hex_encode [0] = ''00''" by code_simp
  then show ?thesis
    by (simp add: judge_answer_def parsed_token_decode_def sample_seal_lib_def sample_token_lib_def sbind_def
        or_else_err_def require_def MAX_RESPONSE_BYTES_def ok_or_def Let_def sample_deps_def)
      (simp add: sample_signed_data_def sample_info_def sample_request_def sample_digest_def)
qed

lemma sample_data: "Some (seal_data sample_seal_lib sample_head \<lparr>sp_token = [0], sp_tsa = Some ''tsa''\<rparr>)
    = pl_data sample_seal_record" "sb_unbase64 sample_seal_lib ''00'' = Inr [0]"
proof -
  have "hex_encode [0] = ''00''" "hex_decode ''00'' = Some [0]" by code_simp+
  then have base64: "sb_base64 sample_seal_lib [0] = ''00''" "sb_unbase64 sample_seal_lib ''00'' = Inr [0]"
    unfolding sample_seal_lib_def seal_lib.simps by (simp_all only: option.case)
  have "pl_data sample_seal_record = Some (bt_insert ''token'' (JStr ''00'') (bt_insert ''tsa'' (JStr ''tsa'') (head_data sample_head)))"
    unfolding sample_seal_record_def by (simp only: payload.simps)
  then show "Some (seal_data sample_seal_lib sample_head \<lparr>sp_token = [0], sp_tsa = Some ''tsa''\<rparr>)
      = pl_data sample_seal_record" by (simp only: seal_data_def base64 stamp.simps option.case)
  show "sb_unbase64 sample_seal_lib ''00'' = Inr [0]" by (rule base64(2))
qed

lemma runs_append_entry:
  assumes "fst (log_append (sb_json K) (sb_log_time K (sw_clock w (sw_ticks w))) event data
     (sw_disk w (sw_appends w)) (sw_log w) (sw_file w)) = Inr ()" and "\<And>v. Q () v"
  shows "runs (append_entry K event data) Q E w"
  using assms by (auto simp: append_entry_def run seal_now_def runs_def run_defs split: prod.split sum.split)

lemma runs_meanwhile:
  "runs meanwhile Q E w \<longleftrightarrow> (case sw_others w (sw_calls w) (sw_file w, sw_log w) of (f, st) \<Rightarrow>
     Q () (w\<lparr>sw_file := f, sw_log := st, sw_calls := sw_calls w + 1\<rparr>))"
  by (simp add: runs_def meanwhile_def split: prod.split)

lemma sample_sealed:
  "runs (once sample_seal_lib sample_sealer) (\<lambda>o' v. oc_sealed o' \<and> oc_copied o' = None) (\<lambda>_ _. False) sample_seal_world"
proof -
  obtain a where a: "judge_answer sample_seal_lib ''tsa'' sample_digest (200, Inr [0]) = Inr a"
    "at_tsa a = ''tsa''" "at_token a = ''00''" using sample_judged by blast
  have lib: "sb_json sample_seal_lib = sample_seal_json" "sb_log_time sample_seal_lib = (\<lambda>_. ''t'')"
    "to_der (tl_request (sb_token sample_seal_lib)) (attest_request seal_sha256 sample_digest) = Inr [0]"
    by (simp_all add: sample_seal_lib_def)
  have digest: "decode_head (hex_encode sample_digest) = Inr sample_digest"
    by (rule decode_head_encode) (simp add: sample_digest_def)
  have entry: "fst (log_append sample_seal_json ''t'' ''log.sealed'' (Some (seal_data sample_seal_lib sample_head
      \<lparr>sp_token = [0], sp_tsa = Some ''tsa''\<rparr>)) Disk_ok sample_seal_log [82, 10]) = Inr ()"
    unfolding sample_data(1) by (rule sample_seal_entry)
  have head: "runs (sealer_head sample_seal_lib) (\<lambda>h v. h = sample_head \<and> v = sample_seal_world) (\<lambda>_ _. False) sample_seal_world"
    by (simp add: sealer_head_def run runs_calls lib sample_seal_world_def sample_log_head digest sample_head_def)
  have stamp: "runs (http_stamper sample_seal_lib ''tsa'' sample_digest)
      (\<lambda>s v. s = \<lparr>sp_token = [0], sp_tsa = Some ''tsa''\<rparr> \<and> v = sample_seal_world\<lparr>sw_calls := 1\<rparr>)
      (\<lambda>_ _. False) sample_seal_world"
    by (simp add: http_stamper_def attest_def http_post_def run runs_meanwhile lib)
      (simp add: sample_seal_world_def a sample_data(2))
  have sealed: "runs (seal_head sample_seal_lib sample_sealer sample_head) (\<lambda>_ _. True) (\<lambda>_ _. False) sample_seal_world"
    unfolding seal_head_def run sample_sealer_def sample_head_def
    by (simp, rule runs_mono [OF stamp]) 
      (auto intro!: runs_append_entry simp: lib entry [unfolded sample_head_def] EVENT_SEALED_def sample_seal_world_def)
  show ?thesis
    unfolding once_def run
    by (rule runs_mono [OF head])
      (auto simp: seal_stage_def cross_stage_def copy_stage_def run runs_notes sample_sealer_def
        intro!: runs_mono [OF sealed [unfolded sample_sealer_def]])
qed

lemma sample_journal_ok:
  "journal_ok sample_seal_lib sample_seal_world [(''log.opened'', None)]"
proof -
  have "log_open sample_seal_json [] = Inr sample_open_log" by code_simp
  from run_open [OF run_start this, of 0] have "log_run sample_seal_json [] ((\<lambda>_. None)(0 \<mapsto> sample_open_log)) []" .
  from run_append [OF this _ _ sample_first_entry, of 0] show ?thesis
    by (auto simp: journal_ok_def sample_seal_lib_def sample_seal_world_def
        intro!: exI [of _ "(\<lambda>_. None)(0 \<mapsto> sample_seal_log)"])
qed

lemma sample_libs:
  "json_ok (sb_json sample_seal_lib)" "sha256_ok (sb_json sample_seal_lib)" "base64_ok sample_seal_lib"
proof -
  have "sample_opening \<noteq> sample_seal_record" by (simp add: sample_opening_def sample_seal_record_def)
  then show "json_ok (sb_json sample_seal_lib)"
    by (auto simp: json_ok_def sample_seal_lib_def sample_seal_json_def escape_byte_def split: if_splits)
  show "sha256_ok (sb_json sample_seal_lib)" "base64_ok sample_seal_lib"
    by (simp_all add: sha256_ok_def base64_ok_def sample_seal_lib_def sample_seal_json_def sample_digest_def)
qed

lemma sample_sharing: "sharing sample_seal_lib sample_seal_world"
  unfolding sharing_def by (simp add: sample_seal_world_def) (metis append.right_neutral)

theorem remote_seal_covers_the_journal_witness:
  "\<exists>o' v h. once sample_seal_lib sample_sealer sample_seal_world = (Inr o' :: unit + seal_outcome, v) \<and> oc_sealed o'
     \<and> is_head sample_seal_lib [82, 10] [(''log.opened'', None)] h
     \<and> pass_kept sample_seal_lib (token_for sample_seal_lib) None [(''log.opened'', None)] h o' sample_seal_world v"
proof -
  have "se_stamper sample_sealer = http_stamper sample_seal_lib ''tsa''" by (simp add: sample_sealer_def)
  from remote_seal_covers_the_journal [OF this sample_libs(3) sample_journal_ok sample_sharing sample_libs(1,2)]
  obtain o' v h where "once sample_seal_lib sample_sealer sample_seal_world = (Inr o' :: unit + seal_outcome, v)"
    "is_head sample_seal_lib (sw_file sample_seal_world) [(''log.opened'', None)] h"
    "pass_kept sample_seal_lib (token_for sample_seal_lib) (se_s3 sample_sealer) [(''log.opened'', None)] h o' sample_seal_world v"
    by auto
  moreover from runs_okD [OF sample_sealed this(1)] have "oc_sealed o'" by blast
  ultimately show ?thesis by (auto simp: sample_sealer_def sample_seal_world_def)
qed

text \<open>The same world with the timestamping service, which cannot stamp: nothing is lost either.\<close>

definition sample_unit_world :: tsu_world where
  "sample_unit_world = seal_world.extend sample_seal_world (tsu_world.fields sample_ready)"

definition sample_unit_sealer :: "tsu_world sealer" where
  "sample_unit_sealer = \<lparr>se_stamper = authority_stamper sample_seal_lib sample_tsa_lib sample_tsa_options,
     se_cross = [''tsa''], se_s3 = Some ''copy''\<rparr>"


text \<open>Three passes while the authority is out of reach.\<close>

definition out_of_reach :: "'x seal_world_scheme \<Rightarrow> bool" where
  "out_of_reach w \<longleftrightarrow> (\<forall>n url body. sw_http w n url body = Inl ''unreachable'')"

abbreviation failed_pass :: seal_outcome where
  "failed_pass \<equiv> \<lparr>oc_sealed = False, oc_cross_sealed = None, oc_copied = None\<rparr>"

lemma runs_out_of_reach:
  "out_of_reach w \<Longrightarrow> runs (once K sample_sealer) (\<lambda>o' v. o' = failed_pass \<and> out_of_reach v) (\<lambda>_ _. False) w"
  by (auto simp: once_def run sealer_head_def runs_calls runs_notes seal_stage_def cross_stage_def copy_stage_def
      seal_head_def sample_sealer_def http_stamper_def attest_def http_post_def runs_meanwhile out_of_reach_def
      or_else_err_def split: prod.split sum.split)

lemma pass_out_of_reach:
  assumes "out_of_reach w"
  obtains v where "once K sample_sealer w = (Inr failed_pass :: unit + seal_outcome, v)" and "out_of_reach v"
  using runs_out_of_reach [OF assms, of K] by (auto simp: runs_def split: prod.splits sum.splits)


end
