(* ===== verification/Spec2Isabelle.thy ===== *)
theory Spec2Isabelle
  imports Root_Authority Raflow_Spec Service_Samples Gen_Time Time_Source Audit_Log Ocsp_Spec Tsa_Server Tsa_Keys_Spec Seal_Spec
begin

text \<open>
  open-eidas is a set of services for a trust service provider: a certification authority, a
  registration authority, a register of operators who sign what they do with security keys, an OCSP
  responder, a timestamping service, and the audit journals of all of them. This library models the
  parts that decide: what enters the registers and the journals, what is signed, and what is refused.
  Each theory names the file it models; the paths below are under \<open>src/\<close>.

  \<^bold>\<open>The parts and how they call each other.\<close>

  \<^item> Certification authority (\<open>crates/oe-ca-core\<close>, \<open>crates/oe-castore\<close>, \<open>crates/oe-conformance\<close>).
    \<open>Castore\<close> is the register: certificates, authorities, numbers of lists, requesters, requests, secrets.
    \<open>X509\<close> is what the program hands to the crates of DER, digests and certificates; \<open>Ca_Core\<close> the world
    of the handlers (register, journal, clock, generator) with the helper functions of \<open>lib.rs\<close>,
    \<open>extensions.rs\<close> and \<open>signing.rs\<close>; \<open>Conformance\<close> the checks on a certificate that was just signed;
    \<open>Profile\<close> the profiles and the provenance of an operator; \<open>Issuer\<close> issuing, revoking and publishing the
    list; \<open>Root_Authority\<close> the acts of the root (\<open>root.rs\<close>, \<open>ceremony.rs\<close>).
  \<^item> Registration authority (\<open>crates/oe-raflow\<close>): \<open>Raflow\<close>, which reads and writes the same register and
    calls \<open>Issuer\<close>; its properties in \<open>Raflow_Spec\<close>.
  \<^item> Operators (\<open>crates/oe-actions\<close>, \<open>crates/oe-webauthn\<close>). \<open>Webauthn\<close> is the verifier of the keys; \<open>Registry\<close>
    the tables of the operators with their constraints; \<open>Onboarding\<close>, \<open>Enrollment\<close>, \<open>Registry_Actions\<close> the
    ways in and out of it; \<open>Actions\<close> and \<open>Service\<close> the challenge that freezes an action, the signatures, the
    quorum and the execution, with \<open>bin/ca-server/src/revoker.rs\<close> through which a signed revocation reaches
    \<open>Issuer\<close>; \<open>Replay\<close> the journal replayed against the tables. \<open>Service_Rules\<close> and \<open>Service_Steps\<close> carry the
    proofs; the properties are in \<open>Service_Spec\<close>, \<open>Operators_Spec\<close> and \<open>Replay_Spec\<close>.
  \<^item> Revocation status (\<open>crates/oe-ocsp-core\<close>): \<open>Ocsp\<close> downloads and verifies the list that \<open>Issuer\<close>
    publishes, and answers from it; \<open>Ocsp_Spec\<close> joins the two.
  \<^item> Timestamps (\<open>crates/oe-tsa-core\<close>, \<open>crates/oe-rfc3161-asn1\<close>, \<open>crates/oe-timesource\<close>, \<open>bin/tsa-server\<close>).
    \<open>Ntp\<close> and \<open>Time_Source\<close> are the client of the time and the monitor that says whether the clock is
    traceable; \<open>Gen_Time\<close> and \<open>Tst_Token\<close> the time and the structures of a token; \<open>Tsa\<close> the authority, and
    \<open>Tsa_Spec\<close> what it does with any clock and journal; \<open>Tsa_Keys\<close> the generations of its key; \<open>Tsa_Server\<close>
    the service in which the monitor is the clock.
  \<^item> Common: \<open>Hsm\<close> (\<open>crates/oe-hsm\<close>), the keys in a PKCS#11 module; \<open>Audit_Log\<close> (\<open>crates/oe-audit\<close>), the chained
    file of a journal; \<open>Seal\<close> (\<open>crates/oe-seal\<close>, \<open>crates/oe-crosstsa\<close>, \<open>bin/tsa-server/src/seal.rs\<close>), the passes
    that have the head of that file timestamped and copied.

  \<open>Prelude\<close> holds what all share, and \<open>Samples\<close>, \<open>Raflow_Samples\<close> and \<open>Service_Samples\<close> the concrete libraries
  on which the witnesses run.

  \<^bold>\<open>How code becomes definitions.\<close> A handler is a function from the state to a result and a state
  (\<open>('s, 'e, 'a) res\<close>), with \<open>bindr\<close> for \<open>?\<close>, \<open>attempt\<close> for a result that is looked at, and \<open>fail\<close> for an
  early return; the state is changed up to the failure, as in the code. Errors are datatypes with one
  constructor for each message. Strings are their UTF-8 bytes, \<open>u64\<close>, \<open>u32\<close>, \<open>u8\<close> are words, instants and
  durations are numbers of nanoseconds. A table is a list of rows; an ordered map is an association list
  in order. The system clock and the generator of random numbers are functions of a counter in the state,
  and nothing is assumed of their values; the answers of the network, of a disk and of a PKCS#11 module
  are arguments or oracles of the state. The crates for DER, digests, signatures, WebAuthn and JSON are
  records of functions (\<open>deps\<close>, \<open>ra_deps\<close>, \<open>act_deps\<close>, \<open>ocsp_deps\<close>, \<open>tsa_lib\<close>, \<open>json_lib\<close>, \<open>seal_lib\<close>); what a property
  relies on of them is a named predicate among its hypotheses (an encoder that is decoded back, JSON
  that is read back), and its witness gives concrete functions that satisfy it.

  \<^bold>\<open>How the proofs go.\<close> Four collections of \<open>Prelude\<close> carry them: \<open>wp\<close> (when a chain of steps ends with a
  given result), \<open>keeps\<close> and \<open>pres\<close> (a predicate of the state is preserved whatever the result), \<open>runs\<close>
  (a postcondition of each result), \<open>errors\<close> (which errors a handler can end with). The step relations
  (\<open>log_run\<close>, \<open>mon_step\<close>, \<open>tsa_step\<close>, \<open>ocsp_step\<close>, the steps of the registers) compose the handlers in any order, and the
  invariants are proved by induction over them.

  \<^bold>\<open>Interfaces.\<close> \<open>first_revocation\<close> and \<open>number_stream\<close> (in \<open>Castore\<close>) are the contracts the register gives
  twice, to certificates and to authorities, to lists of both; \<open>registry_invariant\<close> (in \<open>Service_Steps\<close>) is
  what a predicate of the tables of operators must keep under each statement to be kept by everything the
  service does, interpreted by the constraints of the tables, a challenge that is spent and a guard that is
  closed; \<open>instruments\<close> (in \<open>Tsa_Spec\<close>) is what the timestamping authority expects of the traits \<open>Clock\<close> and
  \<open>Recorder\<close>, interpreted in \<open>Tsa_Server\<close> by the monitor and the journal of the service.

  \<^bold>\<open>What is shown.\<close> Of the operators: the journal determines the register, no action without its quorum of
  signatures, no challenge used twice, an administrator always remains. Of the authorities: what is
  issued or revoked is journaled first, was conform and, for a request, was approved by someone; a
  revocation is final and told by the lists, whose numbers grow, and by the OCSP responder. Of the
  timestamps: no token without a traceable clock, a key in its time and an entry of the journal. Of the
  journal: several writers make one list, a rewriting shows, and what is sealed is its head. Where
  the code departs from its own comments, a theorem shows it and the manifest says so.

  \<^bold>\<open>Bounds.\<close> Recursion is structural or has its termination proof (\<open>scan\<close>, on the bytes left), so no fuel
  is needed; the loops that the code bounds keep its bounds: five attempts to reserve a serial number
  (\<open>reserve_attempts\<close>), three openings of a session and two signatures (\<open>Hsm.signing_is_bounded\<close>), sixty-four
  generations of a key (\<open>MAX_GENERATIONS\<close>). The endless loops of the services are step relations, of which
  a step is one pass.

  \<^bold>\<open>Not modelled.\<close> The database server behind \<open>postgres.rs\<close> and \<open>registry.rs\<close> (its tables are lists,
  and a handler runs alone, as in a serialisable transaction); HTTP, TLS and the routes of the services;
  the parsing of command lines and environments; the client of S3, the enrolment by the network and NTS
  key establishment; the search of journals and the pages of the console; the matrix of requirements
  printed by \<open>oe-conformance\<close>, a table of texts. The manifest lists them one by one.
\<close>

end
